(* ===== verification/Rust_Prelude.thy ===== *)
theory Rust_Prelude
  imports Main "HOL-Library.Word" "HOL-Library.AList" "HOL-Library.Sublist"
begin

text \<open>
  What every component of the development shares: machine integers at the widths the
  Rust sources use, outcomes of functions that may panic, the part of the Rust standard
  library the modelled sources call (slices, \<^verbatim>\<open>str\<close>, \<^verbatim>\<open>HashMap\<close>, formatting and parsing of
  integers), and the generic lemmas about them.

  The model is of the release profile: \<^verbatim>\<open>Cargo.toml\<close> does not turn \<^verbatim>\<open>overflow-checks\<close> on,
  so integer arithmetic wraps, while a failed \<^verbatim>\<open>assert!\<close>, an \<^verbatim>\<open>unwrap\<close> of nothing, an index
  out of range and a division by zero panic.

  A Rust \<^verbatim>\<open>str\<close> is a \<^typ>\<open>string\<close>; its characters are the bytes of the UTF-8 text, so
  \<^verbatim>\<open>len()\<close> and byte offsets are list lengths and positions.  A \<^verbatim>\<open>HashMap\<close> that is only
  looked up is a partial function; one that is iterated is an association list, and since
  every statement is about all such lists, it is about every iteration order.
\<close>

section \<open>Collections of rules\<close>

named_theorems exec_simps \<open>evaluation of functions that may panic\<close>
named_theorems inv_intros \<open>operations keep their component's invariant\<close>
named_theorems frame_simps \<open>fields an operation leaves alone\<close>

section \<open>Machine integers\<close>

type_synonym u8 = "8 word"
type_synonym u16 = "16 word"
type_synonym u32 = "32 word"
type_synonym u64 = "64 word"

text \<open>An \<^verbatim>\<open>i64\<close> is an \<^typ>\<open>int\<close> in range; results of arithmetic are brought back by \<open>wrap_i64\<close>.\<close>

definition i64_max :: int where
  "i64_max = 9223372036854775807"

definition wrap_i64 :: "int \<Rightarrow> int" where
  "wrap_i64 x = (x + 2 ^ 63) mod 2 ^ 64 - 2 ^ 63"

definition is_i64 :: "int \<Rightarrow> bool" where
  "is_i64 x \<longleftrightarrow> - (2 ^ 63) \<le> x \<and> x < 2 ^ 63"

text \<open>The cast \<^verbatim>\<open>x as u64\<close> of a signed value, \<^verbatim>\<open>x as i64\<close> of an unsigned one, and
  \<^verbatim>\<open>x as u32\<close>, are truncation and reinterpretation.\<close>

definition as_u64 :: "int \<Rightarrow> u64" where
  "as_u64 x = word_of_int x"

definition as_u32 :: "int \<Rightarrow> u32" where
  "as_u32 x = word_of_int x"

definition u64_as_i64 :: "u64 \<Rightarrow> int" where
  "u64_as_i64 w = sint w"

definition u32_as_i64 :: "u32 \<Rightarrow> int" where
  "u32_as_i64 w = uint w"

definition saturating_add_u64 :: "u64 \<Rightarrow> u64 \<Rightarrow> u64" where
  "saturating_add_u64 a b = (if uint a + uint b < 2 ^ 64 then a + b else - 1)"

definition saturating_sub_u64 :: "u64 \<Rightarrow> u64 \<Rightarrow> u64" where
  "saturating_sub_u64 a b = (if b \<le> a then a - b else 0)"

lemma wrap_i64_id [simp]: "is_i64 x \<Longrightarrow> wrap_i64 x = x"
  by (simp add: wrap_i64_def is_i64_def)

lemma is_i64_wrap [simp]: "is_i64 (wrap_i64 x)"
proof -
  have "0 \<le> (x + 2 ^ 63) mod 2 ^ 64" "(x + 2 ^ 63) mod 2 ^ 64 < (2 ^ 64 :: int)"
    by (rule pos_mod_sign, simp) (rule pos_mod_bound, simp)
  then show ?thesis by (simp add: wrap_i64_def is_i64_def)
qed

lemma uint_saturating_add_u64:
  "uint (saturating_add_u64 a b) = min (uint a + uint b) (2 ^ 64 - 1)"
proof (cases "uint a + uint b < 2 ^ 64")
  case True
  then show ?thesis
    by (simp add: saturating_add_u64_def uint_word_ariths)
next
  case False
  then show ?thesis
    by (simp add: saturating_add_u64_def unsigned_minus_1_eq_mask mask_eq_exp_minus_1)
qed

lemma uint_saturating_sub_u64:
  "uint (saturating_sub_u64 a b) = max (uint a - uint b) 0"
proof (cases "b \<le> a")
  case True
  then show ?thesis
    by (simp add: saturating_sub_u64_def word_le_def uint_sub_lem [THEN iffD1])
next
  case False
  then show ?thesis by (simp add: saturating_sub_u64_def word_le_def)
qed

section \<open>Outcomes of code that may panic\<close>

datatype 'a exec = Panic | Done 'a

fun exec_bind :: "'a exec \<Rightarrow> ('a \<Rightarrow> 'b exec) \<Rightarrow> 'b exec" where
  "exec_bind Panic f = Panic"
| "exec_bind (Done x) f = f x"

fun the_exec :: "'a option \<Rightarrow> 'a exec" where
  "the_exec None = Panic"
| "the_exec (Some x) = Done x"

lemma exec_bind_Done [simp, exec_simps]:
  "exec_bind m f = Done y \<longleftrightarrow> (\<exists>x. m = Done x \<and> f x = Done y)"
  by (cases m) auto

lemma exec_bind_Panic [simp, exec_simps]:
  "exec_bind m f = Panic \<longleftrightarrow> m = Panic \<or> (\<exists>x. m = Done x \<and> f x = Panic)"
  by (cases m) auto

lemma exec_bind_case_sum [simp, exec_simps]:
  "exec_bind m (\<lambda>r. case r of Inl a \<Rightarrow> f a | Inr b \<Rightarrow> g b) = Done y \<longleftrightarrow>
     (\<exists>a. m = Done (Inl a) \<and> f a = Done y) \<or> (\<exists>b. m = Done (Inr b) \<and> g b = Done y)"
  by (cases m) (auto split: sum.split)

lemma exec_bind_case_option [simp, exec_simps]:
  "exec_bind m (\<lambda>r. case r of None \<Rightarrow> f | Some b \<Rightarrow> g b) = Done y \<longleftrightarrow>
     (m = Done None \<and> f = Done y) \<or> (\<exists>b. m = Done (Some b) \<and> g b = Done y)"
  by (cases m) (auto split: option.split)

lemma the_exec_Done [simp, exec_simps]: "the_exec m = Done x \<longleftrightarrow> m = Some x"
  by (cases m) auto

lemma the_exec_Panic [simp, exec_simps]: "the_exec m = Panic \<longleftrightarrow> m = None"
  by (cases m) auto

lemma exec_not_Panic: "m \<noteq> Panic \<longleftrightarrow> (\<exists>x. m = Done x)"
  by (cases m) auto

text \<open>Indexing a slice: \<^verbatim>\<open>xs[i]\<close> panics out of range, \<^verbatim>\<open>xs.get(i)\<close> does not.\<close>

definition slice_get :: "'a list \<Rightarrow> nat \<Rightarrow> 'a option" where
  "slice_get xs i = (if i < length xs then Some (xs ! i) else None)"

definition slice_index :: "'a list \<Rightarrow> nat \<Rightarrow> 'a exec" where
  "slice_index xs i = the_exec (slice_get xs i)"

text \<open>\<^verbatim>\<open>&xs[a..b]\<close> panics unless \<open>a \<le> b\<close> and \<open>b \<le> len\<close>.\<close>

definition slice_range :: "'a list \<Rightarrow> nat \<Rightarrow> nat \<Rightarrow> 'a list exec" where
  "slice_range xs a b =
     (if a \<le> b \<and> b \<le> length xs then Done (take (b - a) (drop a xs)) else Panic)"

lemma slice_index_Done [simp]:
  "slice_index xs i = Done x \<longleftrightarrow> i < length xs \<and> x = xs ! i"
  by (auto simp: slice_index_def slice_get_def)

lemma slice_index_Panic [simp]: "slice_index xs i = Panic \<longleftrightarrow> length xs \<le> i"
  by (auto simp: slice_index_def slice_get_def)

section \<open>Slices\<close>

text \<open>
  \<^verbatim>\<open>[T]::partition_point\<close> returns the number of leading elements that satisfy the predicate
  when the slice is partitioned; its documentation leaves the result unspecified otherwise.
\<close>

definition partition_point :: "('a \<Rightarrow> bool) \<Rightarrow> 'a list \<Rightarrow> nat" where
  "partition_point p xs = length (takeWhile p xs)"

definition partitioned :: "('a \<Rightarrow> bool) \<Rightarrow> 'a list \<Rightarrow> bool" where
  "partitioned p xs \<longleftrightarrow> (\<forall>i j. i < j \<longrightarrow> j < length xs \<longrightarrow> p (xs ! j) \<longrightarrow> p (xs ! i))"

text \<open>\<^verbatim>\<open>Vec::insert\<close> at an index that is in range.\<close>

definition insert_at :: "nat \<Rightarrow> 'a \<Rightarrow> 'a list \<Rightarrow> 'a list" where
  "insert_at i x xs = take i xs @ x # drop i xs"

lemma partition_point_le [simp]: "partition_point p xs \<le> length xs"
  by (simp add: partition_point_def length_takeWhile_le)

lemma partition_point_before: "i < partition_point p xs \<Longrightarrow> p (xs ! i)"
  unfolding partition_point_def
  by (metis nth_mem set_takeWhileD takeWhile_nth)

lemma partition_point_at:
  "partition_point p xs < length xs \<Longrightarrow> \<not> p (xs ! partition_point p xs)"
  unfolding partition_point_def by (rule nth_length_takeWhile)

lemma partition_point_after:
  "partitioned p xs \<Longrightarrow> partition_point p xs \<le> i \<Longrightarrow> i < length xs \<Longrightarrow> \<not> p (xs ! i)"
  by (metis le_neq_implies_less order.strict_trans1 partition_point_at partitioned_def)

lemma length_insert_at [simp]: "length (insert_at i x xs) = Suc (length xs)"
  by (simp add: insert_at_def)

lemma set_insert_at [simp]: "set (insert_at i x xs) = insert x (set xs)"
  by (metis append_take_drop_id insert_at_def list.simps(15) set_append Un_insert_right)

section \<open>Associations with an iteration order\<close>

abbreviation hm_get :: "('k \<times> 'v) list \<Rightarrow> 'k \<Rightarrow> 'v option" where
  "hm_get m k \<equiv> map_of m k"

abbreviation hm_insert :: "'k \<Rightarrow> 'v \<Rightarrow> ('k \<times> 'v) list \<Rightarrow> ('k \<times> 'v) list" where
  "hm_insert k v m \<equiv> AList.update k v m"

abbreviation hm_remove :: "'k \<Rightarrow> ('k \<times> 'v) list \<Rightarrow> ('k \<times> 'v) list" where
  "hm_remove k m \<equiv> AList.delete k m"

text \<open>A \<^verbatim>\<open>HashMap\<close> holds each key once.\<close>

definition hm_wf :: "('k \<times> 'v) list \<Rightarrow> bool" where
  "hm_wf m \<longleftrightarrow> distinct (map fst m)"

lemma hm_wf_Nil [simp]: "hm_wf []"
  by (simp add: hm_wf_def)

lemma hm_wf_insert [simp]: "hm_wf m \<Longrightarrow> hm_wf (hm_insert k v m)"
  by (simp add: hm_wf_def distinct_update)

lemma hm_wf_remove [simp]: "hm_wf m \<Longrightarrow> hm_wf (hm_remove k m)"
  by (simp add: hm_wf_def distinct_delete)

lemma hm_get_insert: "hm_get (hm_insert k v m) = (hm_get m)(k \<mapsto> v)"
  by (rule update_conv')

lemma hm_get_remove: "hm_get (hm_remove k m) = (hm_get m)(k := None)"
  by (rule delete_conv')

lemma hm_insert_fresh: "k \<notin> fst ` set m \<Longrightarrow> hm_insert k v m = m @ [(k, v)]"
  by (induction m) auto

lemma hm_get_in_set: "hm_get m k = Some v \<Longrightarrow> (k, v) \<in> set m"
  by (rule map_of_SomeD)

lemma hm_in_set_get: "hm_wf m \<Longrightarrow> (k, v) \<in> set m \<Longrightarrow> hm_get m k = Some v"
  by (simp add: hm_wf_def)

end
