(* ===== verification/Handles.thy ===== *)
theory Handles
  imports Rust_Prelude
begin

text \<open>
  \<^verbatim>\<open>handles.rs\<close>: the tree of object handles that the adapter gives to the client (stack
  frames, scopes, variables).  Handles are numbers; an object is created under an optional
  parent with a key, and after a \<open>reset\<close> the same path of keys gets the same number again,
  so that the client can keep its tree expanded across stops.
\<close>

section \<open>State and operations\<close>

type_synonym handle = int
type_synonym tree_key = "handle option \<times> string"

record 'v handle_tree =
  obj_by_handle :: "handle \<rightharpoonup> handle option \<times> string \<times> 'v"
  cur_handle_tree :: "tree_key \<rightharpoonup> handle"
  prev_handle_tree :: "tree_key \<rightharpoonup> handle"
  next_handle_value :: handle

definition ht_new :: "'v handle_tree" where
  "ht_new = \<lparr>obj_by_handle = Map.empty, cur_handle_tree = Map.empty,
     prev_handle_tree = Map.empty, next_handle_value = 1000\<rparr>"

definition reset :: "'v handle_tree \<Rightarrow> 'v handle_tree" where
  "reset t = t\<lparr>obj_by_handle := Map.empty, cur_handle_tree := Map.empty,
     prev_handle_tree := cur_handle_tree t\<rparr>"

definition create_new_handle :: "'v handle_tree \<Rightarrow> handle \<times> 'v handle_tree" where
  "create_new_handle t =
     (let n = wrap_i64 (next_handle_value t + 1) in (n, t\<lparr>next_handle_value := n\<rparr>))"

definition create :: "'v handle_tree \<Rightarrow> handle option \<Rightarrow> string \<Rightarrow> 'v \<Rightarrow>
    (handle \<times> 'v handle_tree) exec" where
  "create t parent_handle key v =
     (if \<exists>ph. parent_handle = Some ph \<and> obj_by_handle t ph = None then Panic
      else
        let (h, t) = (case prev_handle_tree t (parent_handle, key) of
                        Some h \<Rightarrow> (h, t)
                      | None \<Rightarrow> create_new_handle t);
            triple = (parent_handle, key, v);
            (h, t) = (case obj_by_handle t h of
                        None \<Rightarrow> (h, t\<lparr>obj_by_handle := (obj_by_handle t)(h \<mapsto> triple)\<rparr>)
                      | Some _ \<Rightarrow>
                          (let (h, t) = create_new_handle t
                           in (h, t\<lparr>obj_by_handle := (obj_by_handle t)(h \<mapsto> triple)\<rparr>)))
        in Done (h, t\<lparr>cur_handle_tree := (cur_handle_tree t)((parent_handle, key) \<mapsto> h)\<rparr>))"

definition get_full_info :: "'v handle_tree \<Rightarrow> handle \<Rightarrow> (handle option \<times> string \<times> 'v) option" where
  "get_full_info t h =
     (case obj_by_handle t h of Some (p, k, v) \<Rightarrow> Some (p, k, v) | None \<Rightarrow> None)"

definition get :: "'v handle_tree \<Rightarrow> handle \<Rightarrow> 'v option" where
  "get t h = (case obj_by_handle t h of Some (_, _, v) \<Rightarrow> Some v | None \<Rightarrow> None)"

section \<open>Running a sequence of creations\<close>

fun create_all :: "'v handle_tree \<Rightarrow> (handle option \<times> string \<times> 'v) list \<Rightarrow>
    (handle list \<times> 'v handle_tree) exec" where
  "create_all t [] = Done ([], t)"
| "create_all t ((p, k, v) # ops) =
     exec_bind (create t p k v) (\<lambda>(h, t).
       exec_bind (create_all t ops) (\<lambda>(hs, t). Done (h # hs, t)))"

section \<open>The invariant\<close>

text \<open>
  Live handles are numbered above 1000 and at most \<open>next_handle_value\<close>; parents are live and
  have smaller numbers; the current key tree names live objects, and every live object's key
  is in it; the key tree of the previous generation is injective, and a live object whose
  number it uses has the key it gives that number to.
\<close>

definition objs_ok :: "'v handle_tree \<Rightarrow> bool" where
  "objs_ok t \<longleftrightarrow> (\<forall>h p k v. obj_by_handle t h = Some (p, k, v) \<longrightarrow>
     1000 < h \<and> h \<le> next_handle_value t \<and> cur_handle_tree t (p, k) \<noteq> None \<and>
     (\<forall>q. p = Some q \<longrightarrow> q < h \<and> obj_by_handle t q \<noteq> None))"

definition cur_ok :: "'v handle_tree \<Rightarrow> bool" where
  "cur_ok t \<longleftrightarrow> (\<forall>p k h. cur_handle_tree t (p, k) = Some h \<longrightarrow>
     (\<exists>v. obj_by_handle t h = Some (p, k, v)))"

definition prev_ok :: "'v handle_tree \<Rightarrow> bool" where
  "prev_ok t \<longleftrightarrow> (\<forall>p k h. prev_handle_tree t (p, k) = Some h \<longrightarrow>
     1000 < h \<and> h \<le> next_handle_value t \<and> (\<forall>q. p = Some q \<longrightarrow> q < h) \<and>
     (\<forall>y. prev_handle_tree t y = Some h \<longrightarrow> y = (p, k)) \<and>
     (\<forall>p' k' v. obj_by_handle t h = Some (p', k', v) \<longrightarrow> (p', k') = (p, k)))"

definition ht_inv :: "'v handle_tree \<Rightarrow> bool" where
  "ht_inv t \<longleftrightarrow> objs_ok t \<and> cur_ok t \<and> prev_ok t \<and>
     1000 \<le> next_handle_value t \<and> next_handle_value t \<le> i64_max"

lemmas ht_inv_defs = ht_inv_def objs_ok_def cur_ok_def prev_ok_def

lemma ht_inv_objD:
  assumes "ht_inv t" "obj_by_handle t h = Some (p, k, v)"
  shows "1000 < h" "h \<le> next_handle_value t" "cur_handle_tree t (p, k) \<noteq> None"
    and "p = Some q \<Longrightarrow> q < h" "p = Some q \<Longrightarrow> obj_by_handle t q \<noteq> None"
  using assms unfolding ht_inv_def objs_ok_def by blast+

lemma ht_inv_prevD:
  assumes "ht_inv t" "prev_handle_tree t (p, k) = Some h"
  shows "1000 < h" "h \<le> next_handle_value t" "p = Some q \<Longrightarrow> q < h"
    and "prev_handle_tree t y = Some h \<Longrightarrow> y = (p, k)"
    and "obj_by_handle t h = Some (p', k', v) \<Longrightarrow> (p', k') = (p, k)"
  using assms unfolding ht_inv_def prev_ok_def by blast+

lemma ht_inv_curD:
  "ht_inv t \<Longrightarrow> cur_handle_tree t (p, k) = Some h \<Longrightarrow> \<exists>v. obj_by_handle t h = Some (p, k, v)"
  unfolding ht_inv_def cur_ok_def by blast

lemma ht_inv_new [inv_intros]: "ht_inv ht_new"
  by (simp add: ht_inv_defs ht_new_def i64_max_def)

lemma cur_inj:
  assumes "ht_inv t" "cur_handle_tree t x = Some h" "cur_handle_tree t y = Some h"
  shows "x = y"
  using assms ht_inv_curD [of t "fst x" "snd x" h] ht_inv_curD [of t "fst y" "snd y" h]
  by (auto simp: prod_eq_iff)

lemma ht_inv_reset [inv_intros]:
  assumes "ht_inv t"
  shows "ht_inv (reset t)"
proof -
  have "prev_ok (reset t)"
    unfolding prev_ok_def
  proof (intro allI impI)
    fix p k h
    assume "prev_handle_tree (reset t) (p, k) = Some h"
    then have cur: "cur_handle_tree t (p, k) = Some h" by (simp add: reset_def)
    then obtain v where obj: "obj_by_handle t h = Some (p, k, v)"
      using ht_inv_curD [OF assms] by blast
    show "1000 < h \<and> h \<le> next_handle_value (reset t) \<and> (\<forall>q. p = Some q \<longrightarrow> q < h) \<and>
      (\<forall>y. prev_handle_tree (reset t) y = Some h \<longrightarrow> y = (p, k)) \<and>
      (\<forall>p' k' v. obj_by_handle (reset t) h = Some (p', k', v) \<longrightarrow> (p', k') = (p, k))"
      using ht_inv_objD(1,2,4) [OF assms obj] cur_inj [OF assms _ cur] by (simp add: reset_def)
  qed
  moreover have "objs_ok (reset t)" "cur_ok (reset t)"
    by (simp_all add: objs_ok_def cur_ok_def reset_def)
  ultimately show ?thesis
    using assms by (simp add: ht_inv_def) (simp add: reset_def)
qed

section \<open>What one creation does\<close>

text \<open>
  The result of \<open>create\<close> in closed form: the number is the one the previous generation used
  for this key if it is free, a fresh one otherwise.
\<close>

definition reusable :: "'v handle_tree \<Rightarrow> tree_key \<Rightarrow> handle option" where
  "reusable t x = (case prev_handle_tree t x of
     Some h \<Rightarrow> (if obj_by_handle t h = None then Some h else None) | None \<Rightarrow> None)"

definition place :: "'v handle_tree \<Rightarrow> handle \<Rightarrow> handle option \<Rightarrow> string \<Rightarrow> 'v \<Rightarrow> 'v handle_tree" where
  "place t h p k v = t\<lparr>obj_by_handle := (obj_by_handle t)(h \<mapsto> (p, k, v)),
     cur_handle_tree := (cur_handle_tree t)((p, k) \<mapsto> h),
     next_handle_value := max (next_handle_value t) h\<rparr>"

abbreviation parent_live :: "'v handle_tree \<Rightarrow> handle option \<Rightarrow> bool" where
  "parent_live t p \<equiv> \<forall>q. p = Some q \<longrightarrow> obj_by_handle t q \<noteq> None"

lemma place_fields [simp]:
  "obj_by_handle (place t h p k v) = (obj_by_handle t)(h \<mapsto> (p, k, v))"
  "cur_handle_tree (place t h p k v) = (cur_handle_tree t)((p, k) \<mapsto> h)"
  "prev_handle_tree (place t h p k v) = prev_handle_tree t"
  "next_handle_value (place t h p k v) = max (next_handle_value t) h"
  by (simp_all add: place_def)

lemma fresh_not_live:
  "ht_inv t \<Longrightarrow> next_handle_value t < h \<Longrightarrow> obj_by_handle t h = None"
  by (cases "obj_by_handle t h") (auto dest: ht_inv_objD(2))

lemma create_new_handle_eq:
  assumes "ht_inv t" "next_handle_value t < i64_max"
  shows "create_new_handle t =
    (next_handle_value t + 1, t\<lparr>next_handle_value := next_handle_value t + 1\<rparr>)"
proof -
  have "is_i64 (next_handle_value t + 1)"
    using assms by (simp add: ht_inv_def is_i64_def i64_max_def)
  then show ?thesis by (simp add: create_new_handle_def Let_def)
qed

lemma create_panic_iff: "create t p k v = Panic \<longleftrightarrow> \<not> parent_live t p"
  by (auto simp: create_def Let_def split: prod.splits option.splits)

lemma create_eq:
  assumes inv: "ht_inv t" and room: "next_handle_value t < i64_max" and live: "parent_live t p"
  shows "create t p k v =
    (let h = (case reusable t (p, k) of Some h \<Rightarrow> h | None \<Rightarrow> next_handle_value t + 1)
     in Done (h, place t h p k v))"
proof -
  have guard: "\<not> (\<exists>ph. p = Some ph \<and> obj_by_handle t ph = None)" using live by auto
  note eqs = create_def reusable_def create_new_handle_eq [OF inv room] place_def Let_def
  show ?thesis
  proof (cases "prev_handle_tree t (p, k)")
    case None
    have "obj_by_handle t (next_handle_value t + 1) = None"
      using fresh_not_live [OF inv] by simp
    with None guard show ?thesis by (simp add: eqs)
  next
    case (Some h)
    have "h \<le> next_handle_value t" using ht_inv_prevD [OF inv Some] by simp
    with Some guard show ?thesis
      by (cases "obj_by_handle t h") (simp_all add: eqs max_absorb1)
  qed
qed

lemma reusable_SomeD:
  "reusable t x = Some h \<Longrightarrow> prev_handle_tree t x = Some h \<and> obj_by_handle t h = None"
  by (auto simp: reusable_def split: option.splits if_splits)

lemma place_inv:
  assumes inv: "ht_inv t" and live: "parent_live t p" and free: "obj_by_handle t h = None"
    and h: "h = next_handle_value t + 1 \<or> prev_handle_tree t (p, k) = Some h"
    and room: "next_handle_value t < i64_max"
  shows "ht_inv (place t h p k v)"
proof -
  have "1000 < h"
    using h ht_inv_prevD(1) [OF inv] inv by (auto simp: ht_inv_def)
  moreover have "q < h" if "p = Some q" for q
    using h
  proof
    assume "h = next_handle_value t + 1"
    with live that show ?thesis using ht_inv_objD(2) [OF inv, of q] by fastforce
  qed (use that ht_inv_prevD(3) [OF inv] in auto)
  ultimately have less: "1000 < h" "p = Some q \<Longrightarrow> q < h" for q by blast+
  have "objs_ok (place t h p k v)"
    unfolding objs_ok_def place_def
    using less live ht_inv_objD [OF inv] by (auto simp: le_max_iff_disj)
  moreover have "cur_ok (place t h p k v)"
  proof -
    have "cur_handle_tree t (p', k') \<noteq> Some h" for p' k'
      using ht_inv_curD [OF inv, of p' k' h] free by auto
    then show ?thesis unfolding cur_ok_def place_def using ht_inv_curD [OF inv] by auto
  qed
  moreover have "prev_ok (place t h p k v)"
  proof -
    have key: "(p, k) = (p', k')" if "prev_handle_tree t (p', k') = Some h" for p' k'
      using h that ht_inv_prevD(2,4) [OF inv that] by auto
    show ?thesis
      unfolding prev_ok_def
    proof (intro allI impI)
      fix p' k' h'
      assume "prev_handle_tree (place t h p k v) (p', k') = Some h'"
      then have old: "prev_handle_tree t (p', k') = Some h'" by (simp add: place_def)
      note D = ht_inv_prevD [OF inv old]
      show "1000 < h' \<and> h' \<le> next_handle_value (place t h p k v) \<and> (\<forall>q. p' = Some q \<longrightarrow> q < h') \<and>
        (\<forall>y. prev_handle_tree (place t h p k v) y = Some h' \<longrightarrow> y = (p', k')) \<and>
        (\<forall>p'' k'' v'. obj_by_handle (place t h p k v) h' = Some (p'', k'', v') \<longrightarrow>
           (p'', k'') = (p', k'))"
      proof (intro conjI allI impI)
        show "1000 < h'" "h' \<le> next_handle_value (place t h p k v)"
          using D(1,2) by (simp_all add: place_def)
        show "q < h'" if "p' = Some q" for q using D(3) that .
        show "y = (p', k')" if "prev_handle_tree (place t h p k v) y = Some h'" for y
          using D(4) that by (simp add: place_def)
        show "(p'', k'') = (p', k')"
          if "obj_by_handle (place t h p k v) h' = Some (p'', k'', v')" for p'' k'' v'
          using that key old D(5) by (cases "h' = h") (simp_all add: place_def)
      qed
    qed
  qed
  moreover have "h \<le> i64_max"
    using h room ht_inv_prevD(2) [OF inv, of p k h] by auto
  ultimately show ?thesis
    using inv by (simp add: ht_inv_def le_max_iff_disj)
qed

lemma create_inv [inv_intros]:
  assumes inv: "ht_inv t" and room: "next_handle_value t < i64_max"
    and c: "create t p k v = Done (h, t')"
  shows "ht_inv t'"
proof -
  have live: "parent_live t p" using c create_panic_iff [of t p k v] by auto
  show ?thesis
  proof (cases "reusable t (p, k)")
    case None
    with c have "h = next_handle_value t + 1" "t' = place t h p k v"
      by (auto simp add: create_eq [OF inv room live] Let_def)
    then show ?thesis
      using place_inv [OF inv live _ _ room] fresh_not_live [OF inv] by simp
  next
    case (Some h')
    with c have "h = h'" "t' = place t h p k v"
      by (auto simp add: create_eq [OF inv room live] Let_def)
    then show ?thesis
      using place_inv [OF inv live _ _ room] reusable_SomeD [OF Some] by simp
  qed
qed

lemma create_outcome:
  assumes inv: "ht_inv t" and room: "next_handle_value t < i64_max"
    and c: "create t p k v = Done (h, t')"
  shows "t' = place t h p k v" "obj_by_handle t h = None" "parent_live t p"
    and "h = (case reusable t (p, k) of Some h \<Rightarrow> h | None \<Rightarrow> next_handle_value t + 1)"
proof -
  show live: "parent_live t p" using c create_panic_iff [of t p k v] by auto
  show "t' = place t h p k v"
    and h: "h = (case reusable t (p, k) of Some h \<Rightarrow> h | None \<Rightarrow> next_handle_value t + 1)"
    using c by (auto simp add: create_eq [OF inv room live] Let_def)
  show "obj_by_handle t h = None"
    using h reusable_SomeD [of t "(p, k)"] fresh_not_live [OF inv]
    by (cases "reusable t (p, k)") auto
qed

lemma get_full_info_eq: "get_full_info t h = obj_by_handle t h"
  by (simp add: get_full_info_def split: option.splits)

lemma reset_fields [simp]:
  "obj_by_handle (reset t) = Map.empty" "cur_handle_tree (reset t) = Map.empty"
  "prev_handle_tree (reset t) = cur_handle_tree t"
  "next_handle_value (reset t) = next_handle_value t"
  by (simp_all add: reset_def)

section \<open>Reachable trees\<close>

text \<open>
  The trees the adapter can hold: it creates objects and resets, and it never creates more
  than \<^verbatim>\<open>i64::MAX\<close> of them.
\<close>

inductive ht_reachable :: "'v handle_tree \<Rightarrow> bool" where
  reach_new: "ht_reachable ht_new"
| reach_reset: "ht_reachable t \<Longrightarrow> ht_reachable (reset t)"
| reach_create: "ht_reachable t \<Longrightarrow> next_handle_value t < i64_max \<Longrightarrow>
    create t p k v = Done (h, t') \<Longrightarrow> ht_reachable t'"

lemma ht_reachable_inv: "ht_reachable t \<Longrightarrow> ht_inv t"
  by (induction rule: ht_reachable.induct) (auto intro: inv_intros)

text \<open>
  Property C1.  In every tree the adapter can reach, creating an object gives a number that no
  live object has, makes that number stand for exactly the object created, and leaves every
  other number alone; it panics exactly when the parent is not live.  The number is the one that the
  same key under the same parent had before the last reset, if no live object has it, and a number that
  was never given out otherwise.
\<close>

theorem create_allocates:
  assumes "ht_reachable t" "next_handle_value t < i64_max"
  shows "case create t p k v of
      Panic \<Rightarrow> \<exists>q. p = Some q \<and> get_full_info t q = None
    | Done (h, t') \<Rightarrow> get_full_info t h = None \<and> get_full_info t' h = Some (p, k, v) \<and>
        get t' h = Some v \<and> (\<forall>h'. h' \<noteq> h \<longrightarrow> get_full_info t' h' = get_full_info t h') \<and>
        (case prev_handle_tree t (p, k) of
           Some g \<Rightarrow> h = (if get_full_info t g = None then g else next_handle_value t + 1)
         | None \<Rightarrow> h = next_handle_value t + 1) \<and>
        cur_handle_tree t' (p, k) = Some h"
proof (cases "create t p k v")
  case Panic
  with create_panic_iff [THEN iffD1, of t p k v] show ?thesis
    by (auto simp: get_full_info_eq simp del: not_None_eq)
next
  case (Done r)
  obtain h t' where r: "r = (h, t')" by (cases r)
  note out = create_outcome [OF ht_reachable_inv [OF assms(1)] assms(2), of p k v h t']
  show ?thesis using Done r out(1,2,4) by (auto simp: get_full_info_eq get_def reusable_def split: option.splits)
qed

theorem create_allocates_witness:
  "get_full_info (ht_new :: nat handle_tree) 1001 = None \<and>
   (case create (ht_new :: nat handle_tree) None ''1'' 161 of
      Panic \<Rightarrow> False | Done (h, t') \<Rightarrow> h = 1001 \<and> get t' 1001 = Some 161)"
proof -
  have c: "create (ht_new :: nat handle_tree) None ''1'' 161 = Done (1001, place ht_new 1001 None ''1'' 161)"
    by (simp add: create_def ht_new_def create_new_handle_def wrap_i64_def place_def)
  show ?thesis
    using create_allocates [OF reach_new, of None "''1''" "161 :: nat"] c
    by (simp add: ht_new_def i64_max_def)
qed

section \<open>Handles survive a reset\<close>

lemma create_next:
  assumes "ht_inv t" "next_handle_value t < i64_max" "create t p k v = Done (h, t')"
  shows "next_handle_value t \<le> next_handle_value t'" "next_handle_value t' \<le> next_handle_value t + 1"
proof -
  note out = create_outcome(1,4) [OF assms]
  have "h \<le> next_handle_value t + 1"
    using out(2) ht_inv_prevD(2) [OF assms(1), of p k h]
    by (cases "reusable t (p, k)") (auto dest!: reusable_SomeD)
  then show "next_handle_value t \<le> next_handle_value t'" "next_handle_value t' \<le> next_handle_value t + 1"
    using out(1) by simp_all
qed

text \<open>One creation keeps the numbers the previous generation reserved for other keys free.\<close>

lemma create_keeps_reusable:
  assumes "ht_inv t" "next_handle_value t < i64_max" "create t p k v = Done (h, t')"
    and "(p', k') \<noteq> (p, k)" "reusable t (p', k') = Some h'"
  shows "reusable t' (p', k') = Some h'"
proof -
  note out = create_outcome [OF assms(1-3)]
  have prev: "prev_handle_tree t (p', k') = Some h'" and free: "obj_by_handle t h' = None"
    using reusable_SomeD [OF assms(5)] by auto
  have "h \<noteq> h'"
  proof (cases "reusable t (p, k)")
    case None
    with out(4) show ?thesis using ht_inv_prevD(2) [OF assms(1) prev] by simp
  next
    case (Some g)
    with out(4) show ?thesis
      using ht_inv_prevD(4) [OF assms(1) prev, of "(p, k)"] reusable_SomeD [OF Some] assms(4) by auto
  qed
  then show ?thesis using out(1) prev free by (simp add: reusable_def)
qed

abbreviation op_keys :: "(handle option \<times> string \<times> 'v) list \<Rightarrow> tree_key list" where
  "op_keys ops \<equiv> map (\<lambda>(p, k, v). (p, k)) ops"

text \<open>
  The first generation: creating objects under distinct keys records each number under its
  key, and the live numbers are exactly those handed out.
\<close>

lemma create_all_records:
  assumes "ht_inv t" "next_handle_value t + int (length ops) < i64_max"
    and "create_all t ops = Done (hs, t')" "distinct (op_keys ops)"
  shows "ht_inv t' \<and> length hs = length ops \<and>
    cur_handle_tree t' = cur_handle_tree t ++ map_of (zip (op_keys ops) hs) \<and>
    next_handle_value t' \<le> next_handle_value t + int (length ops)"
  using assms
proof (induction ops arbitrary: t hs)
  case Nil
  then show ?case by simp
next
  case (Cons op ops)
  obtain p k v where op: "op = (p, k, v)" by (cases op)
  from Cons.prems(3) op obtain h t1 hs' where c: "create t p k v = Done (h, t1)"
    and ca: "create_all t1 ops = Done (hs', t')" and hs: "hs = h # hs'"
    by auto
  have room: "next_handle_value t < i64_max" using Cons.prems(2) by simp
  note out = create_outcome [OF Cons.prems(1) room c] and nxt = create_next [OF Cons.prems(1) room c]
  have IH: "ht_inv t' \<and> length hs' = length ops \<and>
      cur_handle_tree t' = cur_handle_tree t1 ++ map_of (zip (op_keys ops) hs') \<and>
      next_handle_value t' \<le> next_handle_value t1 + int (length ops)"
    using Cons.IH [OF create_inv [OF Cons.prems(1) room c] _ ca] Cons.prems(2,4) nxt by (simp add: op)
  have "(p, k) \<notin> dom (map_of (zip (op_keys ops) hs'))"
    using Cons.prems(4) op by (auto dest!: map_of_SomeD set_zip_leftD)
  then have "cur_handle_tree t' = cur_handle_tree t ++ map_of (zip (op_keys (op # ops)) hs)"
    using IH out(1) op hs by (simp add: map_add_upd_left)
  moreover have "length hs = length (op # ops)"
    "next_handle_value t' \<le> next_handle_value t + int (length (op # ops))"
    using IH nxt hs by simp_all
  ultimately show ?case using IH by blast
qed

fun parents_ok :: "handle set \<Rightarrow> tree_key list \<Rightarrow> handle list \<Rightarrow> bool" where
  "parents_ok S (x # xs) (h # hs) \<longleftrightarrow> (\<forall>q. fst x = Some q \<longrightarrow> q \<in> S) \<and> parents_ok (insert h S) xs hs"
| "parents_ok S _ _ \<longleftrightarrow> True"

lemma create_all_parents_ok:
  assumes "ht_inv t" "next_handle_value t + int (length ops) < i64_max"
    and "create_all t ops = Done (hs, t')"
  shows "parents_ok (dom (obj_by_handle t)) (op_keys ops) hs"
  using assms
proof (induction ops arbitrary: t hs)
  case Nil
  then show ?case by simp
next
  case (Cons op ops)
  obtain p k v where op: "op = (p, k, v)" by (cases op)
  from Cons.prems(3) op obtain h t1 hs' where c: "create t p k v = Done (h, t1)"
    and ca: "create_all t1 ops = Done (hs', t')" and hs: "hs = h # hs'"
    by auto
  have room: "next_handle_value t < i64_max" using Cons.prems(2) by simp
  note out = create_outcome [OF Cons.prems(1) room c] and nxt = create_next [OF Cons.prems(1) room c]
  have "parents_ok (dom (obj_by_handle t1)) (op_keys ops) hs'"
    using Cons.IH [OF create_inv [OF Cons.prems(1) room c] _ ca] Cons.prems(2) nxt by simp
  moreover have "dom (obj_by_handle t1) = insert h (dom (obj_by_handle t))"
    using out(1) by simp
  ultimately show ?case using out(3) op hs by (simp add: domIff)
qed

text \<open>The second generation: keys whose numbers are reserved and free get them back.\<close>

lemma create_all_replay:
  assumes "ht_inv t" "next_handle_value t < i64_max" "distinct (op_keys ops)"
    and "list_all2 (\<lambda>x h. reusable t x = Some h) (op_keys ops) hs"
    and "parents_ok (dom (obj_by_handle t)) (op_keys ops) hs"
  shows "\<exists>t'. create_all t ops = Done (hs, t')"
  using assms
proof (induction ops arbitrary: t hs)
  case Nil
  then show ?case by simp
next
  case (Cons op ops)
  obtain p k v where op: "op = (p, k, v)" by (cases op)
  from Cons.prems(4) op obtain h hs' where hs: "hs = h # hs'" and re: "reusable t (p, k) = Some h"
    and rest: "list_all2 (\<lambda>x h. reusable t x = Some h) (op_keys ops) hs'"
    by (auto simp: list_all2_Cons1)
  have live: "parent_live t p" using Cons.prems(5) op hs by auto
  let ?t1 = "place t h p k v"
  have c: "create t p k v = Done (h, ?t1)"
    using create_eq [OF Cons.prems(1,2) live] re by (simp add: Let_def)
  have inv: "ht_inv ?t1" by (rule create_inv [OF Cons.prems(1,2) c])
  have "list_all2 (\<lambda>x h. reusable ?t1 x = Some h) (op_keys ops) hs'"
    using rest
  proof (rule list.rel_mono_strong)
    fix x g
    assume x: "x \<in> set (op_keys ops)" and "reusable t x = Some g"
    have "(p, k) \<notin> set (op_keys ops)" using Cons.prems(3) op by simp
    then have "x \<noteq> (p, k)" using x by metis
    moreover note \<open>reusable t x = Some g\<close>
    ultimately show "reusable ?t1 x = Some g"
      using create_keeps_reusable [OF Cons.prems(1,2) c, of "fst x" "snd x" g] by simp
  qed
  moreover have "next_handle_value ?t1 < i64_max"
    using Cons.prems(1,2) reusable_SomeD [OF re] ht_inv_prevD(2) [OF Cons.prems(1)] by force
  moreover have "parents_ok (dom (obj_by_handle ?t1)) (op_keys ops) hs'"
    using Cons.prems(5) op hs by simp
  ultimately obtain t' where "create_all ?t1 ops = Done (hs', t')"
    using Cons.IH [OF inv, of hs'] Cons.prems(3) by (metis distinct.simps(2) list.simps(9))
  with c hs op show ?case by simp
qed

text \<open>
  Property C2.  Handles are stable across stops: when a generation of objects with distinct
  paths has been created after a reset, resetting and creating objects with the same paths (and
  any contents) again succeeds and gives every object the number it had.
\<close>

theorem handles_stable_across_reset:
  assumes "ht_reachable t0" "next_handle_value t0 + int (length ops) < i64_max"
    and "create_all (reset t0) ops = Done (hs, t1)"
    and "distinct (op_keys ops)" "op_keys ops' = op_keys ops"
  shows "\<exists>t2. create_all (reset t1) ops' = Done (hs, t2)"
proof -
  have inv0: "ht_inv (reset t0)" using ht_reachable_inv [OF assms(1)] by (rule ht_inv_reset)
  have room0: "next_handle_value (reset t0) + int (length ops) < i64_max" using assms(2) by simp
  have rec: "length hs = length ops" "cur_handle_tree t1 = hm_get (zip (op_keys ops) hs)"
    "ht_inv t1" "next_handle_value t1 < i64_max"
    using create_all_records [OF inv0 room0 assms(3,4)] assms(2) by auto
  have re: "list_all2 (\<lambda>x h. reusable (reset t1) x = Some h) (op_keys ops) hs"
  proof (rule list_all2_all_nthI)
    show len: "length (op_keys ops) = length hs" using rec(1) by simp
    fix i
    assume "i < length (op_keys ops)"
    then have "hm_get (zip (op_keys ops) hs) (op_keys ops ! i) = Some (hs ! i)"
      using len assms(4) by (intro map_of_zip_nth) auto
    then show "reusable (reset t1) (op_keys ops ! i) = Some (hs ! i)"
      using rec(2) by (simp add: reusable_def del: nth_map)
  qed
  have par: "parents_ok {} (op_keys ops) hs"
    using create_all_parents_ok [OF inv0 room0 assms(3)] by simp
  show ?thesis
    by (rule create_all_replay) (use rec assms re par in \<open>auto intro: ht_inv_reset\<close>)
qed

theorem handles_stable_across_reset_witness:
  "\<exists>t1 t2. create_all (reset (ht_new :: nat handle_tree))
      [(None, ''1'', 161), (None, ''2'', 162), (Some 1001, ''1.1'', 2577)] = Done ([1001, 1002, 1003], t1) \<and>
    create_all (reset t1)
      [(None, ''1'', 177), (None, ''2'', 178), (Some 1001, ''1.1'', 2833)] = Done ([1001, 1002, 1003], t2)"
proof -
  let ?ops = "[(None, ''1'', 161), (None, ''2'', 162), (Some 1001, ''1.1'', 2577)] :: (handle option \<times> string \<times> nat) list"
  obtain t1 where t1: "create_all (reset (ht_new :: nat handle_tree)) ?ops = Done ([1001, 1002, 1003], t1)"
    by (simp add: create_def ht_new_def reset_def create_new_handle_def wrap_i64_def Let_def)
  have "\<exists>t2. create_all (reset t1)
      [(None, ''1'', 177), (None, ''2'', 178), (Some 1001, ''1.1'', 2833)] = Done ([1001, 1002, 1003], t2)"
    by (rule handles_stable_across_reset [OF reach_new _ t1])
      (simp_all add: ht_new_def i64_max_def)
  with t1 show ?thesis by blast
qed

end
