(* ===== verification/Rust_Str.thy ===== *)
theory Rust_Str
  imports Rust_Prelude
begin

text \<open>
  The part of Rust's \<^verbatim>\<open>str\<close> and integer formatting that the adapter uses: UTF-8 validation,
  slicing at character boundaries, ASCII case folding, trimming, prefixes and suffixes,
  searching, and the decimal and hexadecimal text of unsigned integers.  The characters of a
  \<^typ>\<open>string\<close> are bytes.
\<close>

section \<open>Bytes\<close>

abbreviation byte :: "char \<Rightarrow> nat" where
  "byte c \<equiv> of_char c"

abbreviation CR :: char where "CR \<equiv> CHR 0x0D"
abbreviation LF :: char where "LF \<equiv> CHR 0x0A"

definition is_ascii :: "string \<Rightarrow> bool" where
  "is_ascii s \<longleftrightarrow> list_all (\<lambda>c. byte c < 128) s"

definition is_cont :: "char \<Rightarrow> bool" where
  "is_cont c \<longleftrightarrow> 128 \<le> byte c \<and> byte c < 192"

lemma byte_lt [simp]: "byte c < 256"
  using nat_of_char_less_256 [of c] by simp

lemma char_eq_byte: "c = d \<longleftrightarrow> byte c = byte d"
  by (auto simp: of_char_eq_iff)

section \<open>UTF-8\<close>

text \<open>\<^verbatim>\<open>str::from_utf8\<close> accepts exactly the well-formed sequences of the Unicode standard.\<close>

definition byte_in :: "nat \<Rightarrow> nat \<Rightarrow> char \<Rightarrow> bool" where
  "byte_in lo hi c \<longleftrightarrow> lo \<le> byte c \<and> byte c \<le> hi"

fun utf8_valid :: "string \<Rightarrow> bool" where
  "utf8_valid [] = True"
| "utf8_valid (a # s) =
    (if byte a < 128 then utf8_valid s
     else case s of
       [] \<Rightarrow> False
     | b # s2 \<Rightarrow>
       if byte_in 0xC2 0xDF a then is_cont b \<and> utf8_valid s2
       else (case s2 of
         [] \<Rightarrow> False
       | c # s3 \<Rightarrow>
         if byte_in 0xE0 0xEF a then
           (if byte a = 0xE0 then byte_in 0xA0 0xBF b
            else if byte a = 0xED then byte_in 0x80 0x9F b else is_cont b) \<and>
           is_cont c \<and> utf8_valid s3
         else (case s3 of
           [] \<Rightarrow> False
         | d # s4 \<Rightarrow>
           byte_in 0xF0 0xF4 a \<and>
           (if byte a = 0xF0 then byte_in 0x90 0xBF b
            else if byte a = 0xF4 then byte_in 0x80 0x8F b else is_cont b) \<and>
           is_cont c \<and> is_cont d \<and> utf8_valid s4)))"

lemma utf8_valid_ascii: "is_ascii s \<Longrightarrow> utf8_valid s"
  by (induction s) (auto simp: is_ascii_def)

text \<open>Slicing \<^verbatim>\<open>&s[..n]\<close> and \<^verbatim>\<open>&s[n..]\<close> panics unless \<open>n\<close> is a character boundary.\<close>

definition is_char_boundary :: "string \<Rightarrow> nat \<Rightarrow> bool" where
  "is_char_boundary s n \<longleftrightarrow>
     n = 0 \<or> n = length s \<or> (n < length s \<and> \<not> is_cont (s ! n))"

definition str_to :: "string \<Rightarrow> nat \<Rightarrow> string exec" where
  "str_to s n = (if is_char_boundary s n then Done (take n s) else Panic)"

definition str_from :: "string \<Rightarrow> nat \<Rightarrow> string exec" where
  "str_from s n = (if is_char_boundary s n then Done (drop n s) else Panic)"

lemma is_char_boundary_ascii: "is_ascii s \<Longrightarrow> n \<le> length s \<Longrightarrow> is_char_boundary s n"
  unfolding is_char_boundary_def is_ascii_def is_cont_def list_all_length
  by (metis le_neq_implies_less not_le)

section \<open>ASCII case\<close>

definition to_lower :: "char \<Rightarrow> char" where
  "to_lower c = (if 65 \<le> byte c \<and> byte c \<le> 90 then char_of (byte c + 32) else c)"

definition to_upper :: "char \<Rightarrow> char" where
  "to_upper c = (if 97 \<le> byte c \<and> byte c \<le> 122 then char_of (byte c - 32) else c)"

definition eq_ignore_ascii_case :: "string \<Rightarrow> string \<Rightarrow> bool" where
  "eq_ignore_ascii_case s t \<longleftrightarrow> map to_lower s = map to_lower t"

definition make_ascii_uppercase :: "string \<Rightarrow> string" where
  "make_ascii_uppercase s = map to_upper s"

lemma eq_ignore_ascii_case_refl [simp]: "eq_ignore_ascii_case s s"
  by (simp add: eq_ignore_ascii_case_def)

section \<open>Prefixes, suffixes and searching\<close>

definition starts_with :: "string \<Rightarrow> string \<Rightarrow> bool" where
  "starts_with s p \<longleftrightarrow> take (length p) s = p"

definition ends_with :: "string \<Rightarrow> string \<Rightarrow> bool" where
  "ends_with s p \<longleftrightarrow> starts_with (rev s) (rev p)"

text \<open>The first position at which \<open>p\<close> occurs.\<close>

fun find_sub :: "string \<Rightarrow> string \<Rightarrow> nat option" where
  "find_sub p [] = (if p = [] then Some 0 else None)"
| "find_sub p (c # s) =
     (if starts_with (c # s) p then Some 0 else map_option Suc (find_sub p s))"

lemma starts_with_iff: "starts_with s p \<longleftrightarrow> (\<exists>r. s = p @ r)"
  by (metis append_eq_conv_conj append_take_drop_id starts_with_def)

lemma starts_with_append [simp]: "starts_with (p @ r) p"
  by (simp add: starts_with_def)

lemma find_sub_Some:
  "find_sub p s = Some n \<Longrightarrow> n + length p \<le> length s \<and> take (length p) (drop n s) = p"
proof (induction p s arbitrary: n rule: find_sub.induct)
  case (1 p)
  then show ?case by (simp split: if_splits)
next
  case (2 p c s)
  show ?case
  proof (cases "starts_with (c # s) p")
    case True
    with 2 obtain r where "n = 0" "c # s = p @ r" by (auto simp: starts_with_iff)
    then show ?thesis by simp
  next
    case False
    with 2 show ?thesis by auto
  qed
qed

lemma find_sub_append:
  "find_sub p s = Some n \<Longrightarrow> find_sub p (s @ t) = Some n"
proof (induction p s arbitrary: n rule: find_sub.induct)
  case (1 p)
  then show ?case by (cases t) (auto simp: starts_with_def split: if_splits)
next
  case (2 p c s)
  show ?case
  proof (cases "starts_with (c # s) p")
    case True
    then have "starts_with (c # s @ t) p" by (metis append_Cons append_assoc starts_with_iff)
    then show ?thesis using 2 True by simp
  next
    case False
    with 2 obtain m where m: "find_sub p s = Some m" "n = Suc m" by auto
    then have "n + length p \<le> length (c # s)" using find_sub_Some [OF m(1)] by simp
    then have "take (length p) (c # s @ t) = take (length p) (c # s)"
      by (metis append_Cons le_add2 order_trans take_all take_append diff_is_0_eq' append_Nil2 take0)
    then have "\<not> starts_with (c # s @ t) p" using False by (simp add: starts_with_def)
    then show ?thesis using 2 False m by simp
  qed
qed

section \<open>Decimal and hexadecimal text of unsigned integers\<close>

definition digit_char :: "nat \<Rightarrow> char" where
  "digit_char d = char_of (if d < 10 then 48 + d else 87 + d)"

fun show_base :: "nat \<Rightarrow> nat \<Rightarrow> string \<Rightarrow> string" where
  "show_base b n acc =
     (if b < 2 \<or> n < b then digit_char n # acc
      else show_base b (n div b) (digit_char (n mod b) # acc))"

declare show_base.simps [simp del]

text \<open>\<^verbatim>\<open>{}\<close> and \<^verbatim>\<open>{:x}\<close> of an unsigned integer.\<close>

definition show_nat :: "nat \<Rightarrow> string" where
  "show_nat n = show_base 10 n []"

definition show_hex :: "nat \<Rightarrow> string" where
  "show_hex n = show_base 16 n []"

definition show_int :: "int \<Rightarrow> string" where
  "show_int i = (if i < 0 then CHR ''-'' # show_nat (nat (- i)) else show_nat (nat i))"

definition dec_digit :: "char \<Rightarrow> nat option" where
  "dec_digit c = (if 48 \<le> byte c \<and> byte c \<le> 57 then Some (byte c - 48) else None)"

text \<open>The digit loop of \<^verbatim>\<open>from_str_radix\<close>: every step is checked against the bound.\<close>

fun parse_digits :: "nat \<Rightarrow> nat \<Rightarrow> string \<Rightarrow> nat option" where
  "parse_digits bound acc [] = Some acc"
| "parse_digits bound acc (c # s) =
    (case dec_digit c of
       None \<Rightarrow> None
     | Some d \<Rightarrow> if acc * 10 + d < bound then parse_digits bound (acc * 10 + d) s else None)"

text \<open>\<^verbatim>\<open>str::parse\<close> at an unsigned type with the given bound: an optional plus sign, then at
  least one digit, and an error on overflow.\<close>

definition parse_unsigned :: "nat \<Rightarrow> string \<Rightarrow> nat option" where
  "parse_unsigned bound s =
     (case s of
        [] \<Rightarrow> None
      | c # r \<Rightarrow>
          if c = CHR ''+'' then (if r = [] then None else parse_digits bound 0 r)
          else parse_digits bound 0 s)"

definition parse_usize :: "string \<Rightarrow> nat option" where
  "parse_usize = parse_unsigned (2 ^ 64)"

definition parse_u32 :: "string \<Rightarrow> nat option" where
  "parse_u32 = parse_unsigned (2 ^ 32)"

text \<open>\<^verbatim>\<open>{:X}\<close>, zero padding as in \<^verbatim>\<open>{:08X}\<close>, and left alignment as in \<^verbatim>\<open>{:<6}\<close>, which counts characters; none of
  them shortens its argument.\<close>

definition show_HEX :: "nat \<Rightarrow> string" where
  "show_HEX n = map (\<lambda>c. if byte c < 58 then c else char_of (byte c - 32)) (show_hex n)"

definition pad_zeros :: "nat \<Rightarrow> string \<Rightarrow> string" where
  "pad_zeros w s = replicate (w - length s) (CHR ''0'') @ s"

definition pad_right :: "nat \<Rightarrow> string \<Rightarrow> string" where
  "pad_right w s = s @ replicate (w - length (filter (\<lambda>c. \<not> is_cont c) s)) (CHR '' '')"

lemma byte_digit_char: "d < 16 \<Longrightarrow> byte (digit_char d) = (if d < 10 then 48 + d else 87 + d)"
  by (simp add: digit_char_def)

lemma dec_digit_digit_char [simp]: "d < 10 \<Longrightarrow> dec_digit (digit_char d) = Some d"
  by (simp add: dec_digit_def byte_digit_char)

lemma parse_digits_append:
  "parse_digits bound acc (s @ t) =
     (case parse_digits bound acc s of None \<Rightarrow> None | Some a \<Rightarrow> parse_digits bound a t)"
  by (induction s arbitrary: acc) (simp_all split: option.split)

lemma show_base_acc: "show_base b n acc = show_base b n [] @ acc"
proof (induction n arbitrary: acc rule: less_induct)
  case (less n)
  show ?case
  proof (cases "b < 2 \<or> n < b")
    case True
    then show ?thesis by (simp add: show_base.simps)
  next
    case False
    then have "n div b < n" by simp
    then have "show_base b (n div b) (x # ys) = show_base b (n div b) [] @ x # ys" for x ys
      by (rule less)
    then show ?thesis using False show_base.simps [of b n acc] show_base.simps [of b n "[]"] by simp
  qed
qed

lemma show_nat_step:
  "show_nat n = (if n < 10 then [digit_char n] else show_nat (n div 10) @ [digit_char (n mod 10)])"
  using show_base.simps [of 10 n "[]"] show_base_acc [of 10 "n div 10" "[digit_char (n mod 10)]"]
  by (simp add: show_nat_def)

lemma show_nat_digits: "list_all (\<lambda>c. dec_digit c \<noteq> None) (show_nat n)"
proof (induction n rule: less_induct)
  case (less n)
  show ?case
  proof (cases "n < 10")
    case True
    then show ?thesis by (subst show_nat_step) simp
  next
    case False
    then show ?thesis using less [of "n div 10"] by (subst show_nat_step) simp
  qed
qed

lemma show_nat_not_Nil [simp]: "show_nat n \<noteq> []"
  by (subst show_nat_step) simp

lemma parse_digits_show_nat:
  "parse_digits bound 0 (show_nat n) = (if n < bound then Some n else None)"
proof (induction n rule: less_induct)
  case (less n)
  show ?case
  proof (cases "n < 10")
    case True
    then show ?thesis by (subst show_nat_step) simp
  next
    case False
    then have "parse_digits bound 0 (show_nat (n div 10)) = (if n div 10 < bound then Some (n div 10) else None)"
      by (intro less.IH) auto
    moreover have "n < bound \<Longrightarrow> n div 10 < bound" by linarith
    ultimately show ?thesis using False by (subst show_nat_step) (auto simp: parse_digits_append)
  qed
qed

lemma parse_unsigned_show_nat: "parse_unsigned bound (show_nat n) = (if n < bound then Some n else None)"
proof -
  obtain c r where s: "show_nat n = c # r" by (cases "show_nat n") auto
  have "dec_digit c \<noteq> None" using show_nat_digits [of n] s by simp
  then have "c \<noteq> CHR ''+''" by (auto simp: dec_digit_def)
  then show ?thesis using parse_digits_show_nat [of bound n] s by (simp add: parse_unsigned_def)
qed

lemma parse_digits_less: "parse_digits bound acc s = Some n \<Longrightarrow> acc < bound \<Longrightarrow> n < bound"
  by (induction bound acc s rule: parse_digits.induct) (auto split: option.splits if_splits)

lemma parse_unsigned_less: "parse_unsigned bound s = Some n \<Longrightarrow> 0 < bound \<Longrightarrow> n < bound"
  unfolding parse_unsigned_def
  by (cases s) (auto simp del: parse_digits.simps dest: parse_digits_less split: if_splits)

lemma parse_usize_less: "parse_usize s = Some n \<Longrightarrow> n < 2 ^ 64"
  unfolding parse_usize_def by (erule parse_unsigned_less) simp

text \<open>The digits of a number determine it, in any base up to sixteen.\<close>

lemma digit_char_inj: "a < 16 \<Longrightarrow> b < 16 \<Longrightarrow> digit_char a = digit_char b \<Longrightarrow> a = b"
proof -
  assume ab: "a < 16" "b < 16" "digit_char a = digit_char b"
  have "(if a < 10 then 48 + a else 87 + a) = (if b < 10 then 48 + b else 87 + b)"
    using byte_digit_char [OF ab(1)] byte_digit_char [OF ab(2)] ab(3) by metis
  then show "a = b" using ab(1,2) by (simp split: if_splits)
qed

lemma show_base_step:
  "2 \<le> b \<Longrightarrow> show_base b n [] =
     (if n < b then [digit_char n] else show_base b (n div b) [] @ [digit_char (n mod b)])"
  using show_base.simps [of b n "[]"] show_base_acc [of b "n div b" "[digit_char (n mod b)]"] by simp

lemma show_base_not_Nil [simp]: "2 \<le> b \<Longrightarrow> show_base b n [] \<noteq> []"
  using show_base_step [of b n] by (cases "n < b") simp_all

lemma show_base_inj:
  assumes "2 \<le> b" "b \<le> 16"
  shows "show_base b m [] = show_base b n [] \<Longrightarrow> m = n"
proof (induction m arbitrary: n rule: less_induct)
  case (less m)
  note step = show_base_step [OF assms(1)]
  have dig: "x mod b < 16" "x < b \<Longrightarrow> x < 16" for x
    using assms mod_less_divisor [of b x] by linarith+
  show ?case
  proof (cases "m < b"; cases "n < b")
    assume "m < b" "n < b"
    then show ?thesis using less.prems step [of m] step [of n] dig digit_char_inj by simp
  next
    assume "m < b" "\<not> n < b"
    then show ?thesis
      using less.prems step [of m] step [of n] show_base_not_Nil [OF assms(1), of "n div b"] by auto
  next
    assume "\<not> m < b" "n < b"
    then show ?thesis
      using less.prems step [of m] step [of n] show_base_not_Nil [OF assms(1), of "m div b"] by auto
  next
    assume mn: "\<not> m < b" "\<not> n < b"
    then have eq: "show_base b (m div b) [] = show_base b (n div b) []" "digit_char (m mod b) = digit_char (n mod b)"
      using less.prems step [of m] step [of n] by simp_all
    have "m div b < m" using mn(1) assms(1) by simp
    from less.IH [OF this eq(1)] have "m div b = n div b" .
    moreover have "m mod b = n mod b" using eq(2) digit_char_inj dig by blast
    ultimately show ?thesis by (metis div_mult_mod_eq)
  qed
qed

section \<open>Trimming\<close>

text \<open>The UTF-8 encodings of the characters with the Unicode property \<^verbatim>\<open>White_Space\<close>.\<close>

definition white_spaces :: "string list" where
  "white_spaces =
     map (map char_of)
       ([[0x09], [0x0A], [0x0B], [0x0C], [0x0D], [0x20], [0xC2, 0x85], [0xC2, 0xA0], [0xE1, 0x9A, 0x80],
         [0xE2, 0x80, 0xA8], [0xE2, 0x80, 0xA9], [0xE2, 0x80, 0xAF], [0xE2, 0x81, 0x9F], [0xE3, 0x80, 0x80]]
        @ map (\<lambda>i. [0xE2, 0x80, 0x80 + i]) [0..<11 :: nat])"

text \<open>Removes as many leading elements of \<open>ws\<close> as there are.\<close>

function trim_by :: "string list \<Rightarrow> string \<Rightarrow> string" where
  "trim_by ws s =
     (case find (\<lambda>w. w \<noteq> [] \<and> starts_with s w) ws of
        None \<Rightarrow> s
      | Some w \<Rightarrow> trim_by ws (drop (length w) s))"
  by pat_completeness auto
termination
proof (relation "measure (length \<circ> snd)", goal_cases)
  case (2 ws s w)
  then have "w \<noteq> []" "starts_with s w" by (auto simp: find_Some_iff)
  then show ?case by (cases s) (auto simp: starts_with_def)
qed simp

declare trim_by.simps [simp del]

definition trim_start :: "string \<Rightarrow> string" where
  "trim_start s = trim_by white_spaces s"

definition trim_end :: "string \<Rightarrow> string" where
  "trim_end s = rev (trim_by (map rev white_spaces) (rev s))"

definition trim :: "string \<Rightarrow> string" where
  "trim s = trim_end (trim_start s)"

text \<open>A set of white space strings is read byte-wise at \<open>c\<close>: only \<open>[c]\<close> starts with it, or none does.\<close>

lemma trim_by_stop:
  assumes "\<forall>w \<in> set ws. w \<noteq> [] \<longrightarrow> hd w \<noteq> c"
  shows "trim_by ws (c # s) = c # s"
proof -
  have "find (\<lambda>w. w \<noteq> [] \<and> starts_with (c # s) w) ws = None"
    using assms by (auto simp: find_None_iff starts_with_iff Cons_eq_append_conv)
  then show ?thesis by (simp add: trim_by.simps [of ws "c # s"])
qed

lemma trim_by_step:
  assumes "\<forall>w \<in> set ws. w \<noteq> [] \<longrightarrow> hd w = c \<longrightarrow> w = [c]" and "[c] \<in> set ws"
  shows "trim_by ws (c # s) = trim_by ws s"
proof -
  obtain w where w: "find (\<lambda>w. w \<noteq> [] \<and> starts_with (c # s) w) ws = Some w"
    using assms(2) by (cases "find (\<lambda>w. w \<noteq> [] \<and> starts_with (c # s) w) ws")
      (auto simp: find_None_iff starts_with_def)
  then have "w \<in> set ws" "w \<noteq> []" and sw: "starts_with (c # s) w"
    by (auto simp: find_Some_iff)
  moreover from sw \<open>w \<noteq> []\<close> have "hd w = c" by (cases w) (simp_all add: starts_with_def)
  ultimately have "w = [c]" using assms(1) by blast
  with w show ?thesis by (simp add: trim_by.simps [of ws "c # s"])
qed

lemma hd_white_spaces:
  assumes "w \<in> set white_spaces"
  shows "w \<noteq> []" "byte (hd w) \<in> {9, 10, 11, 12, 13, 32, 0xC2, 0xE1, 0xE2, 0xE3}"
    "byte (hd w) < 128 \<Longrightarrow> w = [hd w]"
  using assms by (auto simp: white_spaces_def)

lemma last_white_spaces:
  assumes "w \<in> set white_spaces"
  shows "byte (last w) \<in> {9, 10, 11, 12, 13, 32} \<or> 128 \<le> byte (last w)"
    "byte (last w) < 128 \<Longrightarrow> w = [last w]"
  using assms by (auto simp: white_spaces_def)

lemma ascii_white_spaces:
  "byte c \<in> {9, 10, 11, 12, 13, 32} \<longleftrightarrow> byte c < 128 \<and> [c] \<in> set white_spaces"
  by (auto simp: white_spaces_def char_eq_byte)

definition ascii_ws :: "char \<Rightarrow> bool" where
  "ascii_ws c \<longleftrightarrow> byte c \<in> {9, 10, 11, 12, 13, 32}"

lemma trim_by_ws: "ascii_ws c \<Longrightarrow> trim_by white_spaces (c # s) = trim_by white_spaces s"
  by (rule trim_by_step) (use hd_white_spaces ascii_white_spaces in \<open>auto simp: ascii_ws_def\<close>)

lemma trim_by_not_ws:
  "byte c < 128 \<Longrightarrow> \<not> ascii_ws c \<Longrightarrow> trim_by white_spaces (c # s) = c # s"
  by (rule trim_by_stop) (use hd_white_spaces(2) in \<open>force simp: ascii_ws_def\<close>)

lemma trim_by_rev_ws:
  assumes "ascii_ws c"
  shows "trim_by (map rev white_spaces) (c # s) = trim_by (map rev white_spaces) s"
proof (rule trim_by_step)
  have c: "byte c < 128" "[c] \<in> set white_spaces"
    using assms ascii_white_spaces [of c] by (auto simp: ascii_ws_def)
  show "[c] \<in> set (map rev white_spaces)" using c(2) by force
  show "\<forall>w\<in>set (map rev white_spaces). w \<noteq> [] \<longrightarrow> hd w = c \<longrightarrow> w = [c]"
    using c(1) by (auto simp: hd_rev dest: last_white_spaces(2))
qed

lemma trim_by_rev_not_ws:
  "byte c < 128 \<Longrightarrow> \<not> ascii_ws c \<Longrightarrow> trim_by (map rev white_spaces) (c # s) = c # s"
  by (rule trim_by_stop) (use last_white_spaces(1) in \<open>force simp: ascii_ws_def hd_rev\<close>)

lemma trim_by_ws_list:
  "list_all ascii_ws u \<Longrightarrow> trim_by white_spaces (u @ s) = trim_by white_spaces s"
  by (induction u) (simp_all add: trim_by_ws)

lemma trim_by_rev_ws_list:
  "list_all ascii_ws u \<Longrightarrow> trim_by (map rev white_spaces) (u @ s) = trim_by (map rev white_spaces) s"
  by (induction u) (simp_all add: trim_by_rev_ws)

text \<open>White space around an ASCII word is removed, nothing else.\<close>

lemma trim_word:
  assumes "list_all ascii_ws u" "list_all ascii_ws v" "s \<noteq> []"
    and "byte (hd s) < 128" "\<not> ascii_ws (hd s)" "byte (last s) < 128" "\<not> ascii_ws (last s)"
  shows "trim (u @ s @ v) = s"
proof -
  have s: "s = hd s # tl s" "rev s = last s # rev (butlast s)"
    using assms(3) by (simp, metis append_butlast_last_id rev.simps(2) rev_rev_ident)
  have "trim_start (u @ s @ v) = s @ v"
    using assms(1,4,5) s(1) trim_by_not_ws by (metis append_Cons trim_by_ws_list trim_start_def)
  moreover have "trim_by (map rev white_spaces) (rev v @ rev s) = rev s"
    using assms(2,6,7) s(2) trim_by_rev_not_ws
    by (metis list_all_rev trim_by_rev_ws_list)
  ultimately show ?thesis by (simp add: trim_def trim_end_def)
qed

end
