(* ===== verification/Dap_Codec.thy ===== *)
theory Dap_Codec
  imports Rust_Str
begin

text \<open>
  The frame codec of the debug adapter protocol, \<^verbatim>\<open>dap_codec.rs\<close>.

  \<^verbatim>\<open>serde_json\<close> is a parameter, the record \<open>serde\<close>: how it writes a message, reads one, and
  reads a value of no particular shape.  \<open>log_debug\<close> says whether the \<^verbatim>\<open>debug!\<close> level is enabled:
  the macro evaluates its arguments, which unwrap a UTF-8 conversion, only then.
  A buffer is the string of its bytes; growing the buffer cannot fail.
\<close>

section \<open>Model\<close>

record ('m, 'e, 'v) serde =
  to_vec :: "'m \<Rightarrow> 'e + string"
  message_from_slice :: "string \<Rightarrow> 'e + 'm"
  value_from_slice :: "string \<Rightarrow> 'e + 'v"
  value_null :: 'v
  log_debug :: bool

datatype codec_state = ReadingHeaders | ReadingBody

record dap_codec =
  state :: codec_state
  content_len :: nat

definition codec_new :: dap_codec where
  "codec_new = \<lparr>state = ReadingHeaders, content_len = 0\<rparr>"

datatype ('e, 'v) decoder_error = SerdeError 'e 'v

type_synonym ('m, 'e, 'v) decoder_result = "('e, 'v) decoder_error + 'm"

datatype io_error = IoError string

text \<open>The nested function of \<^verbatim>\<open>decode\<close>.\<close>

definition has_prefix :: "string \<Rightarrow> string \<Rightarrow> string option exec" where
  "has_prefix line pfx =
     (if length pfx \<le> length line
      then exec_bind (str_to line (length pfx)) (\<lambda>start.
        if eq_ignore_ascii_case start pfx
        then exec_bind (str_from line (length pfx)) (\<lambda>rest. Done (Some rest))
        else Done None)
      else Done None)"

text \<open>What the loop body does with one header line, its \<^verbatim>\<open>CRLF\<close> included.\<close>

definition decode_header :: "dap_codec \<Rightarrow> string \<Rightarrow> (io_error + dap_codec) exec" where
  "decode_header c line =
     (if length line = 2 then Done (Inr (c\<lparr>state := ReadingBody\<rparr>))
      else if utf8_valid line then
        exec_bind (has_prefix line ''Content-Length:'') (\<lambda>r. case r of
          Some rest \<Rightarrow>
            (case parse_usize (trim rest) of
               Some n \<Rightarrow> Done (Inr (c\<lparr>content_len := n\<rparr>))
             | None \<Rightarrow> Done (Inr c))
        | None \<Rightarrow>
            exec_bind (has_prefix line ''Origin:'') (\<lambda>r. case r of
              Some _ \<Rightarrow> Done (Inl (IoError (''Unexpected header: '' @ line)))
            | None \<Rightarrow> Done (Inr c)))
      else Done (Inr c))"

text \<open>What the loop body does with a complete message.\<close>

definition decode_body :: "('m, 'e, 'v) serde \<Rightarrow> string \<Rightarrow> ('m, 'e, 'v) decoder_result exec" where
  "decode_body sd message_bytes =
     (if log_debug sd \<and> \<not> utf8_valid message_bytes then Panic
      else case message_from_slice sd message_bytes of
        Inr message \<Rightarrow> Done (Inr message)
      | Inl err \<Rightarrow>
          Done (Inl (SerdeError err
            (case value_from_slice sd message_bytes of Inr v \<Rightarrow> v | Inl _ \<Rightarrow> value_null sd))))"

text \<open>
  \<^verbatim>\<open>decode\<close>: the result, the codec and the rest of the buffer.
\<close>

function decode :: "('m, 'e, 'v) serde \<Rightarrow> dap_codec \<Rightarrow> string \<Rightarrow>
    ((io_error + ('m, 'e, 'v) decoder_result option) \<times> dap_codec \<times> string) exec" where
  "decode sd c buffer =
     (case state c of
        ReadingHeaders \<Rightarrow>
          (case find_sub [CR, LF] buffer of
             None \<Rightarrow> Done (Inr None, c, buffer)
           | Some pos \<Rightarrow>
               exec_bind (decode_header c (take (pos + 2) buffer)) (\<lambda>r. case r of
                 Inl err \<Rightarrow> Done (Inl err, c, drop (pos + 2) buffer)
               | Inr c' \<Rightarrow> decode sd c' (drop (pos + 2) buffer)))
      | ReadingBody \<Rightarrow>
          if length buffer < content_len c then Done (Inr None, c, buffer)
          else exec_bind (decode_body sd (take (content_len c) buffer)) (\<lambda>r.
            Done (Inr (Some r), c\<lparr>state := ReadingHeaders, content_len := 0\<rparr>,
                  drop (content_len c) buffer)))"
  by pat_completeness auto
termination
  by (relation "measure (\<lambda>(_, _, buffer). length buffer)") (auto dest: find_sub_Some)

declare decode.simps [simp del]

lemma decode_headers:
  "state c = ReadingHeaders \<Longrightarrow> decode sd c buffer =
     (case find_sub [CR, LF] buffer of
        None \<Rightarrow> Done (Inr None, c, buffer)
      | Some pos \<Rightarrow>
          exec_bind (decode_header c (take (pos + 2) buffer)) (\<lambda>r. case r of
            Inl err \<Rightarrow> Done (Inl err, c, drop (pos + 2) buffer)
          | Inr c' \<Rightarrow> decode sd c' (drop (pos + 2) buffer)))"
  by (subst decode.simps) (simp only: codec_state.case)

lemma decode_in_body:
  "state c = ReadingBody \<Longrightarrow> decode sd c buffer =
     (if length buffer < content_len c then Done (Inr None, c, buffer)
      else exec_bind (decode_body sd (take (content_len c) buffer)) (\<lambda>r.
        Done (Inr (Some r), c\<lparr>state := ReadingHeaders, content_len := 0\<rparr>,
              drop (content_len c) buffer)))"
  by (subst decode.simps) (simp only: codec_state.case)

definition encode :: "('m, 'e, 'v) serde \<Rightarrow> 'm \<Rightarrow> string \<Rightarrow> string exec" where
  "encode sd message buffer =
     (case to_vec sd message of
        Inl _ \<Rightarrow> Panic
      | Inr message_bytes \<Rightarrow>
          if log_debug sd \<and> \<not> utf8_valid message_bytes then Panic
          else Done (buffer @ ''Content-Length: '' @ show_nat (length message_bytes) @
                     [CR, LF, CR, LF] @ message_bytes))"

text \<open>
  The reader of the channel: it takes frames off the buffer until none is complete or the
  decoder fails, and appends what arrives next.
\<close>

definition codec_size :: "dap_codec \<Rightarrow> string \<Rightarrow> nat" where
  "codec_size c buffer = 2 * length buffer + (if state c = ReadingBody then 1 else 0)"

lemma decode_decreases:
  "decode sd c buffer = Done (Inr (Some r), c', buffer') \<Longrightarrow> codec_size c' buffer' < codec_size c buffer"
proof (induction sd c buffer rule: decode.induct)
  case (1 sd c buffer)
  show ?case
  proof (cases "state c")
    case ReadingHeaders
    with "1.prems" obtain pos c2 where pos: "find_sub [CR, LF] buffer = Some pos"
      and "decode_header c (take (pos + 2) buffer) = Done (Inr c2)"
      and d: "decode sd c2 (drop (pos + 2) buffer) = Done (Inr (Some r), c', buffer')"
      by (auto simp: decode_headers simp del: exec_bind_Done split: option.splits)
    then have "codec_size c' buffer' < codec_size c2 (drop (pos + 2) buffer)"
      using "1.IH" [OF ReadingHeaders pos] by blast
    moreover have "pos + 2 \<le> length buffer" using find_sub_Some [OF pos] by simp
    ultimately show ?thesis by (auto simp: codec_size_def split: if_splits)
  next
    case ReadingBody
    with "1.prems" show ?thesis
      by (auto simp: decode_in_body codec_size_def split: if_splits)
  qed
qed

function decode_all :: "('m, 'e, 'v) serde \<Rightarrow> dap_codec \<Rightarrow> string \<Rightarrow>
    (('m, 'e, 'v) decoder_result list \<times> io_error option \<times> dap_codec \<times> string) exec" where
  "decode_all sd c buffer =
     (case decode sd c buffer of
        Panic \<Rightarrow> Panic
      | Done (Inl err, c', buffer') \<Rightarrow> Done ([], Some err, c', buffer')
      | Done (Inr None, c', buffer') \<Rightarrow> Done ([], None, c', buffer')
      | Done (Inr (Some r), c', buffer') \<Rightarrow>
          (case decode_all sd c' buffer' of
             Panic \<Rightarrow> Panic
           | Done (rs, e, c2, buffer2) \<Rightarrow> Done (r # rs, e, c2, buffer2)))"
  by pat_completeness auto
termination
  by (relation "measure (\<lambda>(_, c, buffer). codec_size c buffer)") (auto dest: decode_decreases)

declare decode_all.simps [simp del]

fun decode_chunks :: "('m, 'e, 'v) serde \<Rightarrow> dap_codec \<Rightarrow> string \<Rightarrow> string list \<Rightarrow>
    (('m, 'e, 'v) decoder_result list \<times> io_error option) exec" where
  "decode_chunks sd c buffer [] = Done ([], None)"
| "decode_chunks sd c buffer (chunk # chunks) =
     (case decode_all sd c (buffer @ chunk) of
        Panic \<Rightarrow> Panic
      | Done (rs, Some err, _, _) \<Rightarrow> Done (rs, Some err)
      | Done (rs, None, c', buffer') \<Rightarrow>
          (case decode_chunks sd c' buffer' chunks of
             Panic \<Rightarrow> Panic
           | Done (rs2, e) \<Rightarrow> Done (rs @ rs2, e)))"

fun encode_all :: "('m, 'e, 'v) serde \<Rightarrow> 'm list \<Rightarrow> string \<Rightarrow> string exec" where
  "encode_all sd [] buffer = Done buffer"
| "encode_all sd (m # ms) buffer = exec_bind (encode sd m buffer) (encode_all sd ms)"

section \<open>Frames do not depend on how the bytes arrive\<close>

lemma decode_append:
  "decode sd c buffer = Done (r, c', buffer') \<Longrightarrow>
     decode sd c (buffer @ t) =
       (if r = Inr None then decode sd c' (buffer' @ t) else Done (r, c', buffer' @ t))"
proof (induction sd c buffer rule: decode.induct)
  case (1 sd c buffer)
  show ?case
  proof (cases "state c")
    case ReadingHeaders
    show ?thesis
    proof (cases "find_sub [CR, LF] buffer")
      case None
      then have "(r, c', buffer') = (Inr None, c, buffer)"
        using "1.prems" ReadingHeaders by (simp add: decode_headers)
      then show ?thesis by simp
    next
      case (Some pos)
      have le: "pos + 2 \<le> length buffer" using find_sub_Some [OF Some] by simp
      have step: "decode sd c (buffer @ u) = exec_bind (decode_header c (take (pos + 2) buffer))
          (\<lambda>r. case r of Inl err \<Rightarrow> Done (Inl err, c, drop (pos + 2) buffer @ u)
            | Inr c' \<Rightarrow> decode sd c' (drop (pos + 2) buffer @ u))" for u
        using ReadingHeaders Some le find_sub_append [OF Some, of u]
        by (simp add: decode_headers cong: sum.case_cong)
      have dec: "exec_bind (decode_header c (take (pos + 2) buffer))
          (\<lambda>r. case r of Inl err \<Rightarrow> Done (Inl err, c, drop (pos + 2) buffer)
            | Inr c' \<Rightarrow> decode sd c' (drop (pos + 2) buffer)) = Done (r, c', buffer')"
        using "1.prems" step [of "[]"] by (simp only: append_Nil2)
      then consider (err) e where "decode_header c (take (pos + 2) buffer) = Done (Inl e)"
          "(r, c', buffer') = (Inl e, c, drop (pos + 2) buffer)"
        | (ok) c2 where "decode_header c (take (pos + 2) buffer) = Done (Inr c2)"
          "decode sd c2 (drop (pos + 2) buffer) = Done (r, c', buffer')"
        by (auto simp del: exec_bind_Done)
      then show ?thesis
      proof cases
        case err
        then show ?thesis using step [of t] by simp
      next
        case ok
        then show ?thesis
          using step [of t] "1.IH" [OF ReadingHeaders Some ok(2)] by simp
      qed
    qed
  next
    case ReadingBody
    with "1.prems" show ?thesis
      by (auto simp: decode_in_body split: if_splits)
  qed
qed

lemma decode_append_Panic: "decode sd c buffer = Panic \<Longrightarrow> decode sd c (buffer @ t) = Panic"
proof (induction sd c buffer rule: decode.induct)
  case (1 sd c buffer)
  show ?case
  proof (cases "state c")
    case ReadingHeaders
    with "1.prems" obtain pos where Some: "find_sub [CR, LF] buffer = Some pos"
      by (auto simp: decode_headers split: option.splits)
    then show ?thesis
      using "1.prems" ReadingHeaders find_sub_append [OF Some, of t] find_sub_Some [OF Some]
        "1.IH" [OF ReadingHeaders Some]
      by (auto simp: decode_headers split: sum.splits)
  next
    case ReadingBody
    with "1.prems" show ?thesis
      by (auto simp: decode_in_body split: if_splits)
  qed
qed

definition stuck :: "('m, 'e, 'v) serde \<Rightarrow> dap_codec \<Rightarrow> string \<Rightarrow> bool" where
  "stuck sd c buffer \<longleftrightarrow> decode sd c buffer = Done (Inr None, c, buffer)"

lemma decode_None_stuck:
  "decode sd c buffer = Done (Inr None, c', buffer') \<Longrightarrow> stuck sd c' buffer'"
  using decode_append [of sd c buffer "Inr None" c' buffer' "[]"] by (simp add: stuck_def)

lemma decode_all_stuck:
  "decode_all sd c buffer = Done (rs, None, c', buffer') \<Longrightarrow> stuck sd c' buffer'"
  by (induction sd c buffer arbitrary: rs rule: decode_all.induct)
    (subst (asm) (2) decode_all.simps,
     auto dest: decode_None_stuck split: exec.splits sum.splits option.splits)

lemma decode_all_append:
  "decode_all sd c buffer = Done (rs, None, c', buffer') \<Longrightarrow>
     decode_all sd c (buffer @ t) =
       (case decode_all sd c' (buffer' @ t) of
          Panic \<Rightarrow> Panic
        | Done (rs2, e, c2, buffer2) \<Rightarrow> Done (rs @ rs2, e, c2, buffer2))"
proof (induction sd c buffer arbitrary: rs rule: decode_all.induct)
  case (1 sd c buffer)
  obtain r c1 buffer1 where d: "decode sd c buffer = Done (r, c1, buffer1)"
    using "1.prems" by (cases "decode sd c buffer") (auto simp: decode_all.simps)
  show ?case
  proof (cases "r = Inr None")
    case True
    with d "1.prems" have "rs = []" "c1 = c'" "buffer1 = buffer'" by (auto simp: decode_all.simps)
    then show ?thesis
      using decode_append [OF d, of t] True
      by (simp add: decode_all.simps [of sd c "buffer @ t"] decode_all.simps [of sd c' "buffer' @ t"]
          split: exec.split prod.split sum.split option.split)
  next
    case False
    with d "1.prems" obtain x rs1 where r: "r = Inr (Some x)" and rs: "rs = x # rs1"
      and rest: "decode_all sd c1 buffer1 = Done (rs1, None, c', buffer')"
      by (cases r) (auto simp: decode_all.simps [of sd c] split: option.splits exec.splits)
    have "decode_all sd c1 (buffer1 @ t) = (case decode_all sd c' (buffer' @ t) of
          Panic \<Rightarrow> Panic
        | Done (rs2, e, c2, buffer2) \<Rightarrow> Done (rs1 @ rs2, e, c2, buffer2))"
      using "1.IH" [of "(r, c1, buffer1)" r "(c1, buffer1)" "Some x" x c1 buffer1 rs1] d r rest by simp
    then show ?thesis
      using decode_append [OF d, of t] r rs False
      by (simp add: decode_all.simps [of sd c "buffer @ t"] split: exec.split prod.split)
  qed
qed

text \<open>The outcome of reading everything at once: the frames and the error that ended it, if any.\<close>

fun frames_of :: "('r list \<times> io_error option \<times> dap_codec \<times> string) exec \<Rightarrow> ('r list \<times> io_error option) exec" where
  "frames_of Panic = Panic"
| "frames_of (Done (rs, e, _, _)) = Done (rs, e)"

lemma decode_all_fails_append:
  "decode_all sd c buffer = Panic \<or> (\<exists>rs err c' buffer'. decode_all sd c buffer = Done (rs, Some err, c', buffer')) \<Longrightarrow>
     frames_of (decode_all sd c (buffer @ t)) = frames_of (decode_all sd c buffer)"
proof (induction sd c buffer rule: decode_all.induct)
  case (1 sd c buffer)
  show ?case
  proof (cases "decode sd c buffer")
    case Panic
    then show ?thesis by (simp add: decode_all.simps decode_append_Panic)
  next
    case (Done y)
    obtain r c1 buffer1 where y: "y = (r, c1, buffer1)" by (cases y)
    then have d: "decode sd c buffer = Done (r, c1, buffer1)" using Done by simp
    have "r \<noteq> Inr None" using d "1.prems" by (auto simp: decode_all.simps [of sd c buffer])
    then consider (err) e where "r = Inl e" | (frame) x where "r = Inr (Some x)"
      by (cases r) auto
    then show ?thesis
    proof cases
      case err
      then show ?thesis using d decode_append [OF d, of t] by (simp add: decode_all.simps)
    next
      case frame
      have "decode_all sd c1 buffer1 = Panic \<or>
          (\<exists>rs err c' buffer'. decode_all sd c1 buffer1 = Done (rs, Some err, c', buffer'))"
        using "1.prems" d frame by (auto simp: decode_all.simps [of sd c buffer] split: exec.splits)
      then have "frames_of (decode_all sd c1 (buffer1 @ t)) = frames_of (decode_all sd c1 buffer1)"
        using "1.IH" [of "(r, c1, buffer1)" r "(c1, buffer1)" "Some x" x c1 buffer1] d frame by simp
      then show ?thesis
        using d frame decode_append [OF d, of t]
        by (auto simp: decode_all.simps [of sd c] split: exec.splits)
    qed
  qed
qed

lemma decode_chunks_eq:
  "stuck sd c buffer \<Longrightarrow>
     decode_chunks sd c buffer chunks = frames_of (decode_all sd c (buffer @ concat chunks))"
proof (induction chunks arbitrary: c buffer)
  case Nil
  then show ?case by (simp add: stuck_def decode_all.simps)
next
  case (Cons chunk chunks)
  show ?case
  proof (cases "decode_all sd c (buffer @ chunk)")
    case Panic
    then show ?thesis using decode_all_fails_append [of sd c "buffer @ chunk" "concat chunks"] by simp
  next
    case (Done y)
    obtain rs e c' buffer' where y: "y = (rs, e, c', buffer')" by (cases y)
    show ?thesis
    proof (cases e)
      case (Some err)
      then show ?thesis
        using Done y decode_all_fails_append [of sd c "buffer @ chunk" "concat chunks"] by simp
    next
      case None
      then have d: "decode_all sd c (buffer @ chunk) = Done (rs, None, c', buffer')"
        using Done y by simp
      then show ?thesis
        using Cons.IH [OF decode_all_stuck [OF d]] decode_all_append [OF d, of "concat chunks"]
        by (simp split: exec.split prod.split)
    qed
  qed
qed

text \<open>
  Property C3.  The frames the decoder delivers, and whether and with what error it stops, are a
  function of the bytes received: they do not depend on the pieces in which the bytes arrive.
\<close>

theorem decode_chunking:
  "decode_chunks sd codec_new [] chunks = frames_of (decode_all sd codec_new (concat chunks))"
  using decode_chunks_eq [of sd codec_new "[]" chunks]
  by (simp add: stuck_def decode_headers codec_new_def)

section \<open>Round trip\<close>

lemma find_sub_crlf: "CR \<notin> set l \<Longrightarrow> find_sub [CR, LF] (l @ CR # LF # t) = Some (length l)"
  by (induction l) (auto simp: starts_with_def)

lemma has_prefix_ascii:
  assumes "is_ascii line"
  shows "has_prefix line pfx = Done (if length pfx \<le> length line \<and>
      eq_ignore_ascii_case (take (length pfx) line) pfx then Some (drop (length pfx) line) else None)"
  using is_char_boundary_ascii [OF assms]
  by (simp add: has_prefix_def str_to_def str_from_def)

lemma is_ascii_simps [simp]:
  "is_ascii []" "is_ascii (c # s) \<longleftrightarrow> byte c < 128 \<and> is_ascii s"
  "is_ascii (s @ t) \<longleftrightarrow> is_ascii s \<and> is_ascii t"
  by (simp_all add: is_ascii_def)

lemma dec_digit_ascii: "dec_digit c \<noteq> None \<Longrightarrow> byte c < 128 \<and> \<not> ascii_ws c \<and> c \<noteq> CR"
  by (auto simp: dec_digit_def ascii_ws_def split: if_splits)

lemma show_nat_ascii: "is_ascii (show_nat n)" "CR \<notin> set (show_nat n)"
  using show_nat_digits [of n] dec_digit_ascii
  by (auto simp: is_ascii_def list_all_iff)

lemma trim_length_text: "trim (CHR '' '' # show_nat n @ [CR, LF]) = show_nat n"
proof -
  have "dec_digit (hd (show_nat n)) \<noteq> None" "dec_digit (last (show_nat n)) \<noteq> None"
    using show_nat_digits [of n] by (simp_all add: list_all_iff)
  then show ?thesis
    using trim_word [of "[CHR '' '']" "[CR, LF]" "show_nat n"] dec_digit_ascii
    by (simp add: ascii_ws_def)
qed

lemma decode_content_length:
  assumes "n < 2 ^ 64"
  shows "decode_header c (''Content-Length: '' @ show_nat n @ [CR, LF]) = Done (Inr (c\<lparr>content_len := n\<rparr>))"
proof -
  have "is_ascii (''Content-Length: '' @ show_nat n @ [CR, LF])" using show_nat_ascii by simp
  then show ?thesis
    using parse_unsigned_show_nat [of "2 ^ 64" n] assms
    by (simp add: decode_header_def utf8_valid_ascii has_prefix_ascii trim_length_text parse_usize_def
        del: utf8_valid.simps)
qed

text \<open>What \<^verbatim>\<open>serde_json\<close> promises for a message: it can be written, as UTF-8 text, and reading the
  text gives the message.  A message does not fill the address space.\<close>

definition serde_round_trip :: "('m, 'e, 'v) serde \<Rightarrow> 'm \<Rightarrow> bool" where
  "serde_round_trip sd m \<longleftrightarrow>
     (case to_vec sd m of
        Inl _ \<Rightarrow> False
      | Inr bs \<Rightarrow> utf8_valid bs \<and> length bs < 2 ^ 64 \<and> message_from_slice sd bs = Inr m)"

lemma decode_frame:
  assumes "length bs < 2 ^ 64" "utf8_valid bs" "message_from_slice sd bs = Inr m"
  shows "decode sd codec_new (''Content-Length: '' @ show_nat (length bs) @ [CR, LF, CR, LF] @ bs @ rest)
     = Done (Inr (Some (Inr m)), codec_new, rest)"
proof -
  let ?l = "''Content-Length: '' @ show_nat (length bs)"
  let ?c = "\<lparr>state = ReadingHeaders, content_len = length bs\<rparr>"
  have "find_sub [CR, LF] (?l @ CR # LF # [CR, LF] @ bs @ rest) = Some (length ?l)"
    using show_nat_ascii by (intro find_sub_crlf) simp
  then have "decode sd codec_new (?l @ CR # LF # [CR, LF] @ bs @ rest) = decode sd ?c ([CR, LF] @ bs @ rest)"
    using decode_content_length [OF assms(1), of codec_new]
    by (simp add: decode_headers codec_new_def)
  also have "\<dots> = decode sd (?c\<lparr>state := ReadingBody\<rparr>) (bs @ rest)"
    by (simp add: decode_headers decode_header_def starts_with_def)
  also have "\<dots> = Done (Inr (Some (Inr m)), codec_new, rest)"
    using assms by (simp add: decode_in_body decode_body_def codec_new_def)
  finally show ?thesis by simp
qed

lemma encode_all_decode_all:
  assumes "\<forall>m \<in> set ms. serde_round_trip sd m"
  shows "\<exists>bytes. encode_all sd ms buffer = Done (buffer @ bytes) \<and>
    decode_all sd codec_new bytes = Done (map Inr ms, None, codec_new, [])"
  using assms
proof (induction ms arbitrary: buffer)
  case Nil
  then show ?case by (simp add: decode_all.simps decode_headers codec_new_def)
next
  case (Cons m ms)
  then obtain bs where bs: "to_vec sd m = Inr bs" "utf8_valid bs" "length bs < 2 ^ 64"
    "message_from_slice sd bs = Inr m"
    by (auto simp: serde_round_trip_def split: sum.splits)
  let ?f = "''Content-Length: '' @ show_nat (length bs) @ [CR, LF, CR, LF] @ bs"
  obtain bytes where "encode_all sd ms (buffer @ ?f) = Done ((buffer @ ?f) @ bytes)"
    "decode_all sd codec_new bytes = Done (map Inr ms, None, codec_new, [])"
    using Cons.IH [of "buffer @ ?f"] Cons.prems by auto
  then show ?case
    using bs decode_frame [of bs sd m bytes]
    by (intro exI [of _ "?f @ bytes"]) (simp add: encode_def decode_all.simps [of sd codec_new "?f @ bytes"]
      decode_all.simps [of sd codec_new "CHR ''C'' # _"])
qed

text \<open>
  Property C4.  Whatever sequence of messages is encoded, encoding succeeds, and a decoder that
  receives the bytes, in pieces of any sizes, delivers exactly these messages in order.
\<close>

theorem encode_decode_round_trip:
  assumes "\<forall>m \<in> set ms. serde_round_trip sd m"
  shows "\<exists>bytes. encode_all sd ms [] = Done bytes \<and>
    (\<forall>chunks. concat chunks = bytes \<longrightarrow>
      decode_chunks sd codec_new [] chunks = Done (map Inr ms, None))"
proof -
  obtain bytes where "encode_all sd ms [] = Done bytes"
    "decode_all sd codec_new bytes = Done (map Inr ms, None, codec_new, [])"
    using encode_all_decode_all [OF assms, of "[]"] by auto
  then show ?thesis
    using decode_chunks_eq [of sd codec_new "[]"]
    by (intro exI [of _ bytes]) (simp add: stuck_def decode_headers codec_new_def)
qed

definition text_serde :: "(string, unit, unit) serde" where
  "text_serde = \<lparr>to_vec = Inr, message_from_slice = Inr, value_from_slice = \<lambda>_. Inl (), value_null = (),
     log_debug = True\<rparr>"

theorem encode_decode_round_trip_witness:
  "serde_round_trip text_serde ''{}'' \<and> serde_round_trip text_serde ''[1]'' \<and>
   (\<exists>bytes. encode_all text_serde [''{}'', ''[1]''] [] = Done bytes \<and>
     (\<forall>chunks. concat chunks = bytes \<longrightarrow>
       decode_chunks text_serde codec_new [] chunks = Done ([Inr ''{}'', Inr ''[1]''], None)))"
proof -
  have rt: "serde_round_trip text_serde ''{}''" "serde_round_trip text_serde ''[1]''"
    by (simp_all add: serde_round_trip_def text_serde_def)
  then show ?thesis
    using encode_decode_round_trip [of "[''{}'', ''[1]'']" text_serde] by simp
qed

section \<open>Browsers are turned away\<close>

definition header_lines :: "string list \<Rightarrow> string" where
  "header_lines hs = concat (map (\<lambda>h. h @ [CR, LF]) hs)"

lemma header_lines_Cons: "header_lines (h # hs) = h @ CR # LF # header_lines hs"
  by (simp add: header_lines_def)

text \<open>A line that is not empty and does not contain its terminator.\<close>

definition header_line :: "string \<Rightarrow> bool" where
  "header_line h \<longleftrightarrow> h \<noteq> [] \<and> find_sub [CR, LF] (h @ [CR, LF]) = Some (length h)"

definition ci_prefix :: "string \<Rightarrow> string \<Rightarrow> bool" where
  "ci_prefix pfx s \<longleftrightarrow> length pfx \<le> length s \<and> eq_ignore_ascii_case (take (length pfx) s) pfx"

definition origin_header :: "string \<Rightarrow> bool" where
  "origin_header h \<longleftrightarrow> ci_prefix ''Origin:'' h"

lemma ci_prefix_crlf:
  assumes "CR \<notin> set (map to_lower pfx)"
  shows "ci_prefix pfx (h @ [CR, LF]) \<longleftrightarrow> ci_prefix pfx h"
proof (cases "length pfx \<le> length h")
  case True
  then show ?thesis by (simp add: ci_prefix_def)
next
  case False
  then obtain k where k: "length pfx - length h = Suc k" by (metis Suc_diff_Suc not_le)
  have "to_lower CR = CR" by (simp add: to_lower_def)
  then have "CR \<in> set (map to_lower (take (length pfx) (h @ [CR, LF])))"
    using False k by force
  then have "\<not> ci_prefix pfx (h @ [CR, LF])"
    using assms by (metis ci_prefix_def eq_ignore_ascii_case_def)
  then show ?thesis using False by (simp add: ci_prefix_def)
qed

lemma origin_not_length: "ci_prefix ''Origin:'' h \<Longrightarrow> \<not> ci_prefix ''Content-Length:'' h"
  by (cases h) (auto simp: ci_prefix_def eq_ignore_ascii_case_def to_lower_def char_eq_byte split: if_splits)

lemma has_prefix_cases:
  "has_prefix line pfx = Panic \<and> \<not> is_ascii line \<or>
   has_prefix line pfx = Done (if ci_prefix pfx line then Some (drop (length pfx) line) else None)"
proof (cases "is_ascii line")
  case True
  then show ?thesis using has_prefix_ascii [OF True, of pfx] by (simp add: ci_prefix_def)
qed (auto simp: has_prefix_def str_to_def str_from_def ci_prefix_def)

text \<open>What becomes of a header line: it is skipped when it is not UTF-8; otherwise it is rejected if it is an
  \<^verbatim>\<open>Origin:\<close> header, and at most sets the length if not, unless the comparison panics.\<close>

lemma decode_header_line:
  assumes "header_line h"
  shows "if utf8_valid (h @ [CR, LF])
    then decode_header c (h @ [CR, LF]) = Panic \<and> \<not> is_ascii h \<or>
      (if origin_header h
       then decode_header c (h @ [CR, LF]) = Done (Inl (IoError (''Unexpected header: '' @ h @ [CR, LF])))
       else \<exists>n. decode_header c (h @ [CR, LF]) = Done (Inr (c\<lparr>content_len := n\<rparr>)))
    else decode_header c (h @ [CR, LF]) = Done (Inr c)"
proof -
  let ?line = "h @ [CR, LF]"
  have len: "length ?line \<noteq> 2" using assms by (simp add: header_line_def)
  have asc: "is_ascii ?line \<longleftrightarrow> is_ascii h" by simp
  have hp: "has_prefix ?line pfx = Panic \<and> \<not> is_ascii h \<or>
      has_prefix ?line pfx = Done (if ci_prefix pfx h then Some (drop (length pfx) ?line) else None)"
    if "CR \<notin> set (map to_lower pfx)" for pfx
    using has_prefix_cases [of ?line pfx] ci_prefix_crlf [OF that, of h] asc by simp
  have nocr: "CR \<notin> set (map to_lower ''Content-Length:'')" "CR \<notin> set (map to_lower ''Origin:'')"
    by (simp_all add: to_lower_def char_eq_byte)
  have upd: "\<exists>n. c = c\<lparr>content_len := n\<rparr>" by (rule exI [of _ "content_len c"]) simp
  show ?thesis
  proof (cases "utf8_valid ?line")
    case False
    then show ?thesis using len by (simp add: decode_header_def)
  next
    case valid: True
    from hp [OF nocr(1)] show ?thesis
    proof (elim disjE conjE)
      assume "has_prefix ?line ''Content-Length:'' = Panic" "\<not> is_ascii h"
      then show ?thesis using valid len by (simp add: decode_header_def)
    next
      assume cl: "has_prefix ?line ''Content-Length:'' =
        Done (if ci_prefix ''Content-Length:'' h then Some (drop (length ''Content-Length:'') ?line) else None)"
      show ?thesis
      proof (cases "ci_prefix ''Content-Length:'' h")
        case True
        then have "\<not> origin_header h" using origin_not_length [of h] by (auto simp: origin_header_def)
        then show ?thesis using valid len cl True upd by (auto simp: decode_header_def split: option.split)
      next
        case False
        then show ?thesis
          using valid len cl hp [OF nocr(2)] upd by (auto simp: decode_header_def origin_header_def)
      qed
    qed
  qed
qed

lemma decode_line:
  assumes "header_line h" "state c = ReadingHeaders"
  shows "decode sd c (h @ CR # LF # rest) =
    exec_bind (decode_header c (h @ [CR, LF])) (\<lambda>r. case r of
      Inl err \<Rightarrow> Done (Inl err, c, rest) | Inr c' \<Rightarrow> decode sd c' rest)"
proof -
  have "find_sub [CR, LF] (h @ CR # LF # rest) = Some (length h)"
    using assms(1) find_sub_append [of "[CR, LF]" "h @ [CR, LF]" "length h" rest] by (simp add: header_line_def)
  then show ?thesis using assms(2) by (simp add: decode_headers cong: sum.case_cong)
qed

text \<open>
  Property C5.  Requests of a browser do not get through: when the header lines of a message include an
  \<^verbatim>\<open>Origin:\<close> header, in any case, that is valid UTF-8, then, whatever the other lines are and whatever
  follows, the message is not delivered: the decoder fails with an error that quotes such a header, or
  panics, which only happens when some line is not ASCII.  The limit of this guard is also shown: a line that
  is not valid UTF-8 is skipped, whatever its name.
\<close>

theorem origin_rejected:
  assumes "state c = ReadingHeaders" "list_all header_line hs"
  shows "(list_ex (\<lambda>h. origin_header h \<and> utf8_valid (h @ [CR, LF])) hs \<longrightarrow>
      decode sd c (header_lines hs @ rest) = Panic \<and> \<not> list_all is_ascii hs \<or>
      (\<exists>h \<in> set hs. origin_header h \<and> (\<exists>c' rest'. decode sd c (header_lines hs @ rest) =
        Done (Inl (IoError (''Unexpected header: '' @ h @ [CR, LF])), c', rest')))) \<and>
    (list_all (\<lambda>h. \<not> utf8_valid (h @ [CR, LF])) hs \<longrightarrow>
      decode sd c (header_lines hs @ rest) = decode sd c rest)"
  using assms
proof (induction hs arbitrary: c)
  case Nil
  then show ?case by (simp add: header_lines_def)
next
  case (Cons h hs)
  let ?rest = "header_lines hs @ rest"
  have h: "header_line h" using Cons.prems by simp
  have step: "decode sd c (header_lines (h # hs) @ rest) =
      exec_bind (decode_header c (h @ [CR, LF])) (\<lambda>r. case r of
        Inl err \<Rightarrow> Done (Inl err, c, ?rest) | Inr c' \<Rightarrow> decode sd c' ?rest)"
    using decode_line [OF h Cons.prems(1), of sd ?rest] by (simp add: header_lines_Cons)
  note IH = Cons.IH [of "c\<lparr>content_len := n\<rparr>" for n] and line = decode_header_line [OF h, of c]
  consider "decode_header c (h @ [CR, LF]) = Panic" "utf8_valid (h @ [CR, LF])" "\<not> is_ascii h"
    | "decode_header c (h @ [CR, LF]) = Done (Inl (IoError (''Unexpected header: '' @ h @ [CR, LF])))"
        "origin_header h" "utf8_valid (h @ [CR, LF])"
    | n where "decode_header c (h @ [CR, LF]) = Done (Inr (c\<lparr>content_len := n\<rparr>))"
        "\<not> origin_header h" "utf8_valid (h @ [CR, LF])"
    | "decode_header c (h @ [CR, LF]) = Done (Inr c)" "\<not> utf8_valid (h @ [CR, LF])"
    using line by (auto split: if_splits)
  then show ?case
  proof cases
    case (3 n)
    then show ?thesis using step IH [of n] Cons.prems by auto
  next
    case 4
    then show ?thesis using step Cons.IH [of c] Cons.prems by auto
  qed (use step in auto)
qed

theorem origin_rejected_witness:
  "\<exists>c' rest'. decode text_serde codec_new (header_lines [''Content-Length: 2'', ''oRIGIN: http://a''] @ ''x'') =
    Done (Inl (IoError (''Unexpected header: oRIGIN: http://a'' @ [CR, LF])), c', rest')"
  using origin_rejected [of codec_new "[''Content-Length: 2'', ''oRIGIN: http://a'']" text_serde "''x''"]
  by (simp add: header_line_def origin_header_def ci_prefix_def eq_ignore_ascii_case_def to_lower_def
      codec_new_def char_eq_byte starts_with_def)

lemma has_prefix_panics:
  assumes "length pfx < length line" "is_cont (line ! length pfx)" "pfx \<noteq> []"
  shows "has_prefix line pfx = Panic"
  using assms by (simp add: has_prefix_def str_to_def is_char_boundary_def)

text \<open>
  Property C6.  A header line that is not ASCII can stop the adapter: the prefix comparison slices
  the line at a fixed byte offset, so a well-formed UTF-8 line with a character that extends over
  this offset makes the decoder panic.
\<close>

theorem non_ascii_header_panics:
  assumes "utf8_valid (h @ [CR, LF])" "CR \<notin> set h" "15 < length h" "is_cont (h ! 15)"
    and "state c = ReadingHeaders"
  shows "decode sd c (h @ CR # LF # rest) = Panic"
proof -
  have "find_sub [CR, LF] (h @ CR # LF # rest) = Some (length h)"
    using assms(2) by (rule find_sub_crlf)
  moreover have "has_prefix (h @ [CR, LF]) ''Content-Length:'' = Panic"
  proof (rule has_prefix_panics)
    have "length ''Content-Length:'' = 15" by simp
    then show "length ''Content-Length:'' < length (h @ [CR, LF])"
      "is_cont ((h @ [CR, LF]) ! length ''Content-Length:'')"
      using assms(3,4) by (simp_all only: nth_append length_append if_True)
  qed simp
  ultimately show ?thesis
    using assms(1,3,5) by (auto simp: decode_headers decode_header_def)
qed

theorem non_ascii_header_panics_witness:
  "decode text_serde codec_new ((''X-User-Names: '' @ [CHR 0xC3, CHR 0xA9]) @ CR # LF # []) = Panic"
  by (rule non_ascii_header_panics)
    (simp_all add: is_cont_def byte_in_def codec_new_def)

end
