(* ===== verification/Protocol.thy ===== *)
theory Protocol
  imports Rust_Prelude
begin

text \<open>
  The data of the debug adapter protocol: the enumerations and structs of \<^verbatim>\<open>codelldb-types\<close> and of
  \<^verbatim>\<open>adapter-protocol\<close>.  The structs of \<^verbatim>\<open>adapter-protocol/src/dap.rs\<close> are generated from the protocol's JSON
  schema (\<^verbatim>\<open>debugAdapterProtocol.json\<close>); an integer of the schema is an \<^verbatim>\<open>i64\<close>, an optional property an
  \<^verbatim>\<open>Option\<close>, an array a \<^verbatim>\<open>Vec\<close>.  Where a struct of the schema has properties which the adapter neither
  reads nor writes, they are left out.  The fields of a record carry a prefix that names the struct.

  \<^verbatim>\<open>serde_json::Value\<close> is the datatype \<open>json\<close>; a number is an unsigned or a negative integer, or the
  text of a floating point number.
\<close>

section \<open>Values without a fixed shape\<close>

datatype json_number = NPosInt u64 | NNegInt int | NFloat string

datatype json =
    JNull
  | JBool bool
  | JNumber json_number
  | JString string
  | JArray "json list"
  | JObject "(string \<times> json) list"

fun as_u64_number :: "json_number \<Rightarrow> u64 option" where
  "as_u64_number (NPosInt n) = Some n"
| "as_u64_number _ = None"

text \<open>\<^verbatim>\<open>JsonMap\<close> keeps the entries in the order of the text.\<close>

datatype 'v json_map = JsonMap "(string \<times> 'v) list"

fun jm_iter :: "'v json_map \<Rightarrow> (string \<times> 'v) list" where
  "jm_iter (JsonMap kvs) = kvs"

section \<open>Settings and launch configurations\<close>

datatype ('a, 'b) either = First 'a | Second 'b
datatype breakpoint_mode = ModePath | ModeFile
datatype console_mode = Commands | Evaluate | Split
datatype display_format = DfAuto | DfHex | DfDecimal | DfBinary
datatype show_disassembly = SdAlways | SdNever | SdAuto
datatype terminal_id = TTY string | PID u64
datatype terminal_kind = TkIntegrated | TkExternal | TkConsole | TkTerminalId terminal_id
datatype console_kind = IntegratedTerminal | ExternalTerminal | InternalConsole
datatype expressions = Simple | Python | Native

record exclude_caller_request =
  ecr_thread_id :: "int"
  ecr_frame_index :: "u32"

record excluded_caller =
  ec_site_id :: "(int, string) either"
  ec_symbol :: "string"

record exclude_caller_response =
  ecr_exclusion :: "excluded_caller"
  ecr_label :: "string"

record set_excluded_callers_request =
  sec_exclusions :: "excluded_caller list"

record types_source =
  ts_path :: "string"

record symbol =
  sym_name :: "string"
  sym_type :: "string"
  sym_address :: "string"
  sym_size :: "u64"
  sym_module :: "string option"
  sym_location :: "(types_source \<times> u32) option"

record symbols_request =
  sr_filter :: "string"
  sr_max_results :: "u32"

record symbols_response =
  sr_symbols :: "symbol list"

text \<open>
  The two timeouts are \<^verbatim>\<open>f32\<close> seconds which the adapter only converts to whole milliseconds,
  \<^verbatim>\<open>(timeout * 1000.0) as u64\<close>; the model holds the converted value.
\<close>

record adapter_settings =
  as_display_format :: "display_format option"
  as_show_disassembly :: "show_disassembly option"
  as_dereference_pointers :: "bool option"
  as_container_summary :: "bool option"
  as_evaluation_timeout :: "u64 option"
  as_summary_timeout :: "u64 option"
  as_suppress_missing_source_files :: "bool option"
  as_console_mode :: "console_mode option"
  as_source_languages :: "string list option"
  as_script_config :: "(string \<times> json) list option"
  as_evaluate_for_hovers :: "bool option"
  as_command_completions :: "bool option"

record common_launch_fields =
  cf_name :: "string option"
  cf_source_map :: "string option json_map option"
  cf_expressions :: "expressions option"
  cf_init_commands :: "string list option"
  cf_pre_run_commands :: "string list option"
  cf_post_run_commands :: "string list option"
  cf_graceful_shutdown :: "(string, string list) either option"
  cf_pre_terminate_commands :: "string list option"
  cf_exit_commands :: "string list option"
  cf_source_languages :: "string list option"
  cf_reverse_debugging :: "bool option"
  cf_relative_path_base :: "string option"
  cf_breakpoint_mode :: "breakpoint_mode option"
  cf_adapter_settings :: "adapter_settings option"

record launch_request_arguments =
  la_common :: "common_launch_fields"
  la_no_debug :: "bool option"
  la_program :: "string option"
  la_args :: "string list option"
  la_cwd :: "string option"
  la_env :: "string json_map option"
  la_env_file :: "string option"
  la_stdio :: "(string, string option list) either option"
  la_stop_on_entry :: "bool option"
  la_terminal :: "terminal_kind option"
  la_console :: "console_kind option"
  la_target_create_commands :: "string list option"
  la_process_create_commands :: "string list option"

record attach_request_arguments =
  aa_common :: "common_launch_fields"
  aa_program :: "string option"
  aa_pid :: "(u64, string) either option"
  aa_wait_for :: "bool option"
  aa_stop_on_entry :: "bool option"
  aa_target_create_commands :: "string list option"
  aa_process_create_commands :: "string list option"

record launch_environment =
  le_cmd :: "string list"
  le_cwd :: "string"
  le_env :: "string json_map"
  le_terminal_id :: "terminal_id option"
  le_config :: "string option"

record launch_response =
  lr_success :: "bool"
  lr_message :: "string option"

section \<open>Structs of the protocol\<close>

record dap_source =
  src_name :: "string option"
  src_path :: "string option"
  src_source_reference :: "int option"
  src_origin :: "string option"
  src_adapter_data :: "json option"

definition default_source :: dap_source where
  "default_source = \<lparr>src_name = None, src_path = None, src_source_reference = None, src_origin = None,
     src_adapter_data = None\<rparr>"

record breakpoint =
  bp_id :: "int option"
  bp_verified :: "bool"
  bp_column :: "int option"
  bp_end_column :: "int option"
  bp_line :: "int option"
  bp_end_line :: "int option"
  bp_message :: "string option"
  bp_source :: "dap_source option"
  bp_instruction_reference :: "string option"
  bp_offset :: "int option"
  bp_reason :: "string option"

definition default_breakpoint :: breakpoint where
  "default_breakpoint = \<lparr>bp_id = None, bp_verified = False, bp_column = None, bp_end_column = None, bp_line = None,
     bp_end_line = None, bp_message = None, bp_source = None, bp_instruction_reference = None,
     bp_offset = None, bp_reason = None\<rparr>"

datatype module_id = ModuleInt int | ModuleString string
datatype frame_hint = FhNormal | FhLabel | FhSubtle

record stack_frame =
  sf_id :: "int"
  sf_name :: "string"
  sf_source :: "dap_source option"
  sf_line :: "int"
  sf_column :: "int"
  sf_end_column :: "int option"
  sf_end_line :: "int option"
  sf_can_restart :: "bool option"
  sf_instruction_pointer_reference :: "string option"
  sf_module_id :: "module_id option"
  sf_presentation_hint :: "frame_hint option"

definition default_stack_frame :: stack_frame where
  "default_stack_frame = \<lparr>sf_id = 0, sf_name = '''', sf_source = None, sf_line = 0, sf_column = 0, sf_end_column =
     None, sf_end_line = None, sf_can_restart = None, sf_instruction_pointer_reference = None,
     sf_module_id = None, sf_presentation_hint = None\<rparr>"

record scope =
  sc_column :: "int option"
  sc_end_column :: "int option"
  sc_end_line :: "int option"
  sc_expensive :: "bool"
  sc_indexed_variables :: "int option"
  sc_line :: "int option"
  sc_name :: "string"
  sc_named_variables :: "int option"
  sc_presentation_hint :: "string option"
  sc_source :: "dap_source option"
  sc_variables_reference :: "int"

definition default_scope :: scope where
  "default_scope = \<lparr>sc_column = None, sc_end_column = None, sc_end_line = None, sc_expensive = False,
     sc_indexed_variables = None, sc_line = None, sc_name = '''', sc_named_variables = None,
     sc_presentation_hint = None, sc_source = None, sc_variables_reference = 0\<rparr>"

datatype variable_hint = VariableHint "string option" "string list" "bool option"

record variable =
  var_name :: "string"
  var_value :: "string"
  var_variables_reference :: "int"
  var_type :: "string option"
  var_evaluate_name :: "string option"
  var_indexed_variables :: "int option"
  var_named_variables :: "int option"
  var_memory_reference :: "string option"
  var_presentation_hint :: "variable_hint option"
  var_declaration_location_reference :: "int option"
  var_value_location_reference :: "int option"

definition default_variable :: variable where
  "default_variable = \<lparr>var_name = '''', var_value = '''', var_variables_reference = 0, var_type = None,
     var_evaluate_name = None, var_indexed_variables = None, var_named_variables = None,
     var_memory_reference = None, var_presentation_hint = None,
     var_declaration_location_reference = None, var_value_location_reference = None\<rparr>"

record stopped_event_body =
  st_thread_id :: "int option"
  st_reason :: "string"
  st_all_threads_stopped :: "bool option"
  st_description :: "string option"
  st_preserve_focus_hint :: "bool option"
  st_text :: "string option"
  st_hit_breakpoint_ids :: "int list"

definition default_stopped_event_body :: stopped_event_body where
  "default_stopped_event_body = \<lparr>st_thread_id = None, st_reason = '''', st_all_threads_stopped = None, st_description =
     None, st_preserve_focus_hint = None, st_text = None, st_hit_breakpoint_ids = []\<rparr>"

record evaluate_response_body =
  er_result :: "string"
  er_type :: "string option"
  er_variables_reference :: "int"
  er_indexed_variables :: "int option"
  er_memory_reference :: "string option"
  er_value_location_reference :: "int option"
  er_named_variables :: "int option"
  er_presentation_hint :: "variable_hint option"

definition default_evaluate_response_body :: evaluate_response_body where
  "default_evaluate_response_body = \<lparr>er_result = '''', er_type = None, er_variables_reference = 0, er_indexed_variables = None,
     er_memory_reference = None, er_value_location_reference = None, er_named_variables = None,
     er_presentation_hint = None\<rparr>"

record output_event_body =
  oe_output :: "string"
  oe_category :: "string option"
  oe_data :: "json option"
  oe_line :: "int option"
  oe_column :: "int option"
  oe_source :: "dap_source option"
  oe_variables_reference :: "int option"
  oe_location_reference :: "int option"
  oe_group :: "string option"

definition default_output_event_body :: output_event_body where
  "default_output_event_body = \<lparr>oe_output = '''', oe_category = None, oe_data = None, oe_line = None, oe_column = None,
     oe_source = None, oe_variables_reference = None, oe_location_reference = None, oe_group =
     None\<rparr>"

record completion_item =
  ci_label :: "string"
  ci_length :: "int option"
  ci_start :: "int option"
  ci_text :: "string option"
  ci_detail :: "string option"
  ci_type :: "string option"
  ci_sort_text :: "string option"
  ci_selection_start :: "int option"
  ci_selection_length :: "int option"

definition default_completion_item :: completion_item where
  "default_completion_item = \<lparr>ci_label = '''', ci_length = None, ci_start = None, ci_text = None, ci_detail = None,
     ci_type = None, ci_sort_text = None, ci_selection_start = None, ci_selection_length = None\<rparr>"

record dap_module =
  mod_name :: "string"
  mod_id :: "module_id"
  mod_path :: "string option"
  mod_address_range :: "string option"
  mod_date_time_stamp :: "string option"
  mod_is_optimized :: "bool option"
  mod_is_user_code :: "bool option"
  mod_symbol_file_path :: "string option"
  mod_symbol_status :: "string option"
  mod_version :: "string option"

definition default_module :: dap_module where
  "default_module = \<lparr>mod_name = '''', mod_id = ModuleString '''', mod_path = None, mod_address_range = None,
     mod_date_time_stamp = None, mod_is_optimized = None, mod_is_user_code = None,
     mod_symbol_file_path = None, mod_symbol_status = None, mod_version = None\<rparr>"

datatype data_access_type = AccRead | AccWrite | AccReadWrite

record data_breakpoint_info_response_body =
  di_data_id :: "string option"
  di_access_types :: "data_access_type list"
  di_can_persist :: "bool option"
  di_description :: "string"

definition default_data_breakpoint_info_response_body :: data_breakpoint_info_response_body where
  "default_data_breakpoint_info_response_body = \<lparr>di_data_id = None, di_access_types = [], di_can_persist = None, di_description = ''''\<rparr>"

record exception_breakpoints_filter =
  ef_filter :: "string"
  ef_label :: "string"
  ef_description :: "string option"
  ef_default :: "bool option"
  ef_supports_condition :: "bool option"
  ef_condition_description :: "string option"

definition default_exception_breakpoints_filter :: exception_breakpoints_filter where
  "default_exception_breakpoints_filter = \<lparr>ef_filter = '''', ef_label = '''', ef_description = None, ef_default = None,
     ef_supports_condition = None, ef_condition_description = None\<rparr>"

datatype instruction_hint = IhNormal | IhInvalid

record disassembled_instruction =
  in_address :: "string"
  in_instruction :: "string"
  in_instruction_bytes :: "string option"
  in_symbol :: "string option"
  in_location :: "dap_source option"
  in_line :: "int option"
  in_end_line :: "int option"
  in_column :: "int option"
  in_end_column :: "int option"
  in_presentation_hint :: "instruction_hint option"

definition default_disassembled_instruction :: disassembled_instruction where
  "default_disassembled_instruction = \<lparr>in_address = '''', in_instruction = '''', in_instruction_bytes = None, in_symbol = None,
     in_location = None, in_line = None, in_end_line = None, in_column = None, in_end_column =
     None, in_presentation_hint = None\<rparr>"

record step_in_target =
  sit_id :: "int"
  sit_label :: "string"
  sit_line :: "int option"
  sit_column :: "int option"
  sit_end_line :: "int option"
  sit_end_column :: "int option"

definition default_step_in_target :: step_in_target where
  "default_step_in_target = \<lparr>sit_id = 0, sit_label = '''', sit_line = None, sit_column = None, sit_end_line = None,
     sit_end_column = None\<rparr>"

record set_variable_response_body =
  sv_value :: "string"
  sv_type :: "string option"
  sv_variables_reference :: "int option"
  sv_named_variables :: "int option"
  sv_indexed_variables :: "int option"
  sv_memory_reference :: "string option"
  sv_value_location_reference :: "int option"

definition default_set_variable_response_body :: set_variable_response_body where
  "default_set_variable_response_body = \<lparr>sv_value = '''', sv_type = None, sv_variables_reference = None, sv_named_variables = None,
     sv_indexed_variables = None, sv_memory_reference = None, sv_value_location_reference =
     None\<rparr>"

end
