(* ===== verification/Messages.thy ===== *)
theory Messages
  imports Protocol
begin

text \<open>
  The messages of \<^verbatim>\<open>adapter-protocol/src/lib.rs\<close>: requests, responses and events, and the structs they
  carry.  A constructor is the variant of the source with a prefix.  The arguments of requests which
  the adapter only sends (\<^verbatim>\<open>runInTerminal\<close>, \<^verbatim>\<open>startDebugging\<close>) hold the properties it sets.
\<close>

section \<open>Arguments of requests\<close>

datatype stepping_granularity = GrStatement | GrLine | GrInstruction
datatype variables_filter = FilterIndexed | FilterNamed

record initialize_request_arguments =
  ia_adapter_id :: "string"
  ia_supports_run_in_terminal_request :: "bool option"
  ia_supports_invalidated_event :: "bool option"
  ia_supports_memory_references :: "bool option"
  ia_supports_start_debugging_request :: "bool option"

record cancel_arguments =
  ca_request_id :: "int option"
  ca_progress_id :: "string option"

record source_breakpoint =
  sb_line :: "int"
  sb_column :: "int option"
  sb_condition :: "string option"
  sb_hit_condition :: "string option"
  sb_log_message :: "string option"

record set_breakpoints_arguments =
  sba_source :: "dap_source"
  sba_breakpoints :: "source_breakpoint list"
  sba_lines :: "int list"

record instruction_breakpoint =
  ib_instruction_reference :: "string"
  ib_offset :: "int option"
  ib_condition :: "string option"
  ib_hit_condition :: "string option"

record set_instruction_breakpoints_arguments =
  iba_breakpoints :: "instruction_breakpoint list"

record function_breakpoint =
  fb_name :: "string"
  fb_condition :: "string option"
  fb_hit_condition :: "string option"

record set_function_breakpoints_arguments =
  fba_breakpoints :: "function_breakpoint list"

record exception_filter_options =
  fo_filter_id :: "string"
  fo_condition :: "string option"

record set_exception_breakpoints_arguments =
  eba_filters :: "string list"
  eba_filter_options :: "exception_filter_options list"

record exception_info_arguments =
  xia_thread_id :: "int"

record pause_arguments =
  pa_thread_id :: "int"

record continue_arguments =
  co_thread_id :: "int"

record next_arguments =
  na_thread_id :: "int"
  na_granularity :: "stepping_granularity option"

record step_in_targets_arguments =
  sta_frame_id :: "int"

record step_in_arguments =
  sia_thread_id :: "int"
  sia_target_id :: "int option"
  sia_granularity :: "stepping_granularity option"

record step_out_arguments =
  soa_thread_id :: "int"

record step_back_arguments =
  sbk_thread_id :: "int"

record reverse_continue_arguments =
  rca_thread_id :: "int"

record stack_trace_arguments =
  stk_thread_id :: "int"
  stk_start_frame :: "int option"
  stk_levels :: "int option"

record scopes_arguments =
  sca_frame_id :: "int"

record source_arguments =
  soua_source_reference :: "int"

record modules_arguments =
  ma_start_module :: "int option"
  ma_module_count :: "int option"

record variables_arguments =
  va_variables_reference :: "int"
  va_filter :: "variables_filter option"
  va_start :: "int option"
  va_count :: "int option"

record completions_arguments =
  cpa_frame_id :: "int option"
  cpa_text :: "string"
  cpa_column :: "int"

record goto_targets_arguments =
  gta_source :: "dap_source"
  gta_line :: "int"

record goto_arguments =
  ga_thread_id :: "int"
  ga_target_id :: "int"

record restart_frame_arguments =
  rfa_frame_id :: "int"

record evaluate_arguments =
  ea_expression :: "string"
  ea_frame_id :: "int option"
  ea_context :: "string option"

record set_variable_arguments =
  sva_variables_reference :: "int"
  sva_name :: "string"
  sva_value :: "string"

record data_breakpoint_info_arguments =
  dia_variables_reference :: "int option"
  dia_name :: "string"
  dia_frame_id :: "int option"
  dia_bytes :: "int option"
  dia_as_address :: "bool option"

record data_breakpoint =
  dbp_data_id :: "string"
  dbp_access_type :: "data_access_type option"

record set_data_breakpoints_arguments =
  dba_breakpoints :: "data_breakpoint list"

record disassemble_arguments =
  da_memory_reference :: "string"
  da_offset :: "int option"
  da_instruction_offset :: "int option"
  da_instruction_count :: "int"
  da_resolve_symbols :: "bool option"

record read_memory_arguments =
  rma_memory_reference :: "string"
  rma_offset :: "int option"
  rma_count :: "int"

record write_memory_arguments =
  wma_memory_reference :: "string"
  wma_offset :: "int option"
  wma_allow_partial :: "bool option"
  wma_data :: "string"

record terminate_arguments =
  ta_restart :: "bool option"

record disconnect_arguments =
  dca_restart :: "bool option"
  dca_terminate_debuggee :: "bool option"

datatype run_in_terminal_kind = RtIntegrated | RtExternal

record run_in_terminal_arguments =
  rit_args :: "string list"
  rit_args_can_be_interpreted_by_shell :: "bool option"
  rit_cwd :: "string"
  rit_env :: "(string \<times> string option) list"
  rit_kind :: "run_in_terminal_kind option"
  rit_title :: "string option"

record start_debugging_arguments =
  sda_configuration :: "(string \<times> json) list"
  sda_request :: "string"

type_synonym restart_request_arguments = "(launch_request_arguments, attach_request_arguments) either"

section \<open>Requests\<close>

datatype (plugins only: size) request_arguments =
    Req_initialize initialize_request_arguments
  | Req_cancel cancel_arguments
  | Req_launch "(launch_request_arguments, json) either"
  | Req_attach "(attach_request_arguments, json) either"
  | Req_restart "(restart_request_arguments, json) either"
  | Req_setBreakpoints set_breakpoints_arguments
  | Req_setInstructionBreakpoints set_instruction_breakpoints_arguments
  | Req_setFunctionBreakpoints set_function_breakpoints_arguments
  | Req_setExceptionBreakpoints set_exception_breakpoints_arguments
  | Req_exceptionInfo exception_info_arguments
  | Req_configurationDone
  | Req_pause pause_arguments
  | Req_continue continue_arguments
  | Req_next next_arguments
  | Req_stepInTargets step_in_targets_arguments
  | Req_stepIn step_in_arguments
  | Req_stepOut step_out_arguments
  | Req_stepBack step_back_arguments
  | Req_reverseContinue reverse_continue_arguments
  | Req_threads
  | Req_stackTrace stack_trace_arguments
  | Req_scopes scopes_arguments
  | Req_source source_arguments
  | Req_modules modules_arguments
  | Req_variables variables_arguments
  | Req_completions completions_arguments
  | Req_gotoTargets goto_targets_arguments
  | Req_goto goto_arguments
  | Req_restartFrame restart_frame_arguments
  | Req_evaluate evaluate_arguments
  | Req_setVariable set_variable_arguments
  | Req_dataBreakpointInfo data_breakpoint_info_arguments
  | Req_setDataBreakpoints set_data_breakpoints_arguments
  | Req_disassemble disassemble_arguments
  | Req_readMemory read_memory_arguments
  | Req_writeMemory write_memory_arguments
  | Req_terminate "terminate_arguments option"
  | Req_disconnect "disconnect_arguments option"
  | Req_runInTerminal run_in_terminal_arguments
  | Req_startDebugging start_debugging_arguments
  | Req_adapterSettings adapter_settings
  | Req_symbols symbols_request
  | Req_excludeCaller exclude_caller_request
  | Req_setExcludedCallers set_excluded_callers_request
  | Req_pythonMessage json
  | Req_unknown

section \<open>Bodies of responses\<close>

text \<open>The capabilities which the adapter reports; it leaves the others unset.\<close>

record capabilities =
  cap_exception_breakpoint_filters :: "exception_breakpoints_filter list"
  cap_support_terminate_debuggee :: "bool option"
  cap_supports_cancel_request :: "bool option"
  cap_supports_clipboard_context :: "bool option"
  cap_supports_completions_request :: "bool option"
  cap_supports_conditional_breakpoints :: "bool option"
  cap_supports_configuration_done_request :: "bool option"
  cap_supports_data_breakpoints :: "bool option"
  cap_supports_data_breakpoint_bytes :: "bool option"
  cap_supports_delayed_stack_trace_loading :: "bool option"
  cap_supports_disassemble_request :: "bool option"
  cap_supports_evaluate_for_hovers :: "bool option"
  cap_supports_exception_filter_options :: "bool option"
  cap_supports_exception_info_request :: "bool option"
  cap_supports_function_breakpoints :: "bool option"
  cap_supports_goto_targets_request :: "bool option"
  cap_supports_hit_conditional_breakpoints :: "bool option"
  cap_supports_instruction_breakpoints :: "bool option"
  cap_supports_log_points :: "bool option"
  cap_supports_modules_request :: "bool option"
  cap_supports_read_memory_request :: "bool option"
  cap_supports_restart_request :: "bool option"
  cap_supports_set_variable :: "bool option"
  cap_supports_step_back :: "bool option"
  cap_supports_step_in_targets_request :: "bool option"
  cap_supports_stepping_granularity :: "bool option"
  cap_supports_terminate_request :: "bool option"
  cap_supports_write_memory_request :: "bool option"

definition default_capabilities :: capabilities where
  "default_capabilities = \<lparr>cap_exception_breakpoint_filters = [], cap_support_terminate_debuggee = None,
     cap_supports_cancel_request = None, cap_supports_clipboard_context = None,
     cap_supports_completions_request = None, cap_supports_conditional_breakpoints = None,
     cap_supports_configuration_done_request = None, cap_supports_data_breakpoints = None,
     cap_supports_data_breakpoint_bytes = None, cap_supports_delayed_stack_trace_loading = None,
     cap_supports_disassemble_request = None, cap_supports_evaluate_for_hovers = None,
     cap_supports_exception_filter_options = None, cap_supports_exception_info_request = None,
     cap_supports_function_breakpoints = None, cap_supports_goto_targets_request = None,
     cap_supports_hit_conditional_breakpoints = None, cap_supports_instruction_breakpoints = None,
     cap_supports_log_points = None, cap_supports_modules_request = None,
     cap_supports_read_memory_request = None, cap_supports_restart_request = None,
     cap_supports_set_variable = None, cap_supports_step_back = None,
     cap_supports_step_in_targets_request = None, cap_supports_stepping_granularity = None,
     cap_supports_terminate_request = None, cap_supports_write_memory_request = None\<rparr>"

record exception_info_response_body =
  xr_exception_id :: "string"
  xr_description :: "string option"
  xr_break_mode :: "string"

record dap_thread =
  th_id :: "int"
  th_name :: "string"

record stack_trace_response_body =
  str_stack_frames :: "stack_frame list"
  str_total_frames :: "int option"

record source_response_body =
  srb_content :: "string"
  srb_mime_type :: "string option"

record modules_response_body =
  mrb_modules :: "dap_module list"
  mrb_total_modules :: "int option"

record goto_target =
  gt_id :: "int"
  gt_label :: "string"
  gt_line :: "int"

record read_memory_response_body =
  rmr_address :: "string"
  rmr_unreadable_bytes :: "int option"
  rmr_data :: "string option"

record write_memory_response_body =
  wmr_bytes_written :: "int option"
  wmr_offset :: "int option"

record run_in_terminal_response_body =
  rtr_process_id :: "int option"
  rtr_shell_process_id :: "int option"

text \<open>A body that only wraps a list is represented by the list.\<close>

datatype (plugins only: size) response_body =
    Resp_initialize capabilities
  | Resp_cancel
  | Resp_launch
  | Resp_attach
  | Resp_restart
  | Resp_setBreakpoints "breakpoint list"
  | Resp_setInstructionBreakpoints "breakpoint list"
  | Resp_setFunctionBreakpoints "breakpoint list"
  | Resp_setExceptionBreakpoints "breakpoint list"
  | Resp_exceptionInfo exception_info_response_body
  | Resp_configurationDone
  | Resp_pause
  | Resp_continue "bool option"
  | Resp_next
  | Resp_stepInTargets "step_in_target list"
  | Resp_stepIn
  | Resp_stepOut
  | Resp_stepBack
  | Resp_reverseContinue
  | Resp_threads "dap_thread list"
  | Resp_stackTrace stack_trace_response_body
  | Resp_scopes "scope list"
  | Resp_source source_response_body
  | Resp_modules modules_response_body
  | Resp_variables "variable list"
  | Resp_completions "completion_item list"
  | Resp_gotoTargets "goto_target list"
  | Resp_goto
  | Resp_restartFrame
  | Resp_evaluate evaluate_response_body
  | Resp_setVariable set_variable_response_body
  | Resp_dataBreakpointInfo data_breakpoint_info_response_body
  | Resp_setDataBreakpoints "breakpoint list"
  | Resp_disassemble "disassembled_instruction list"
  | Resp_readMemory read_memory_response_body
  | Resp_writeMemory write_memory_response_body
  | Resp_terminate
  | Resp_disconnect
  | Resp_runInTerminal run_in_terminal_response_body
  | Resp_startDebugging
  | Resp_adapterSettings
  | Resp_symbols symbols_response
  | Resp_excludeCaller exclude_caller_response
  | Resp_setExcludedCallers
  | Resp_pythonMessage

section \<open>Events and messages\<close>

datatype module_reason = ModuleNew | ModuleChanged | ModuleRemoved

datatype event_body =
    Ev_initialized
  | Ev_output output_event_body
  | Ev_breakpoint string breakpoint
  | Ev_capabilities capabilities
  | Ev_continued "bool option" int
  | Ev_exited int
  | Ev_module module_reason dap_module
  | Ev_terminated "json option"
  | Ev_thread string int
  | Ev_invalidated "int option"
  | Ev_stopped stopped_event_body
  | Ev_pythonMessage json

datatype response_result =
    Success response_body
  | RError string string "bool option"

record response =
  request_seq :: u32
  success :: bool
  result :: response_result

datatype message_type =
    MRequest request_arguments
  | MResponse response
  | MEvent event_body

record protocol_message =
  seq :: u32
  mtype :: message_type

end
