(* ===== verification/Dap_Session.thy ===== *)
theory Dap_Session
  imports Messages Dap_Codec
begin

text \<open>
  The dispatcher of \<^verbatim>\<open>dap_session.rs\<close>, which routes messages between the channel and the subscribers, and
  the client side through which handlers send messages.

  The dispatcher is a step function: an input is what one branch of \<^verbatim>\<open>tokio::select!\<close> received, an effect
  is a call on a channel the code makes.  A one-shot sender is the number of its channel; every
  request that expects an answer creates a channel of its own.  Failures of the calls are only
  logged by the code, so the model records the attempt.
\<close>

section \<open>Dispatcher\<close>

type_synonym requestor = nat
type_synonym out_item = "message_type \<times> requestor option"
type_synonym 'e channel_item = "io_error + (protocol_message, 'e, json) decoder_result"

datatype 'e dispatcher_input =
    FromChannel "'e channel_item option"
  | FromOut out_item

datatype dispatcher_effect =
    BroadcastRequest u32 request_arguments
  | BroadcastEvent event_body
  | ReplyTo requestor response_result
  | ChannelSend protocol_message

record dispatcher =
  pending_requests :: "u32 \<rightharpoonup> requestor"
  message_seq :: u32

definition dispatcher_new :: dispatcher where
  "dispatcher_new = \<lparr>pending_requests = Map.empty, message_seq = 0\<rparr>"

text \<open>The request number of a frame that could not be read as a message.\<close>

fun malformed_seq :: "json \<Rightarrow> u64 option" where
  "malformed_seq (JObject obj) =
     (case hm_get obj ''seq'' of
        Some (JNumber n) \<Rightarrow> as_u64_number n
      | _ \<Rightarrow> None)"
| "malformed_seq _ = None"

definition malformed_response :: "u32 \<Rightarrow> u64 \<Rightarrow> protocol_message" where
  "malformed_response s req =
     \<lparr>seq = s, mtype = MResponse \<lparr>request_seq = ucast req, success = False,
        result = RError '''' ''Malformed message'' None\<rparr>\<rparr>"

text \<open>One turn of the loop: the new state, the effects in order, and whether the loop goes on.\<close>

fun dispatch_step :: "dispatcher \<Rightarrow> 'e dispatcher_input \<Rightarrow> dispatcher \<times> dispatcher_effect list \<times> bool" where
  "dispatch_step d (FromChannel (Some (Inr (Inr message)))) =
     (case mtype message of
        MRequest request \<Rightarrow> (d, [BroadcastRequest (seq message) request], True)
      | MEvent event \<Rightarrow> (d, [BroadcastEvent event], True)
      | MResponse response \<Rightarrow>
          (case pending_requests d (request_seq response) of
             None \<Rightarrow> (d, [], True)
           | Some sender \<Rightarrow>
               (d\<lparr>pending_requests := (pending_requests d)(request_seq response := None)\<rparr>,
                [ReplyTo sender (result response)], True)))"
| "dispatch_step d (FromChannel (Some (Inr (Inl (SerdeError _ v))))) =
     (case malformed_seq v of
        None \<Rightarrow> (d, [], True)
      | Some req \<Rightarrow>
          (let s = message_seq d + 1
           in (d\<lparr>message_seq := s\<rparr>, [ChannelSend (malformed_response s req)], True)))"
| "dispatch_step d (FromChannel (Some (Inl err))) = (d, [], False)"
| "dispatch_step d (FromChannel None) = (d, [], False)"
| "dispatch_step d (FromOut (m, response_sender)) =
     (let s = message_seq d + 1
      in (d\<lparr>message_seq := s,
            pending_requests := (case response_sender of
               Some k \<Rightarrow> (pending_requests d)(s \<mapsto> k)
             | None \<Rightarrow> pending_requests d)\<rparr>,
          [ChannelSend \<lparr>seq = s, mtype = m\<rparr>], True))"

text \<open>The loop, with the effects of each turn beside its input.\<close>

fun dispatch_run :: "dispatcher \<Rightarrow> 'e dispatcher_input list \<Rightarrow>
    dispatcher \<times> ('e dispatcher_input \<times> dispatcher_effect list) list" where
  "dispatch_run d [] = (d, [])"
| "dispatch_run d (i # is) =
     (case dispatch_step d i of
        (d', es, True) \<Rightarrow> (let (d2, tr) = dispatch_run d' is in (d2, (i, es) # tr))
      | (d', es, False) \<Rightarrow> (d', [(i, es)]))"

section \<open>Client side\<close>

text \<open>
  The sending end of the bounded queue.  \<open>ch_try_send\<close> fails when the queue is full or closed; \<open>ch_send\<close> fails when it is
  closed, and is not ready (\<^const>\<open>None\<close>) as long as it is full.
\<close>

record 'c out_api =
  ch_try_send :: "'c \<Rightarrow> out_item \<Rightarrow> string + 'c"
  ch_send :: "'c \<Rightarrow> out_item \<Rightarrow> (string + 'c) option"
  ch_new_requestor :: "'c \<Rightarrow> requestor \<times> 'c"

definition try_send_response :: "'c out_api \<Rightarrow> 'c \<Rightarrow> response \<Rightarrow> string + 'c" where
  "try_send_response api q r = ch_try_send api q (MResponse r, None)"

definition try_send_event :: "'c out_api \<Rightarrow> 'c \<Rightarrow> event_body \<Rightarrow> string + 'c" where
  "try_send_event api q e = ch_try_send api q (MEvent e, None)"

text \<open>A reverse request: the first part, which waits for room, queues it with a fresh one-shot channel, the second
  reads the answer.\<close>

definition send_request :: "'c out_api \<Rightarrow> 'c \<Rightarrow> request_arguments \<Rightarrow> (string + (requestor \<times> 'c)) option" where
  "send_request api q args =
     (let (k, q1) = ch_new_requestor api q
      in case ch_send api q1 (MRequest args, Some k) of
           None \<Rightarrow> None
         | Some (Inl e) \<Rightarrow> Some (Inl e)
         | Some (Inr q2) \<Rightarrow> Some (Inr (k, q2)))"

fun request_answer :: "response_result \<Rightarrow> string + response_body" where
  "request_answer (Success body) = Inr body"
| "request_answer (RError _ message _) = Inl message"

section \<open>Sequence numbers\<close>

fun sent_of :: "dispatcher_effect \<Rightarrow> protocol_message list" where
  "sent_of (ChannelSend m) = [m]"
| "sent_of _ = []"

definition step_sent :: "dispatcher_effect list \<Rightarrow> protocol_message list" where
  "step_sent es = concat (map sent_of es)"

lemma step_sent_simps [simp]:
  "step_sent [] = []" "step_sent (e # es) = sent_of e @ step_sent es"
  by (simp_all add: step_sent_def)

definition sent :: "('e dispatcher_input \<times> dispatcher_effect list) list \<Rightarrow> protocol_message list" where
  "sent tr = concat (map (\<lambda>(_, es). step_sent es) tr)"

lemma sent_simps [simp]:
  "sent [] = []" "sent ((i, es) # tr) = step_sent es @ sent tr"
  by (simp_all add: sent_def)

lemma dispatch_step_sent:
  "dispatch_step d i = (d', es, b) \<Longrightarrow>
     (step_sent es = [] \<and> message_seq d' = message_seq d) \<or>
     (\<exists>m. step_sent es = [m] \<and> seq m = message_seq d + 1 \<and> message_seq d' = message_seq d + 1)"
  by (induction d i rule: dispatch_step.induct)
    (auto simp: Let_def malformed_response_def split: message_type.splits option.splits)

lemma dispatch_run_sent:
  "dispatch_run d is = (d', tr) \<Longrightarrow>
     (\<forall>n < length (sent tr). seq (sent tr ! n) = message_seq d + of_nat (Suc n)) \<and>
     message_seq d' = message_seq d + of_nat (length (sent tr))"
proof (induction "is" arbitrary: d tr)
  case Nil
  then show ?case by simp
next
  case (Cons i "is")
  obtain d1 es b where st: "dispatch_step d i = (d1, es, b)" by (metis prod_cases3)
  obtain tr1 where tr: "tr = (i, es) # tr1"
    and rest: "b \<Longrightarrow> dispatch_run d1 is = (d', tr1)" "\<not> b \<Longrightarrow> d' = d1 \<and> tr1 = []"
    using Cons.prems st by (cases b) (auto split: prod.splits)
  have IH: "(\<forall>n < length (sent tr1). seq (sent tr1 ! n) = message_seq d1 + of_nat (Suc n)) \<and>
     message_seq d' = message_seq d1 + of_nat (length (sent tr1))"
    using Cons.IH [of d1 tr1] rest by (cases b) auto
  show ?case
    using dispatch_step_sent [OF st] IH tr
    by (auto simp: nth_Cons split: nat.split)
qed

text \<open>
  Property C7.  The messages the adapter puts on the channel, replies to malformed requests
  included, carry the consecutive numbers 1, 2, 3, ... (modulo \<open>2 ^ 32\<close>) in the order in which
  they are sent.
\<close>

theorem dispatcher_seq_consecutive:
  "map seq (sent (snd (dispatch_run dispatcher_new is))) =
     map of_nat [1..<Suc (length (sent (snd (dispatch_run dispatcher_new is))))]"
proof -
  obtain d' tr where r: "dispatch_run dispatcher_new is = (d', tr)" by (cases "dispatch_run dispatcher_new is")
  have "map seq (sent tr) = map of_nat [1..<Suc (length (sent tr))]"
  proof (rule nth_equalityI)
    show "length (map seq (sent tr)) = length (map of_nat [1..<Suc (length (sent tr))])"
      by (simp del: upt_Suc)
    fix n
    assume "n < length (map seq (sent tr))"
    then show "map seq (sent tr) ! n = map of_nat [1..<Suc (length (sent tr))] ! n"
      using dispatch_run_sent [OF r] by (simp add: dispatcher_new_def del: upt_Suc)
  qed
  then show ?thesis using r by simp
qed

section \<open>Responses reach their requestors\<close>

fun replied_of :: "dispatcher_effect \<Rightarrow> requestor list" where
  "replied_of (ReplyTo k _) = [k]"
| "replied_of _ = []"

definition replied :: "('e dispatcher_input \<times> dispatcher_effect list) list \<Rightarrow> requestor list" where
  "replied tr = concat (map (\<lambda>(_, es). concat (map replied_of es)) tr)"

fun requestor_of :: "'e dispatcher_input \<Rightarrow> requestor list" where
  "requestor_of (FromOut (_, Some k)) = [k]"
| "requestor_of _ = []"

definition requestors :: "'e dispatcher_input list \<Rightarrow> requestor list" where
  "requestors is = concat (map requestor_of is)"

lemma replied_simps [simp]:
  "replied [] = []" "replied ((i, es) # tr) = concat (map replied_of es) @ replied tr"
  by (simp_all add: replied_def)

lemma requestors_simps [simp]:
  "requestors [] = []" "requestors (i # is) = requestor_of i @ requestors is"
  by (simp_all add: requestors_def)

text \<open>No two pending requests have the same requestor.\<close>

definition pending_inj :: "dispatcher \<Rightarrow> bool" where
  "pending_inj d \<longleftrightarrow>
     (\<forall>s s' k. pending_requests d s = Some k \<longrightarrow> pending_requests d s' = Some k \<longrightarrow> s = s')"

lemma dispatch_step_requestors:
  assumes "dispatch_step d i = (d', es, b)" "pending_inj d"
    and "set (requestor_of i) \<inter> ran (pending_requests d) = {}"
  shows "pending_inj d'"
    "distinct (concat (map replied_of es))"
    "set (concat (map replied_of es)) \<subseteq> ran (pending_requests d)"
    "ran (pending_requests d') \<subseteq> ran (pending_requests d) \<union> set (requestor_of i)"
    "set (concat (map replied_of es)) \<inter> ran (pending_requests d') = {}"
  using assms
proof (induction d i rule: dispatch_step.induct)
  case (1 d message)
  {
    case 1
    then show ?case
      by (auto simp: pending_inj_def split: message_type.splits option.splits if_splits)
  next
    case 2
    then show ?case by (auto split: message_type.splits option.splits)
  next
    case 3
    then show ?case by (auto simp: ran_def split: message_type.splits option.splits)
  next
    case 4
    then show ?case by (auto simp: ran_def split: message_type.splits option.splits if_splits)
  next
    case 5
    then show ?case
      by (force simp: pending_inj_def ran_def
          split: message_type.splits option.splits if_splits)
  }
next
  case (5 d m response_sender)
  {
    case 1
    then show ?case
      by (cases response_sender) (auto simp: Let_def pending_inj_def ran_def split: if_splits)
  next
    case 2
    then show ?case by (auto simp: Let_def)
  next
    case 3
    then show ?case by (auto simp: Let_def)
  next
    case 4
    then show ?case by (cases response_sender) (auto simp: Let_def ran_def split: if_splits)
  next
    case 5
    then show ?case by (auto simp: Let_def)
  }
qed (auto simp: Let_def pending_inj_def split: option.splits)

lemma dispatch_run_replied:
  assumes "dispatch_run d is = (d', tr)" "pending_inj d" "distinct (requestors is)"
    and "set (requestors is) \<inter> ran (pending_requests d) = {}"
  shows "distinct (replied tr) \<and> set (replied tr) \<subseteq> ran (pending_requests d) \<union> set (requestors is)"
  using assms
proof (induction "is" arbitrary: d tr)
  case Nil
  then show ?case by simp
next
  case (Cons i "is")
  obtain d1 es b where st: "dispatch_step d i = (d1, es, b)" by (metis prod_cases3)
  obtain tr1 where tr: "tr = (i, es) # tr1"
    and rest: "b \<Longrightarrow> dispatch_run d1 is = (d', tr1)" "\<not> b \<Longrightarrow> d' = d1 \<and> tr1 = []"
    using Cons.prems st by (cases b) (auto split: prod.splits)
  have i: "set (requestor_of i) \<inter> ran (pending_requests d) = {}" using Cons.prems(4) by auto
  note step = dispatch_step_requestors [OF st Cons.prems(2) i]
  have "set (requestors is) \<inter> ran (pending_requests d1) = {}"
    using Cons.prems(3,4) step(4) by auto
  then have "distinct (replied tr1) \<and> set (replied tr1) \<subseteq> ran (pending_requests d1) \<union> set (requestors is)"
    using Cons.IH [OF _ step(1)] rest Cons.prems(3) by (cases b) auto
  moreover from this have "set (concat (map replied_of es)) \<inter> set (replied tr1) = {}"
    using step(3,5) Cons.prems(4) by (simp only: requestors_simps set_append) blast
  ultimately show ?case using step(2-4) tr by auto
qed

text \<open>Where a reply comes from: a response whose number is that of a request sent before.\<close>

definition answers :: "'e dispatcher_input \<Rightarrow> u32 \<Rightarrow> response_result \<Rightarrow> bool" where
  "answers i s r \<longleftrightarrow> (\<exists>message response. i = FromChannel (Some (Inr (Inr message))) \<and>
     mtype message = MResponse response \<and> request_seq response = s \<and> result response = r)"

lemma dispatch_step_reply:
  "dispatch_step d i = (d', es, b) \<Longrightarrow> ReplyTo k r \<in> set es \<Longrightarrow>
     \<exists>s. pending_requests d s = Some k \<and> answers i s r"
  by (induction d i rule: dispatch_step.induct)
    (auto simp: Let_def answers_def split: message_type.splits option.splits)

lemma dispatch_step_pending:
  "dispatch_step d i = (d', es, b) \<Longrightarrow> pending_requests d' s = Some k \<Longrightarrow>
     pending_requests d s = Some k \<or>
     (\<exists>m. i = FromOut (m, Some k) \<and> es = [ChannelSend \<lparr>seq = s, mtype = m\<rparr>])"
  by (induction d i rule: dispatch_step.induct)
    (auto simp: Let_def split: message_type.splits option.splits if_splits)

lemma dispatch_run_reply:
  "dispatch_run d is = (d', tr) \<Longrightarrow> j < length tr \<Longrightarrow> ReplyTo k r \<in> set (snd (tr ! j)) \<Longrightarrow>
     \<exists>s. answers (fst (tr ! j)) s r \<and>
       (pending_requests d s = Some k \<or>
        (\<exists>i < j. \<exists>m. tr ! i = (FromOut (m, Some k), [ChannelSend \<lparr>seq = s, mtype = m\<rparr>])))"
proof (induction "is" arbitrary: d tr j)
  case Nil
  then show ?case by simp
next
  case (Cons i "is")
  obtain d1 es b where st: "dispatch_step d i = (d1, es, b)" by (metis prod_cases3)
  obtain tr1 where tr: "tr = (i, es) # tr1"
    and rest: "b \<Longrightarrow> dispatch_run d1 is = (d', tr1)" "\<not> b \<Longrightarrow> tr1 = []"
    using Cons.prems(1) st by (cases b) (auto split: prod.splits)
  show ?case
  proof (cases j)
    case 0
    then show ?thesis using dispatch_step_reply [OF st] Cons.prems(3) tr by auto
  next
    case (Suc j1)
    then have "b" using Cons.prems(2) tr rest(2) by (cases b) auto
    then obtain s where s: "answers (fst (tr1 ! j1)) s r"
      and c: "pending_requests d1 s = Some k \<or>
        (\<exists>i < j1. \<exists>m. tr1 ! i = (FromOut (m, Some k), [ChannelSend \<lparr>seq = s, mtype = m\<rparr>]))"
      using Cons.IH [OF rest(1), of j1] Cons.prems(2,3) tr Suc by auto
    from c have "pending_requests d s = Some k \<or>
        (\<exists>i < j. \<exists>m. tr ! i = (FromOut (m, Some k), [ChannelSend \<lparr>seq = s, mtype = m\<rparr>]))"
    proof
      assume "pending_requests d1 s = Some k"
      from dispatch_step_pending [OF st this] show ?thesis using tr Suc by force
    next
      assume "\<exists>i < j1. \<exists>m. tr1 ! i = (FromOut (m, Some k), [ChannelSend \<lparr>seq = s, mtype = m\<rparr>])"
      then show ?thesis using tr Suc by (metis Suc_mono nth_Cons_Suc)
    qed
    then show ?thesis using s tr Suc by auto
  qed
qed

text \<open>
  Property C8.  Replies are correlated: every requestor is answered at most once, and what it gets
  is the result of a response whose number is the number under which its own request was sent,
  earlier in the run.
\<close>

theorem replies_correlated:
  assumes "distinct (requestors is)" "dispatch_run dispatcher_new is = (d', tr)"
  shows "distinct (replied tr) \<and>
    (\<forall>j k r. j < length tr \<longrightarrow> ReplyTo k r \<in> set (snd (tr ! j)) \<longrightarrow>
      (\<exists>s. answers (fst (tr ! j)) s r \<and>
        (\<exists>i < j. \<exists>m. tr ! i = (FromOut (m, Some k), [ChannelSend \<lparr>seq = s, mtype = m\<rparr>]))))"
proof -
  have "distinct (replied tr)"
    using dispatch_run_replied [OF assms(2) _ assms(1)]
    by (simp add: pending_inj_def dispatcher_new_def)
  then show ?thesis
    using dispatch_run_reply [OF assms(2)] by (fastforce simp: dispatcher_new_def)
qed

definition sample_response :: protocol_message where
  "sample_response = \<lparr>seq = 7, mtype = MResponse \<lparr>request_seq = 1, success = True, result = Success Resp_startDebugging\<rparr>\<rparr>"

definition sample_inputs :: "unit dispatcher_input list" where
  "sample_inputs = [FromOut (MRequest Req_unknown, Some 5), FromOut (MEvent Ev_initialized, None),
     FromChannel (Some (Inr (Inr sample_response))), FromChannel (Some (Inr (Inr sample_response)))]"

theorem replies_correlated_witness:
  "distinct (replied (snd (dispatch_run dispatcher_new sample_inputs))) \<and>
   replied (snd (dispatch_run dispatcher_new sample_inputs)) = [5]"
proof -
  have "distinct (requestors sample_inputs)" by (simp add: sample_inputs_def)
  then have "distinct (replied (snd (dispatch_run dispatcher_new sample_inputs)))"
    using replies_correlated [of sample_inputs "fst (dispatch_run dispatcher_new sample_inputs)"
        "snd (dispatch_run dispatcher_new sample_inputs)"] by simp
  then show ?thesis
    by (simp add: sample_inputs_def sample_response_def dispatcher_new_def Let_def)
qed

fun live_input :: "'e dispatcher_input \<Rightarrow> bool" where
  "live_input (FromChannel None) = False"
| "live_input (FromChannel (Some (Inl _))) = False"
| "live_input _ = True"

lemma dispatch_step_live: "dispatch_step d i = (d', es, b) \<Longrightarrow> b = live_input i"
  by (induction d i rule: dispatch_step.induct)
    (auto simp: Let_def split: message_type.splits option.splits)

lemma dispatch_run_Cons_live:
  "live_input i \<Longrightarrow> dispatch_run d (i # is) =
     (case dispatch_step d i of (d1, es, _) \<Rightarrow> case dispatch_run d1 is of (d2, tr) \<Rightarrow> (d2, (i, es) # tr))"
  using dispatch_step_live [of d i] by (auto split: prod.split bool.splits)

lemma dispatch_run_append_live:
  "list_all live_input xs \<Longrightarrow> dispatch_run d (xs @ ys) =
     (case dispatch_run d xs of (d1, tr1) \<Rightarrow> case dispatch_run d1 ys of (d2, tr2) \<Rightarrow> (d2, tr1 @ tr2))"
  by (induction xs arbitrary: d) (auto simp: dispatch_run_Cons_live simp del: dispatch_run.simps(2) split: prod.split)

lemma dispatch_run_live_length:
  "list_all live_input xs \<Longrightarrow> dispatch_run d xs = (d', tr) \<Longrightarrow> length tr = length xs"
  by (induction xs arbitrary: d tr)
    (auto simp: dispatch_run_Cons_live simp del: dispatch_run.simps(2) split: prod.splits)

lemma sent_append [simp]: "sent (tr @ tr') = sent tr @ sent tr'"
  by (simp add: sent_def)

lemma dispatch_step_keeps_pending:
  assumes "dispatch_step d i = (d', es, b)" "pending_requests d s = Some k"
    and "\<forall>r. \<not> answers i s r" "message_seq d + 1 \<noteq> s"
  shows "pending_requests d' s = Some k"
  using assms
  by (induction d i rule: dispatch_step.induct)
    (auto simp: Let_def answers_def split: message_type.splits option.splits)

lemma dispatch_run_keeps_pending:
  assumes "list_all live_input is" "dispatch_run d is = (d', tr)" "pending_requests d s = Some k"
    and "\<forall>i \<in> set is. \<forall>r. \<not> answers i s r"
    and "\<forall>n < length (sent tr). message_seq d + of_nat (Suc n) \<noteq> s"
  shows "pending_requests d' s = Some k"
  using assms
proof (induction "is" arbitrary: d tr)
  case Nil
  then show ?case by simp
next
  case (Cons i "is")
  obtain d1 es b where st: "dispatch_step d i = (d1, es, b)" by (metis prod_cases3)
  obtain tr1 where run: "dispatch_run d1 is = (d', tr1)" and tr: "tr = (i, es) # tr1"
    using Cons.prems(1,2) st by (auto simp: dispatch_run_Cons_live simp del: dispatch_run.simps(2) split: prod.splits)
  have new: "message_seq d1 = message_seq d + of_nat (length (step_sent es))" "length (step_sent es) \<le> 1"
    using dispatch_step_sent [OF st] by auto
  have far: "message_seq d1 + of_nat (Suc n) \<noteq> s" if "n < length (sent tr1)" for n
    using Cons.prems(5) that tr new(1)
    by (auto simp: add.assoc dest!: spec [of _ "length (step_sent es) + n"])
  have "pending_requests d1 s = Some k"
  proof (cases "step_sent es = []")
    case True
    then show ?thesis
      using st Cons.prems(3,4)
      by (induction d i rule: dispatch_step.induct)
        (auto simp: Let_def answers_def split: message_type.splits option.splits)
  next
    case False
    then have "message_seq d + 1 \<noteq> s" using Cons.prems(5) tr by (force dest: spec [of _ 0])
    then show ?thesis using dispatch_step_keeps_pending [OF st Cons.prems(3)] Cons.prems(4) by simp
  qed
  then show ?case using Cons.IH [OF _ run] Cons.prems(1,4) far by simp
qed

text \<open>
  Property C9.  An answer is never lost: when a request went out for the requestor \<open>k\<close> with the number
  \<open>s\<close>, no response with this number has arrived since, and the sequence numbers have not wrapped
  around, the next response with the number \<open>s\<close> is handed to \<open>k\<close>.
\<close>

theorem response_delivered:
  assumes "list_all live_input (xs @ FromOut (m, Some k) # ys)"
    and "dispatch_run dispatcher_new (xs @ FromOut (m, Some k) # ys) = (d', tr)"
    and "tr ! length xs = (FromOut (m, Some k), [ChannelSend \<lparr>seq = s, mtype = m\<rparr>])"
    and "\<forall>i \<in> set ys. \<forall>r. \<not> answers i s r" "length (sent tr) < 2 ^ 32"
    and "answers i s r"
  shows "\<exists>d2. dispatch_step d' i = (d2, [ReplyTo k r], True)"
proof -
  obtain d1 tr1 where r1: "dispatch_run dispatcher_new xs = (d1, tr1)" by fastforce
  let ?out = "FromOut (m, Some k)"
  obtain d2 es where st: "dispatch_step d1 ?out = (d2, es, True)" by (simp add: Let_def)
  obtain tr3 where r3: "dispatch_run d2 ys = (d', tr3)" and tr: "tr = tr1 @ (?out, es) # tr3"
    using assms(1,2) r1 st dispatch_run_append_live [of xs dispatcher_new "?out # ys"]
    by (auto split: prod.splits)
  have "length tr1 = length xs" using dispatch_run_live_length [OF _ r1] assms(1) by simp
  then have es: "es = [ChannelSend \<lparr>seq = s, mtype = m\<rparr>]" using assms(3) tr by (simp add: nth_append)
  then have s: "message_seq d2 = s" "pending_requests d2 s = Some k"
    using st by (auto simp: Let_def)
  have "(of_nat (Suc n) :: u32) \<noteq> 0" if "n < length (sent tr3)" for n
  proof -
    have "Suc n < 2 ^ 32" using that assms(5) tr by simp
    then have "unat (of_nat (Suc n) :: u32) = Suc n" by (intro of_nat_inverse [OF refl]) simp
    then show ?thesis by (metis nat.distinct(1) unat_0)
  qed
  then have "\<forall>n < length (sent tr3). message_seq d2 + of_nat (Suc n) \<noteq> s"
    using s(1) by (metis add_cancel_left_right)
  then have "pending_requests d' s = Some k"
    using dispatch_run_keeps_pending [OF _ r3 s(2) assms(4)] assms(1) by simp
  then show ?thesis using assms(6) by (auto simp: answers_def)
qed

theorem response_delivered_witness:
  "\<exists>d2. dispatch_step (fst (dispatch_run dispatcher_new
      ([] @ FromOut (MRequest Req_unknown, Some 5) # [FromOut (MEvent Ev_initialized, None)])))
      (FromChannel (Some (Inr (Inr sample_response))) :: unit dispatcher_input) =
    (d2, [ReplyTo 5 (Success Resp_startDebugging)], True)"
  by (rule response_delivered [of "[]" "MRequest Req_unknown" 5 "[FromOut (MEvent Ev_initialized, None)]" _
        "snd (dispatch_run dispatcher_new ([] @ FromOut (MRequest Req_unknown, Some 5) # [FromOut (MEvent Ev_initialized, None)]))" 1])
    (auto simp: dispatcher_new_def Let_def answers_def sample_response_def)

end
