(* ===== verification/Cancellation.thy ===== *)
theory Cancellation
  imports Messages
begin

text \<open>
  Cancellation tokens (\<^verbatim>\<open>cancellation.rs\<close>) and the task that pairs every request with a token and acts
  on cancel requests (\<^verbatim>\<open>DebugSession::cancellation_filter\<close>).

  The shared \<^verbatim>\<open>Inner\<close> objects are cells of a store, a list which only grows; a sender or receiver is
  the number of its cell.  A callback is represented by a number, and \<^verbatim>\<open>send\<close> returns the callbacks it
  runs.  The filter task runs beside the main loop, which finishes requests (dropping their
  receivers) and adds callbacks at any moment: a step of the system is a step of either.
\<close>

section \<open>Tokens\<close>

record inner =
  flag :: bool
  receiver_count :: u16
  callbacks :: "nat list"

type_synonym token = nat
type_synonym store = "inner list"

definition sender_new :: "store \<Rightarrow> token \<times> store" where
  "sender_new st = (length st, st @ [\<lparr>flag = False, receiver_count = 0, callbacks = []\<rparr>])"

definition subscribe :: "store \<Rightarrow> token \<Rightarrow> store" where
  "subscribe st t = st[t := (st ! t)\<lparr>receiver_count := receiver_count (st ! t) + 1\<rparr>]"

definition token_send :: "store \<Rightarrow> token \<Rightarrow> nat list \<times> store" where
  "token_send st t = (callbacks (st ! t), st[t := (st ! t)\<lparr>flag := True\<rparr>])"

definition sender_receiver_count :: "store \<Rightarrow> token \<Rightarrow> nat" where
  "sender_receiver_count st t = unat (receiver_count (st ! t))"

definition is_cancelled :: "store \<Rightarrow> token \<Rightarrow> bool" where
  "is_cancelled st t = flag (st ! t)"

definition add_callback :: "store \<Rightarrow> token \<Rightarrow> nat \<Rightarrow> store" where
  "add_callback st t cb = st[t := (st ! t)\<lparr>callbacks := callbacks (st ! t) @ [cb]\<rparr>]"

definition receiver_clone :: "store \<Rightarrow> token \<Rightarrow> store" where
  "receiver_clone st t = st[t := (st ! t)\<lparr>receiver_count := receiver_count (st ! t) + 1\<rparr>]"

definition receiver_drop :: "store \<Rightarrow> token \<Rightarrow> store" where
  "receiver_drop st t = st[t := (st ! t)\<lparr>receiver_count := receiver_count (st ! t) - 1\<rparr>]"

definition dummy :: "store \<Rightarrow> token \<times> store" where
  "dummy st = (let (t, st1) = sender_new st in (t, subscribe st1 t))"

section \<open>The filter\<close>

record cancel_filter =
  tokens :: store
  pending_requests :: "(u32 \<times> token) list"
  cancellable_requests :: "token list"
  forwarded :: "(u32 \<times> request_arguments \<times> token) list"
  callbacks_run :: "nat list"

definition filter_new :: cancel_filter where
  "filter_new = \<lparr>tokens = [], pending_requests = [], cancellable_requests = [], forwarded = [],
     callbacks_run = []\<rparr>"

text \<open>Requests that may be cancelled, and requests that cancel them.\<close>

fun may_be_cancelled :: "request_arguments \<Rightarrow> bool" where
  "may_be_cancelled (Req_scopes _) = True"
| "may_be_cancelled (Req_variables _) = True"
| "may_be_cancelled (Req_evaluate _) = True"
| "may_be_cancelled _ = False"

fun will_cancel :: "request_arguments \<Rightarrow> bool" where
  "will_cancel (Req_continue _) = True"
| "will_cancel (Req_pause _) = True"
| "will_cancel (Req_next _) = True"
| "will_cancel (Req_stepIn _) = True"
| "will_cancel (Req_stepOut _) = True"
| "will_cancel (Req_stepBack _) = True"
| "will_cancel (Req_reverseContinue _) = True"
| "will_cancel (Req_terminate _) = True"
| "will_cancel (Req_disconnect _) = True"
| "will_cancel _ = False"

fun send_all :: "store \<Rightarrow> token list \<Rightarrow> nat list \<times> store" where
  "send_all st [] = ([], st)"
| "send_all st (t # ts) =
     (let (cbs, st1) = token_send st t; (cbs2, st2) = send_all st1 ts in (cbs @ cbs2, st2))"

text \<open>What the filter does with one request.  A cancel request is not forwarded, and dropping its
  own receiver at the end of the turn leaves its token unused.\<close>

definition filter_request :: "cancel_filter \<Rightarrow> u32 \<Rightarrow> request_arguments \<Rightarrow> cancel_filter" where
  "filter_request f sq request =
     (let (sender, st0) = sender_new (tokens f);
          st1 = subscribe st0 sender;
          pending = filter (\<lambda>(k, v). sender_receiver_count st1 v > 0) (pending_requests f);
          cancellable = filter (\<lambda>v. sender_receiver_count st1 v > 0) (cancellable_requests f)
      in case request of
           Req_cancel args \<Rightarrow>
             (case ca_request_id args of
                None \<Rightarrow> f\<lparr>tokens := receiver_drop st1 sender, pending_requests := pending,
                          cancellable_requests := cancellable\<rparr>
              | Some rid \<Rightarrow>
                  (case hm_get pending (as_u32 rid) of
                     None \<Rightarrow> f\<lparr>tokens := receiver_drop st1 sender, pending_requests := pending,
                               cancellable_requests := cancellable\<rparr>
                   | Some s \<Rightarrow>
                       (let (cbs, st2) = token_send st1 s
                        in f\<lparr>tokens := receiver_drop st2 sender,
                             pending_requests := hm_remove (as_u32 rid) pending,
                             cancellable_requests := cancellable,
                             callbacks_run := callbacks_run f @ cbs\<rparr>)))
         | _ \<Rightarrow>
             (let cancellable2 = (if may_be_cancelled request then cancellable @ [sender] else cancellable);
                  (cbs, st2) = (if will_cancel request then send_all st1 cancellable2 else ([], st1))
              in f\<lparr>tokens := st2,
                   pending_requests := hm_insert sq sender pending,
                   cancellable_requests := cancellable2,
                   forwarded := forwarded f @ [(sq, request, sender)],
                   callbacks_run := callbacks_run f @ cbs\<rparr>))"

text \<open>The system: requests arrive, the main loop finishes a forwarded request whose receiver is
  still there, and registers callbacks with tokens.\<close>

datatype cancel_event =
    Arrives u32 request_arguments
  | Finishes token
  | Registers token nat

inductive cancel_step :: "cancel_filter \<Rightarrow> cancel_event \<Rightarrow> cancel_filter \<Rightarrow> bool" where
  arrives: "cancel_step f (Arrives sq request) (filter_request f sq request)"
| finishes: "(sq, request, t) \<in> set (forwarded f) \<Longrightarrow> 0 < sender_receiver_count (tokens f) t \<Longrightarrow>
    cancel_step f (Finishes t) (f\<lparr>tokens := receiver_drop (tokens f) t\<rparr>)"
| registers: "(sq, request, t) \<in> set (forwarded f) \<Longrightarrow>
    cancel_step f (Registers t cb) (f\<lparr>tokens := add_callback (tokens f) t cb\<rparr>)"

inductive cancel_run :: "cancel_filter \<Rightarrow> cancel_event list \<Rightarrow> cancel_filter \<Rightarrow> bool" where
  run_nil: "cancel_run f [] f"
| run_snoc: "cancel_run f es f1 \<Longrightarrow> cancel_step f1 e f2 \<Longrightarrow> cancel_run f (es @ [e]) f2"

inductive_cases cancel_runE: "cancel_run f es f'"

section \<open>Specification\<close>

text \<open>What a client may rely on: every request but \<^verbatim>\<open>cancel\<close> goes to the main loop, in order; a cancel
  request cancels the last request with its number, if it is not finished; a request that resumes or
  ends the debuggee cancels the unfinished requests for scopes, variables and evaluation that came
  before it; nothing else is ever cancelled.\<close>

record request_status =
  rs_seq :: u32
  rs_request :: request_arguments
  rs_token :: token
  rs_alive :: bool
  rs_cancelled :: bool

definition cancel_where :: "(request_status \<Rightarrow> bool) \<Rightarrow> request_status list \<Rightarrow> request_status list" where
  "cancel_where p es = map (\<lambda>e. if rs_alive e \<and> p e then e\<lparr>rs_cancelled := True\<rparr> else e) es"

definition last_with :: "u32 \<Rightarrow> request_status list \<Rightarrow> token option" where
  "last_with s es = map_of (rev (map (\<lambda>e. (rs_seq e, rs_token e)) es)) s"

fun is_cancel :: "request_arguments \<Rightarrow> bool" where
  "is_cancel (Req_cancel _) = True"
| "is_cancel _ = False"

fun spec_step :: "nat \<times> request_status list \<Rightarrow> cancel_event \<Rightarrow> nat \<times> request_status list" where
  "spec_step (n, es) (Arrives sq request) =
     (Suc n,
      case request of
        Req_cancel args \<Rightarrow>
          (case ca_request_id args of
             None \<Rightarrow> es
           | Some rid \<Rightarrow> cancel_where (\<lambda>e. last_with (as_u32 rid) es = Some (rs_token e)) es)
      | _ \<Rightarrow>
          (if will_cancel request then cancel_where (\<lambda>e. may_be_cancelled (rs_request e)) es else es) @
          [\<lparr>rs_seq = sq, rs_request = request, rs_token = n, rs_alive = True, rs_cancelled = False\<rparr>])"
| "spec_step (n, es) (Finishes t) =
     (n, map (\<lambda>e. if rs_token e = t then e\<lparr>rs_alive := False\<rparr> else e) es)"
| "spec_step (n, es) (Registers t cb) = (n, es)"

definition abs_entry :: "store \<Rightarrow> u32 \<times> request_arguments \<times> token \<Rightarrow> request_status" where
  "abs_entry st x = (case x of (s, r, t) \<Rightarrow>
     \<lparr>rs_seq = s, rs_request = r, rs_token = t, rs_alive = 0 < sender_receiver_count st t,
      rs_cancelled = is_cancelled st t\<rparr>)"

definition abs_filter :: "cancel_filter \<Rightarrow> nat \<times> request_status list" where
  "abs_filter f = (length (tokens f), map (abs_entry (tokens f)) (forwarded f))"

section \<open>The store\<close>

abbreviation alive :: "store \<Rightarrow> token \<Rightarrow> bool" where
  "alive st t \<equiv> 0 < sender_receiver_count st t"

definition fresh_cell :: inner where
  "fresh_cell = \<lparr>flag = False, receiver_count = 1, callbacks = []\<rparr>"

definition unused_cell :: inner where
  "unused_cell = \<lparr>flag = False, receiver_count = 0, callbacks = []\<rparr>"

text \<open>Sending to several tokens.\<close>

definition mark :: "token set \<Rightarrow> store \<Rightarrow> store" where
  "mark A st = map (\<lambda>t. if t \<in> A then (st ! t)\<lparr>flag := True\<rparr> else st ! t) [0..<length st]"

lemma length_mark [simp]: "length (mark A st) = length st"
  by (simp add: mark_def)

lemma nth_mark: "t < length st \<Longrightarrow> mark A st ! t = (if t \<in> A then (st ! t)\<lparr>flag := True\<rparr> else st ! t)"
  by (simp add: mark_def)

lemma mark_empty [simp]: "mark {} st = st"
  by (simp add: mark_def map_nth)

lemma token_send_mark: "snd (token_send st t) = mark {t} st"
  by (auto simp: token_send_def nth_mark nth_list_update intro: nth_equalityI)

lemma mark_mark: "mark A (mark B st) = mark (A \<union> B) st"
  by (rule nth_equalityI) (auto simp: nth_mark)

lemma send_all_mark: "snd (send_all st ts) = mark (set ts) st"
  by (induction ts arbitrary: st)
    (auto simp: token_send_mark mark_mark Let_def split_beta Un_commute)

lemma mark_append: "A \<subseteq> {..<length st} \<Longrightarrow> mark A (st @ [c]) = mark A st @ [c]"
  by (rule nth_equalityI) (auto simp: nth_mark nth_append subset_iff)

lemma count_mark [simp]:
  "t < length st \<Longrightarrow> sender_receiver_count (mark A st) t = sender_receiver_count st t"
  by (simp add: sender_receiver_count_def nth_mark)

lemma is_cancelled_mark [simp]:
  "t < length st \<Longrightarrow> is_cancelled (mark A st) t \<longleftrightarrow> is_cancelled st t \<or> t \<in> A"
  by (simp add: is_cancelled_def nth_mark)

lemma store_append [simp]:
  "t < length st \<Longrightarrow> sender_receiver_count (st @ [c]) t = sender_receiver_count st t"
  "t < length st \<Longrightarrow> is_cancelled (st @ [c]) t = is_cancelled st t"
  by (simp_all add: sender_receiver_count_def is_cancelled_def nth_append)

lemma store_last [simp]:
  "n = length st \<Longrightarrow> sender_receiver_count (st @ [c]) n = unat (receiver_count c)"
  "n = length st \<Longrightarrow> is_cancelled (st @ [c]) n = flag c"
  by (simp_all add: sender_receiver_count_def is_cancelled_def)

lemma cell_simps [simp]:
  "receiver_count fresh_cell = 1" "flag fresh_cell = False"
  "receiver_count unused_cell = 0" "flag unused_cell = False"
  by (simp_all add: fresh_cell_def unused_cell_def)

lemma new_token:
  "sender_new st = (length st, st @ [unused_cell])"
  "subscribe (st @ [unused_cell]) (length st) = st @ [fresh_cell]"
  "receiver_drop (st @ [fresh_cell]) (length st) = st @ [unused_cell]"
  by (simp_all add: sender_new_def subscribe_def receiver_drop_def fresh_cell_def unused_cell_def)

section \<open>Invariant\<close>

abbreviation fwd_tokens :: "cancel_filter \<Rightarrow> token list" where
  "fwd_tokens f \<equiv> map (\<lambda>(s, r, t). t) (forwarded f)"

definition fwd_last :: "cancel_filter \<Rightarrow> u32 \<Rightarrow> token option" where
  "fwd_last f s = map_of (rev (map (\<lambda>(s, r, t). (s, t)) (forwarded f))) s"

definition tokens_ok :: "cancel_filter \<Rightarrow> bool" where
  "tokens_ok f \<longleftrightarrow> distinct (fwd_tokens f) \<and>
     (\<forall>(s, r, t) \<in> set (forwarded f). t < length (tokens f) \<and> \<not> is_cancel r) \<and>
     (\<forall>t < length (tokens f). sender_receiver_count (tokens f) t \<le> 1)"

definition pending_ok :: "cancel_filter \<Rightarrow> bool" where
  "pending_ok f \<longleftrightarrow> hm_wf (pending_requests f) \<and>
     (\<forall>s t. hm_get (pending_requests f) s = Some t \<longrightarrow> fwd_last f s = Some t) \<and>
     (\<forall>s t. fwd_last f s = Some t \<longrightarrow> alive (tokens f) t \<longrightarrow> \<not> is_cancelled (tokens f) t \<longrightarrow>
        hm_get (pending_requests f) s = Some t)"

definition cancellable_ok :: "cancel_filter \<Rightarrow> bool" where
  "cancellable_ok f \<longleftrightarrow>
     (\<forall>t \<in> set (cancellable_requests f). \<exists>s r. (s, r, t) \<in> set (forwarded f) \<and> may_be_cancelled r) \<and>
     (\<forall>(s, r, t) \<in> set (forwarded f). may_be_cancelled r \<longrightarrow> alive (tokens f) t \<longrightarrow>
        t \<in> set (cancellable_requests f))"

definition filter_inv :: "cancel_filter \<Rightarrow> bool" where
  "filter_inv f \<longleftrightarrow> tokens_ok f \<and> pending_ok f \<and> cancellable_ok f"

lemma filter_inv_new: "filter_inv filter_new"
  by (simp add: filter_inv_def filter_new_def tokens_ok_def pending_ok_def cancellable_ok_def fwd_last_def)

lemma fwd_last_in: "fwd_last f s = Some t \<Longrightarrow> \<exists>r. (s, r, t) \<in> set (forwarded f)"
  by (auto simp: fwd_last_def dest!: map_of_SomeD)

lemma map_of_filter_alive:
  assumes "hm_wf m"
  shows "hm_get (filter (\<lambda>(k, v). p v) m) k =
     (case hm_get m k of None \<Rightarrow> None | Some v \<Rightarrow> if p v then Some v else None)"
  using assms
proof (induction m)
  case Nil
  then show ?case by simp
next
  case (Cons x m)
  have wf: "hm_wf m" using Cons.prems by (simp add: hm_wf_def)
  show ?case
  proof (cases "fst x = k")
    case True
    then have "hm_get m k = None" using Cons.prems by (auto simp: hm_wf_def map_of_eq_None_iff)
    then show ?thesis using Cons.IH [OF wf] True by (auto split: prod.splits)
  next
    case False
    then show ?thesis using Cons.IH [OF wf] by (auto split: prod.splits)
  qed
qed

lemma hm_wf_filter: "hm_wf m \<Longrightarrow> hm_wf (filter p m)"
  unfolding hm_wf_def by (rule distinct_map_filter)

text \<open>The tokens a request cancels.\<close>

definition hits :: "cancel_filter \<Rightarrow> request_arguments \<Rightarrow> token set" where
  "hits f request =
     (case request of
        Req_cancel args \<Rightarrow>
          (case ca_request_id args of
             None \<Rightarrow> {}
           | Some rid \<Rightarrow> {t. hm_get (pending_requests f) (as_u32 rid) = Some t \<and> alive (tokens f) t})
      | _ \<Rightarrow> if will_cancel request then {t \<in> set (cancellable_requests f). alive (tokens f) t} else {})"

lemma will_may_disjoint: "will_cancel r \<Longrightarrow> \<not> may_be_cancelled r"
  by (cases r) simp_all

lemma is_cancel_iff: "is_cancel r \<longleftrightarrow> (\<exists>args. r = Req_cancel args)"
  by (cases r) simp_all

lemma filter_inv_bounds:
  assumes "filter_inv f"
  shows "(s, r, t) \<in> set (forwarded f) \<Longrightarrow> t < length (tokens f)"
    "hm_get (pending_requests f) s = Some t \<Longrightarrow> t < length (tokens f)"
    "t \<in> set (cancellable_requests f) \<Longrightarrow> t < length (tokens f)"
proof -
  show fwd: "(s, r, t) \<in> set (forwarded f) \<Longrightarrow> t < length (tokens f)" for s r t
    using assms by (force simp: filter_inv_def tokens_ok_def)
  show "hm_get (pending_requests f) s = Some t \<Longrightarrow> t < length (tokens f)"
  proof -
    assume "hm_get (pending_requests f) s = Some t"
    then have "fwd_last f s = Some t" using assms unfolding filter_inv_def pending_ok_def by blast
    then show ?thesis using fwd fwd_last_in by blast
  qed
  show "t \<in> set (cancellable_requests f) \<Longrightarrow> t < length (tokens f)"
  proof -
    assume "t \<in> set (cancellable_requests f)"
    then obtain s r where "(s, r, t) \<in> set (forwarded f)"
      using assms by (auto simp: filter_inv_def cancellable_ok_def)
    then show ?thesis by (rule fwd)
  qed
qed

definition retained :: "cancel_filter \<Rightarrow> u32 \<Rightarrow> token option" where
  "retained f s = (case hm_get (pending_requests f) s of
     None \<Rightarrow> None | Some t \<Rightarrow> if alive (tokens f) t then Some t else None)"

definition kept_pending :: "cancel_filter \<Rightarrow> (u32 \<times> token) list" where
  "kept_pending f = filter (\<lambda>(k, v). alive (tokens f) v) (pending_requests f)"

definition kept_cancellable :: "cancel_filter \<Rightarrow> token list" where
  "kept_cancellable f = filter (alive (tokens f)) (cancellable_requests f)"

lemma hm_get_kept: "filter_inv f \<Longrightarrow> hm_get (kept_pending f) s = retained f s"
  unfolding kept_pending_def retained_def
  by (rule map_of_filter_alive) (simp add: filter_inv_def pending_ok_def)

lemma kept_eq:
  assumes "filter_inv f"
  shows "filter (\<lambda>(k, v). alive (tokens f @ [c]) v) (pending_requests f) = kept_pending f"
    "filter (\<lambda>v. alive (tokens f @ [c]) v) (cancellable_requests f) = kept_cancellable f"
proof -
  have "t < length (tokens f)" if "(s, t) \<in> set (pending_requests f)" for s t
  proof -
    have "hm_wf (pending_requests f)" using assms by (simp add: filter_inv_def pending_ok_def)
    then show ?thesis using that hm_in_set_get filter_inv_bounds(2) [OF assms] by metis
  qed
  then show "filter (\<lambda>(k, v). alive (tokens f @ [c]) v) (pending_requests f) = kept_pending f"
    unfolding kept_pending_def by (auto intro!: filter_cong)
  show "filter (\<lambda>v. alive (tokens f @ [c]) v) (cancellable_requests f) = kept_cancellable f"
    unfolding kept_cancellable_def using filter_inv_bounds(3) [OF assms] by (auto intro!: filter_cong)
qed

text \<open>The effect of one request on each part of the state.\<close>

lemma filter_request_cancel:
  assumes inv: "filter_inv f"
  shows "tokens (filter_request f sq (Req_cancel args)) = mark (hits f (Req_cancel args)) (tokens f) @ [unused_cell]"
    "forwarded (filter_request f sq (Req_cancel args)) = forwarded f"
    "cancellable_requests (filter_request f sq (Req_cancel args)) = kept_cancellable f"
    "pending_requests (filter_request f sq (Req_cancel args)) =
       (case ca_request_id args of
          None \<Rightarrow> kept_pending f
        | Some rid \<Rightarrow> if retained f (as_u32 rid) = None then kept_pending f
            else hm_remove (as_u32 rid) (kept_pending f))"
proof -
  have bound: "t < length (tokens f)" "hm_get (pending_requests f) s = Some t \<and> alive (tokens f) t"
    if "retained f s = Some t" for s t
    using that filter_inv_bounds(2) [OF inv] by (auto simp: retained_def split: option.splits if_splits)
  have hit: "hits f (Req_cancel args) = (case ca_request_id args of None \<Rightarrow> {}
      | Some rid \<Rightarrow> set_option (retained f (as_u32 rid)))"
    by (auto simp: hits_def retained_def split: option.splits)
  have drop_send: "receiver_drop (snd (token_send (tokens f @ [fresh_cell]) t)) (length (tokens f)) =
      mark {t} (tokens f) @ [unused_cell]" if "t < length (tokens f)" for t
  proof -
    have "snd (token_send (tokens f @ [fresh_cell]) t) = mark {t} (tokens f) @ [fresh_cell]"
      using that by (simp add: token_send_mark mark_append)
    then show ?thesis using new_token(3) [of "mark {t} (tokens f)"] by simp
  qed
  note simps = filter_request_def new_token kept_eq [OF inv] hm_get_kept [OF inv] hit Let_def split_beta
  show "tokens (filter_request f sq (Req_cancel args)) = mark (hits f (Req_cancel args)) (tokens f) @ [unused_cell]"
    using bound(1) by (auto simp: simps drop_send split: option.split)
  show "forwarded (filter_request f sq (Req_cancel args)) = forwarded f"
    "cancellable_requests (filter_request f sq (Req_cancel args)) = kept_cancellable f"
    "pending_requests (filter_request f sq (Req_cancel args)) =
       (case ca_request_id args of
          None \<Rightarrow> kept_pending f
        | Some rid \<Rightarrow> if retained f (as_u32 rid) = None then kept_pending f
            else hm_remove (as_u32 rid) (kept_pending f))"
    by (auto simp: simps split: option.split)
qed

lemma filter_request_forward:
  assumes inv: "filter_inv f" and "\<not> is_cancel r"
  shows "tokens (filter_request f sq r) = mark (hits f r) (tokens f) @ [fresh_cell]"
    "forwarded (filter_request f sq r) = forwarded f @ [(sq, r, length (tokens f))]"
    "cancellable_requests (filter_request f sq r) =
       kept_cancellable f @ (if may_be_cancelled r then [length (tokens f)] else [])"
    "pending_requests (filter_request f sq r) = hm_insert sq (length (tokens f)) (kept_pending f)"
proof -
  have fwd: "filter_request f sq r =
    (let cancellable2 = (if may_be_cancelled r then kept_cancellable f @ [length (tokens f)] else kept_cancellable f);
         (cbs, st2) = (if will_cancel r then send_all (tokens f @ [fresh_cell]) cancellable2 else ([], tokens f @ [fresh_cell]))
     in f\<lparr>tokens := st2, pending_requests := hm_insert sq (length (tokens f)) (kept_pending f),
          cancellable_requests := cancellable2, forwarded := forwarded f @ [(sq, r, length (tokens f))],
          callbacks_run := callbacks_run f @ cbs\<rparr>)"
    using assms(2) by (cases r) (simp_all add: filter_request_def new_token kept_eq [OF inv])
  have sub: "set (kept_cancellable f) \<subseteq> {..<length (tokens f)}"
    using filter_inv_bounds(3) [OF inv] by (auto simp: kept_cancellable_def)
  have hit: "hits f r = (if will_cancel r then set (kept_cancellable f) else {})"
    using assms(2) by (cases r) (auto simp: hits_def kept_cancellable_def)
  show "tokens (filter_request f sq r) = mark (hits f r) (tokens f) @ [fresh_cell]"
    using will_may_disjoint [of r] by (auto simp: fwd hit Let_def split_beta send_all_mark mark_append [OF sub])
  show "forwarded (filter_request f sq r) = forwarded f @ [(sq, r, length (tokens f))]"
    "cancellable_requests (filter_request f sq r) =
       kept_cancellable f @ (if may_be_cancelled r then [length (tokens f)] else [])"
    "pending_requests (filter_request f sq r) = hm_insert sq (length (tokens f)) (kept_pending f)"
    by (simp_all add: fwd Let_def split_beta)
qed

lemma filter_invD:
  assumes "filter_inv f"
  shows "distinct (fwd_tokens f)" "hm_wf (pending_requests f)"
    "(s, r, t) \<in> set (forwarded f) \<Longrightarrow> \<not> is_cancel r"
    "t < length (tokens f) \<Longrightarrow> sender_receiver_count (tokens f) t \<le> 1"
    "hm_get (pending_requests f) s = Some t \<Longrightarrow> fwd_last f s = Some t"
    "fwd_last f s = Some t \<Longrightarrow> alive (tokens f) t \<Longrightarrow> \<not> is_cancelled (tokens f) t \<Longrightarrow>
       hm_get (pending_requests f) s = Some t"
    "t \<in> set (cancellable_requests f) \<Longrightarrow> \<exists>s r. (s, r, t) \<in> set (forwarded f) \<and> may_be_cancelled r"
    "(s, r, t) \<in> set (forwarded f) \<Longrightarrow> may_be_cancelled r \<Longrightarrow> alive (tokens f) t \<Longrightarrow>
       t \<in> set (cancellable_requests f)"
proof -
  have ok: "tokens_ok f" "pending_ok f" "cancellable_ok f" using assms by (simp_all add: filter_inv_def)
  show "distinct (fwd_tokens f)" "(s, r, t) \<in> set (forwarded f) \<Longrightarrow> \<not> is_cancel r"
    "t < length (tokens f) \<Longrightarrow> sender_receiver_count (tokens f) t \<le> 1"
    using ok(1) by (auto simp: tokens_ok_def)
  show "hm_wf (pending_requests f)"
    "hm_get (pending_requests f) s = Some t \<Longrightarrow> fwd_last f s = Some t"
    "fwd_last f s = Some t \<Longrightarrow> alive (tokens f) t \<Longrightarrow> \<not> is_cancelled (tokens f) t \<Longrightarrow>
       hm_get (pending_requests f) s = Some t"
    using ok(2) unfolding pending_ok_def by blast+
  show "t \<in> set (cancellable_requests f) \<Longrightarrow> \<exists>s r. (s, r, t) \<in> set (forwarded f) \<and> may_be_cancelled r"
    "(s, r, t) \<in> set (forwarded f) \<Longrightarrow> may_be_cancelled r \<Longrightarrow> alive (tokens f) t \<Longrightarrow>
       t \<in> set (cancellable_requests f)"
    using ok(3) unfolding cancellable_ok_def by auto
qed

lemma retainedD: "retained f s = Some t \<Longrightarrow> hm_get (pending_requests f) s = Some t \<and> alive (tokens f) t"
  by (auto simp: retained_def split: option.splits if_splits)

lemma retainedI: "hm_get (pending_requests f) s = Some t \<Longrightarrow> alive (tokens f) t \<Longrightarrow> retained f s = Some t"
  by (simp add: retained_def)

lemma hm_wf_kept: "filter_inv f \<Longrightarrow> hm_wf (kept_pending f)"
  unfolding kept_pending_def by (intro hm_wf_filter filter_invD(2))

lemma cancel_keeps_inv:
  assumes inv: "filter_inv f"
  shows "filter_inv (filter_request f sq (Req_cancel args))" (is "filter_inv ?f")
  unfolding filter_inv_def
proof (intro conjI)
  note new = filter_request_cancel [OF inv, of sq args]
  note bound = filter_inv_bounds [OF inv]
  have last: "fwd_last ?f = fwd_last f" by (simp add: fwd_last_def fun_eq_iff new(2))
  show "tokens_ok ?f"
    unfolding tokens_ok_def new(1,2)
    using filter_invD(1,3,4) [OF inv] bound(1) by (auto simp: less_Suc_eq)
  show "pending_ok ?f"
    unfolding pending_ok_def
  proof (intro conjI allI impI)
    show "hm_wf (pending_requests ?f)" using hm_wf_kept [OF inv] by (auto simp: new(4) split: option.split)
    fix s t
    show "fwd_last ?f s = Some t" if "hm_get (pending_requests ?f) s = Some t"
    proof -
      have "retained f s = Some t"
        using that by (auto simp: new(4) hm_get_kept [OF inv] hm_get_remove split: option.splits if_splits)
      then show ?thesis using last retainedD filter_invD(5) [OF inv] by metis
    qed
    show "hm_get (pending_requests ?f) s = Some t" if fl: "fwd_last ?f s = Some t"
      and al: "alive (tokens ?f) t" and nc: "\<not> is_cancelled (tokens ?f) t"
    proof -
      have t: "fwd_last f s = Some t" "t < length (tokens f)" using fl last fwd_last_in bound(1) by metis+
      then have *: "alive (tokens f) t" "\<not> is_cancelled (tokens f) t" "t \<notin> hits f (Req_cancel args)"
        using al nc by (simp_all add: new(1))
      then have "hm_get (pending_requests f) s = Some t" using filter_invD(6) [OF inv t(1)] by blast
      then have "retained f s = Some t" "ca_request_id args = Some rid \<Longrightarrow> s \<noteq> as_u32 rid" for rid
        using * by (auto simp: hits_def intro: retainedI)
      then show ?thesis by (auto simp: new(4) hm_get_kept [OF inv] hm_get_remove split: option.split)
    qed
  qed
  show "cancellable_ok ?f"
    unfolding cancellable_ok_def new(1,2,3)
    using filter_invD(7,8) [OF inv] bound(1) by (auto simp: kept_cancellable_def)
qed

lemma forward_keeps_inv:
  assumes inv: "filter_inv f" and nc: "\<not> is_cancel r"
  shows "filter_inv (filter_request f sq r)" (is "filter_inv ?f")
  unfolding filter_inv_def
proof (intro conjI)
  note new = filter_request_forward [OF inv nc, of sq]
  note bound = filter_inv_bounds [OF inv]
  have last: "fwd_last ?f s = (if s = sq then Some (length (tokens f)) else fwd_last f s)" for s
    by (simp add: fwd_last_def new(2))
  show "tokens_ok ?f"
    unfolding tokens_ok_def new(1,2)
    using filter_invD(1,3,4) [OF inv] bound(1) nc by (fastforce simp: less_Suc_eq)
  show "pending_ok ?f"
    unfolding pending_ok_def
  proof (intro conjI allI impI)
    show "hm_wf (pending_requests ?f)" using hm_wf_kept [OF inv] by (simp add: new(4))
    fix s t
    show "fwd_last ?f s = Some t" if "hm_get (pending_requests ?f) s = Some t"
      using that retainedD filter_invD(5) [OF inv]
      by (auto simp: last new(4) hm_get_insert hm_get_kept [OF inv] split: if_splits)
    show "hm_get (pending_requests ?f) s = Some t" if fl: "fwd_last ?f s = Some t"
      and al: "alive (tokens ?f) t" and nc: "\<not> is_cancelled (tokens ?f) t"
    proof (cases "s = sq")
      case True
      then show ?thesis using fl by (simp add: last new(4) hm_get_insert)
    next
      case False
      then have t: "fwd_last f s = Some t" "t < length (tokens f)"
        using fl last fwd_last_in bound(1) by (simp, metis)
      then have "alive (tokens f) t" "\<not> is_cancelled (tokens f) t" using al nc by (simp_all add: new(1))
      then have "retained f s = Some t" using filter_invD(6) [OF inv t(1)] retainedI by blast
      then show ?thesis using False by (simp add: new(4) hm_get_insert hm_get_kept [OF inv])
    qed
  qed
  show "cancellable_ok ?f"
    unfolding cancellable_ok_def new(1,2,3)
    using filter_invD(7) [OF inv] filter_invD(8) [OF inv] bound(1)
    by (fastforce simp: kept_cancellable_def)
qed

lemma filter_request_inv [inv_intros]: "filter_inv f \<Longrightarrow> filter_inv (filter_request f sq r)"
  using cancel_keeps_inv forward_keeps_inv by (cases "is_cancel r") (auto simp: is_cancel_iff)

lemma drop_count:
  assumes "alive st t" "t < length st" "sender_receiver_count st t \<le> 1"
  shows "sender_receiver_count (receiver_drop st t) u = (if u = t then 0 else sender_receiver_count st u)"
    "is_cancelled (receiver_drop st t) u = is_cancelled st u"
proof -
  have "receiver_count (st ! t) = 1"
    using assms by (simp add: sender_receiver_count_def word_unat_eq_iff)
  then show "sender_receiver_count (receiver_drop st t) u = (if u = t then 0 else sender_receiver_count st u)"
    using assms(2) by (simp add: sender_receiver_count_def receiver_drop_def nth_list_update)
  show "is_cancelled (receiver_drop st t) u = is_cancelled st u"
    using assms(2) by (simp add: is_cancelled_def receiver_drop_def nth_list_update)
qed

lemma add_callback_simps [simp]:
  "length (add_callback st t cb) = length st"
  "sender_receiver_count (add_callback st t cb) u = sender_receiver_count st u"
  "is_cancelled (add_callback st t cb) u = is_cancelled st u"
proof -
  have cell: "add_callback st t cb ! u = (if u = t \<and> t < length st
      then (st ! t)\<lparr>callbacks := callbacks (st ! t) @ [cb]\<rparr> else st ! u)"
    by (cases "t < length st") (auto simp: add_callback_def list_update_beyond)
  show "length (add_callback st t cb) = length st" by (simp add: add_callback_def)
  show "sender_receiver_count (add_callback st t cb) u = sender_receiver_count st u"
    "is_cancelled (add_callback st t cb) u = is_cancelled st u"
    by (simp_all add: sender_receiver_count_def is_cancelled_def cell)
qed

lemma length_receiver_drop [simp]: "length (receiver_drop st t) = length st"
  by (simp add: receiver_drop_def)

lemma filter_inv_tokens:
  assumes inv: "filter_inv f" and len: "length st = length (tokens f)"
    and count: "\<And>u. sender_receiver_count st u \<le> sender_receiver_count (tokens f) u"
    and canc: "\<And>u. is_cancelled st u = is_cancelled (tokens f) u"
  shows "filter_inv (f\<lparr>tokens := st\<rparr>)" (is "filter_inv ?f")
  unfolding filter_inv_def
proof (intro conjI)
  have al: "alive (tokens f) u" if "alive st u" for u using count [of u] that by simp
  have last: "fwd_last ?f = fwd_last f" by (simp add: fwd_last_def fun_eq_iff)
  show "tokens_ok ?f"
  proof -
    have "sender_receiver_count st u \<le> 1" if "u < length (tokens f)" for u
      using count [of u] filter_invD(4) [OF inv that] by linarith
    then show ?thesis
      using filter_invD(1,3) [OF inv] filter_inv_bounds(1) [OF inv] by (auto simp: tokens_ok_def len)
  qed
  show "pending_ok ?f"
    unfolding pending_ok_def last
  proof (intro conjI allI impI)
    show "hm_wf (pending_requests ?f)" using filter_invD(2) [OF inv] by simp
    fix s u
    show "fwd_last f s = Some u" if "hm_get (pending_requests ?f) s = Some u"
      using that filter_invD(5) [OF inv, of s u] by simp
    assume u: "fwd_last f s = Some u" "alive (tokens ?f) u" "\<not> is_cancelled (tokens ?f) u"
    then have "alive (tokens f) u" "\<not> is_cancelled (tokens f) u" using al canc by auto
    from filter_invD(6) [OF inv u(1) this] show "hm_get (pending_requests ?f) s = Some u" by simp
  qed
  show "cancellable_ok ?f"
    using filter_invD(7,8) [OF inv] al by (auto simp: cancellable_ok_def)
qed

lemma cancel_step_inv [inv_intros]: "cancel_step f e f' \<Longrightarrow> filter_inv f \<Longrightarrow> filter_inv f'"
proof (induction rule: cancel_step.induct)
  case (arrives f sq request)
  then show ?case by (rule filter_request_inv)
next
  case (finishes sq request t f)
  note bound = filter_inv_bounds(1) [OF finishes(3,1)]
  show ?case
    by (rule filter_inv_tokens [OF finishes(3)])
      (simp_all add: drop_count [OF finishes(2) bound filter_invD(4) [OF finishes(3) bound]])
next
  case (registers sq request t f cb)
  then show ?case by (intro filter_inv_tokens) simp_all
qed

section \<open>The filter implements the specification\<close>

lemma abs_entry_simps [simp]:
  "rs_seq (abs_entry st (s, r, t)) = s" "rs_request (abs_entry st (s, r, t)) = r"
  "rs_token (abs_entry st (s, r, t)) = t" "rs_alive (abs_entry st (s, r, t)) = alive st t"
  "rs_cancelled (abs_entry st (s, r, t)) = is_cancelled st t"
  by (simp_all add: abs_entry_def)

lemma last_with_abs: "last_with s (map (abs_entry st) (forwarded f)) = fwd_last f s"
proof -
  have "(\<lambda>e. (rs_seq e, rs_token e)) \<circ> abs_entry st = (\<lambda>(s, r, t). (s, t))"
    by (auto simp: fun_eq_iff)
  then show ?thesis by (simp add: last_with_def fwd_last_def)
qed

lemma abs_mark:
  assumes "\<forall>(s, r, t) \<in> set xs. t < length st \<and> (alive st t \<and> p (abs_entry st (s, r, t)) \<or> is_cancelled st t \<longleftrightarrow> t \<in> A \<or> is_cancelled st t)"
  shows "map (abs_entry (mark A st @ [c])) xs = cancel_where p (map (abs_entry st) xs)"
  using assms by (auto simp: cancel_where_def abs_entry_def)

lemma same_token:
  "filter_inv f \<Longrightarrow> (s, r, t) \<in> set (forwarded f) \<Longrightarrow> (s', r', t) \<in> set (forwarded f) \<Longrightarrow> r' = r"
  using filter_invD(1) [of f] by (auto simp: distinct_map inj_on_def)

lemma spec_forward:
  "\<not> is_cancel r \<Longrightarrow> spec_step (n, es) (Arrives sq r) =
     (Suc n, (if will_cancel r then cancel_where (\<lambda>e. may_be_cancelled (rs_request e)) es else es) @
       [\<lparr>rs_seq = sq, rs_request = r, rs_token = n, rs_alive = True, rs_cancelled = False\<rparr>])"
  by (cases r) simp_all

lemma spec_cancel:
  "spec_step (n, es) (Arrives sq (Req_cancel args)) =
     (Suc n, case ca_request_id args of
        None \<Rightarrow> es
      | Some rid \<Rightarrow> cancel_where (\<lambda>e. last_with (as_u32 rid) es = Some (rs_token e)) es)"
  by simp

lemma cancel_where_False [simp]: "cancel_where (\<lambda>_. False) es = es"
  by (simp add: cancel_where_def)

lemma abs_cancel:
  assumes inv: "filter_inv f"
  shows "abs_filter (filter_request f sq (Req_cancel args)) = spec_step (abs_filter f) (Arrives sq (Req_cancel args))"
proof (cases "ca_request_id args")
  case None
  then show ?thesis
    using filter_request_cancel [OF inv, of sq args] filter_inv_bounds(1) [OF inv]
    by (auto simp: abs_filter_def abs_entry_def hits_def)
next
  case (Some rid)
  let ?p = "\<lambda>e. fwd_last f (as_u32 rid) = Some (rs_token e)"
  have "map (abs_entry (mark (hits f (Req_cancel args)) (tokens f) @ [unused_cell])) (forwarded f) =
      cancel_where ?p (map (abs_entry (tokens f)) (forwarded f))"
  proof (rule abs_mark, clarify, intro conjI)
    fix s r t
    assume "(s, r, t) \<in> set (forwarded f)"
    then show "t < length (tokens f)" by (rule filter_inv_bounds(1) [OF inv])
    show "alive (tokens f) t \<and> ?p (abs_entry (tokens f) (s, r, t)) \<or> is_cancelled (tokens f) t \<longleftrightarrow>
      t \<in> hits f (Req_cancel args) \<or> is_cancelled (tokens f) t"
      using filter_invD(5) [OF inv, of "as_u32 rid" t] filter_invD(6) [OF inv, of "as_u32 rid" t] Some
      by (cases "is_cancelled (tokens f) t") (auto simp: hits_def)
  qed
  then show ?thesis
    using filter_request_cancel [OF inv, of sq args] Some by (simp add: abs_filter_def last_with_abs)
qed

lemma abs_forward:
  assumes inv: "filter_inv f" and nc: "\<not> is_cancel r"
  shows "abs_filter (filter_request f sq r) = spec_step (abs_filter f) (Arrives sq r)"
proof -
  let ?p = "\<lambda>e. will_cancel r \<and> may_be_cancelled (rs_request e)"
  have "map (abs_entry (mark (hits f r) (tokens f) @ [fresh_cell])) (forwarded f) =
      cancel_where ?p (map (abs_entry (tokens f)) (forwarded f))"
  proof (rule abs_mark, clarify, intro conjI)
    fix s r' t
    assume fwd: "(s, r', t) \<in> set (forwarded f)"
    then show "t < length (tokens f)" by (rule filter_inv_bounds(1) [OF inv])
    have "t \<in> set (cancellable_requests f) \<and> alive (tokens f) t \<longleftrightarrow> may_be_cancelled r' \<and> alive (tokens f) t"
      using fwd filter_invD(7,8) [OF inv] filter_invD(1) [OF inv] same_token [OF inv] by blast
    moreover have "hits f r = (if will_cancel r then {t \<in> set (cancellable_requests f). alive (tokens f) t} else {})"
      using nc by (cases r) (simp_all add: hits_def)
    ultimately show "alive (tokens f) t \<and> ?p (abs_entry (tokens f) (s, r', t)) \<or> is_cancelled (tokens f) t \<longleftrightarrow>
      t \<in> hits f r \<or> is_cancelled (tokens f) t" by auto
  qed
  then show ?thesis
    using filter_request_forward [OF inv nc, of sq]
    by (simp add: abs_filter_def spec_forward [OF nc] abs_entry_def [of _ "(sq, r, length (tokens f))"]
        del: spec_step.simps)
qed

lemma abs_finishes:
  assumes inv: "filter_inv f" and t: "t < length (tokens f)" "alive (tokens f) t"
  shows "abs_filter (f\<lparr>tokens := receiver_drop (tokens f) t\<rparr>) = spec_step (abs_filter f) (Finishes t)"
  using drop_count [OF t(2,1) filter_invD(4) [OF inv t(1)]]
  by (auto simp: abs_filter_def abs_entry_def)

lemma abs_step: "cancel_step f e f' \<Longrightarrow> filter_inv f \<Longrightarrow> abs_filter f' = spec_step (abs_filter f) e"
proof (induction rule: cancel_step.induct)
  case (arrives f sq request)
  then show ?case
    using abs_cancel abs_forward by (cases "is_cancel request") (auto simp: is_cancel_iff)
next
  case (finishes sq request t f)
  then show ?case using abs_finishes filter_inv_bounds(1) by metis
next
  case (registers sq request t f cb)
  then show ?case by (auto simp: abs_filter_def abs_entry_def)
qed

text \<open>
  Property C10.  Cancellation is exact: after any interleaving of arriving requests, finishing
  requests and registrations of callbacks, the requests forwarded to the main loop, their order, and
  which of them have been told to stop are what the specification computes from the events alone.
\<close>

theorem cancellation_refines_spec:
  assumes "cancel_run filter_new es f"
  shows "abs_filter f = foldl spec_step (0, []) es"
proof -
  have "filter_inv f \<and> abs_filter f = foldl spec_step (abs_filter g) es" if "cancel_run g es f" "filter_inv g" for g
    using that
  proof (induction rule: cancel_run.induct)
    case (run_nil f)
    then show ?case by simp
  next
    case (run_snoc f es f1 e f2)
    then show ?case using cancel_step_inv abs_step by simp
  qed
  from this [OF assms filter_inv_new] show ?thesis by (simp add: abs_filter_def filter_new_def)
qed

lemma arrivals_run: "\<exists>f'. cancel_run f (map (\<lambda>(s, r). Arrives s r) xs) f'"
proof (induction xs rule: rev_induct)
  case Nil
  show ?case by (auto intro: run_nil)
next
  case (snoc x xs)
  then show ?case by (cases x) (auto intro: run_snoc arrives)
qed

definition sample_arrivals :: "(u32 \<times> request_arguments) list" where
  "sample_arrivals = [(1, Req_evaluate \<lparr>ea_expression = ''x'', ea_frame_id = None, ea_context = None\<rparr>),
     (2, Req_threads), (3, Req_cancel \<lparr>ca_request_id = Some 2, ca_progress_id = None\<rparr>),
     (4, Req_pause \<lparr>pa_thread_id = 1\<rparr>)]"

theorem cancellation_refines_spec_witness:
  "\<exists>f. cancel_run filter_new (map (\<lambda>(s, r). Arrives s r) sample_arrivals) f \<and>
    map (\<lambda>e. (rs_seq e, rs_cancelled e)) (snd (abs_filter f)) = [(1, True), (2, True), (4, False)]"
proof -
  obtain f where f: "cancel_run filter_new (map (\<lambda>(s, r). Arrives s r) sample_arrivals) f"
    using arrivals_run by blast
  have "map (\<lambda>e. (rs_seq e, rs_cancelled e))
      (snd (foldl spec_step (0, []) (map (\<lambda>(s, r). Arrives s r) sample_arrivals))) =
      [(1, True), (2, True), (4, False)]"
    by (simp add: sample_arrivals_def spec_forward spec_cancel cancel_where_def last_with_def as_u32_def
        del: spec_step.simps)
  then have "map (\<lambda>e. (rs_seq e, rs_cancelled e)) (snd (abs_filter f)) = [(1, True), (2, True), (4, False)]"
    using cancellation_refines_spec [OF f] by (simp only:)
  with f show ?thesis by (intro exI [of _ f] conjI)
qed

end
