(* ===== verification/Errors.thy ===== *)
theory Errors
  imports Rust_Str Messages
begin

text \<open>
  Errors and who is to blame for them (\<^verbatim>\<open>error.rs\<close>), values that must be initialized before use
  (\<^verbatim>\<open>must_initialize.rs\<close>), the outcome of a request handler, and how it becomes a response
  (\<^verbatim>\<open>DebugSession::send_response\<close>).

  A boxed error is a message, a blamed error around another one, or an asynchronous response that a
  handler smuggles out as an error; the latter carries the task that will produce the response, of
  type \<^typ>\<open>'f\<close>.  A handler is a function on the session's state which may panic, and otherwise
  returns an error or a value together with the new state.
\<close>

section \<open>Errors\<close>

datatype blame = Internal | User | Nobody

datatype 'f error =
    StrError string
  | BlamedError blame "'f error"
  | AsyncResponse 'f

fun blamed_from :: "'f error \<Rightarrow> blame \<times> 'f error" where
  "blamed_from (BlamedError b inner) = (b, inner)"
| "blamed_from err = (Internal, err)"

definition assign_blame :: "blame \<times> 'f error \<Rightarrow> blame \<Rightarrow> 'f error" where
  "assign_blame be b = BlamedError b (snd be)"

definition blame_user :: "'f error \<Rightarrow> 'f error" where
  "blame_user err = assign_blame (blamed_from err) User"

definition blame_nobody :: "'f error \<Rightarrow> 'f error" where
  "blame_nobody err = assign_blame (blamed_from err) Nobody"

definition str_error :: "string \<Rightarrow> 'f error" where
  "str_error msg = StrError msg"

text \<open>\<^verbatim>\<open>Display\<close>.\<close>

fun error_text :: "'f error \<Rightarrow> string" where
  "error_text (StrError msg) = msg"
| "error_text (BlamedError _ inner) = error_text inner"
| "error_text (AsyncResponse _) = ''AsyncResponse''"

section \<open>Late initialization\<close>

datatype 'a must_initialize = Initialized 'a | NotInitialized

fun is_initialized :: "'a must_initialize \<Rightarrow> bool" where
  "is_initialized (Initialized _) = True"
| "is_initialized NotInitialized = False"

fun mi_deref :: "'a must_initialize \<Rightarrow> 'a exec" where
  "mi_deref (Initialized x) = Done x"
| "mi_deref NotInitialized = Panic"

section \<open>Handlers\<close>

type_synonym ('s, 'f, 'a) act = "'s \<Rightarrow> (('f error + 'a) \<times> 's) exec"

definition ret :: "'a \<Rightarrow> ('s, 'f, 'a) act" where
  "ret x s = Done (Inr x, s)"

definition bail :: "'f error \<Rightarrow> ('s, 'f, 'a) act" where
  "bail e s = Done (Inl e, s)"

definition panic :: "('s, 'f, 'a) act" where
  "panic s = Panic"

text \<open>Sequencing with the \<^verbatim>\<open>?\<close> operator.\<close>

definition andThen :: "('s, 'f, 'a) act \<Rightarrow> ('a \<Rightarrow> ('s, 'f, 'b) act) \<Rightarrow> ('s, 'f, 'b) act" where
  "andThen m f s =
     (case m s of
        Panic \<Rightarrow> Panic
      | Done (Inl e, s') \<Rightarrow> Done (Inl e, s')
      | Done (Inr x, s') \<Rightarrow> f x s')"

text \<open>Sequencing that looks at the result itself.\<close>

definition onResult :: "('s, 'f, 'a) act \<Rightarrow> ('f error + 'a \<Rightarrow> ('s, 'g, 'b) act) \<Rightarrow> ('s, 'g, 'b) act" where
  "onResult m f s =
     (case m s of
        Panic \<Rightarrow> Panic
      | Done (r, s') \<Rightarrow> f r s')"

definition reads :: "('s \<Rightarrow> 'a) \<Rightarrow> ('s, 'f, 'a) act" where
  "reads g s = Done (Inr (g s), s)"

definition modifies :: "('s \<Rightarrow> 's) \<Rightarrow> ('s, 'f, unit) act" where
  "modifies g s = Done (Inr (), g s)"

definition ok_or :: "'f error \<Rightarrow> 'a option \<Rightarrow> ('s, 'f, 'a) act" where
  "ok_or e x = (case x of None \<Rightarrow> bail e | Some y \<Rightarrow> ret y)"

definition lift_exec :: "'a exec \<Rightarrow> ('s, 'f, 'a) act" where
  "lift_exec m s = (case m of Panic \<Rightarrow> Panic | Done x \<Rightarrow> Done (Inr x, s))"

definition lift_result :: "'f error + 'a \<Rightarrow> ('s, 'f, 'a) act" where
  "lift_result r s = Done (r, s)"

definition map_err :: "('f error \<Rightarrow> 'f error) \<Rightarrow> 'f error + 'a \<Rightarrow> 'f error + 'a" where
  "map_err g r = (case r of Inl e \<Rightarrow> Inl (g e) | Inr x \<Rightarrow> Inr x)"

text \<open>A \<^verbatim>\<open>for\<close> loop over a list, and one that maps.\<close>

fun for_each :: "'a list \<Rightarrow> ('a \<Rightarrow> ('s, 'f, unit) act) \<Rightarrow> ('s, 'f, unit) act" where
  "for_each [] f = ret ()"
| "for_each (x # xs) f = andThen (f x) (\<lambda>_. for_each xs f)"

fun for_collect :: "'a list \<Rightarrow> ('a \<Rightarrow> ('s, 'f, 'b) act) \<Rightarrow> ('s, 'f, 'b list) act" where
  "for_collect [] f = ret []"
| "for_collect (x # xs) f = andThen (f x) (\<lambda>y. andThen (for_collect xs f) (\<lambda>ys. ret (y # ys)))"

named_theorems act_simps \<open>evaluation of handlers\<close>

lemma act_eval [act_simps]:
  "ret x s = Done (Inr x, s)" "bail e s = Done (Inl e, s)" "reads g s = Done (Inr (g s), s)"
  "modifies u s = Done (Inr (), u s)" "lift_result r s = Done (r, s)" "panic s = Panic"
  by (simp_all add: ret_def bail_def reads_def modifies_def lift_result_def panic_def)

lemma andThen_eval [act_simps]:
  "m s = Done (Inr x, s') \<Longrightarrow> andThen m f s = f x s'"
  "m s = Done (Inl e, s') \<Longrightarrow> andThen m f s = Done (Inl e, s')"
  "m s = Panic \<Longrightarrow> andThen m f s = Panic"
  by (simp_all add: andThen_def)

lemma onResult_eval [act_simps]:
  "m s = Done (r, s') \<Longrightarrow> onResult m f s = f r s'"
  "m s = Panic \<Longrightarrow> onResult m f s = Panic"
  by (simp_all add: onResult_def)

lemma andThen_Done:
  "andThen m f s = Done (r, s2) \<longleftrightarrow>
     (\<exists>e. m s = Done (Inl e, s2) \<and> r = Inl e) \<or> (\<exists>x s1. m s = Done (Inr x, s1) \<and> f x s1 = Done (r, s2))"
  by (auto simp: andThen_def split: exec.splits sum.splits)

lemma andThen_ok:
  "andThen m f s = Done (Inr y, s2) \<longleftrightarrow> (\<exists>x s1. m s = Done (Inr x, s1) \<and> f x s1 = Done (Inr y, s2))"
  by (auto simp: andThen_Done)

lemma onResult_Done:
  "onResult m f s = Done (r, s2) \<longleftrightarrow> (\<exists>x s1. m s = Done (x, s1) \<and> f x s1 = Done (r, s2))"
  by (auto simp: onResult_def split: exec.splits)

text \<open>What every step keeps, the whole sequence keeps.\<close>

definition keeps :: "('s \<Rightarrow> bool) \<Rightarrow> ('s, 'f, 'a) act \<Rightarrow> bool" where
  "keeps P m \<longleftrightarrow> (\<forall>s r s'. P s \<longrightarrow> m s = Done (r, s') \<longrightarrow> P s')"

lemma keepsI: "(\<And>s r s'. P s \<Longrightarrow> m s = Done (r, s') \<Longrightarrow> P s') \<Longrightarrow> keeps P m"
  by (auto simp: keeps_def)

lemma keepsD: "keeps P m \<Longrightarrow> P s \<Longrightarrow> m s = Done (r, s') \<Longrightarrow> P s'"
  by (auto simp: keeps_def)

lemma keeps_basic [inv_intros]:
  "keeps P (ret x)" "keeps P (bail e)" "keeps P panic" "keeps P (reads g)" "keeps P (lift_result r)"
  "keeps P (ok_or e y)" "keeps P (lift_exec z)"
  by (auto simp: keeps_def act_eval ok_or_def lift_exec_def split: option.splits exec.splits)

lemma keeps_modifies [inv_intros]: "(\<And>s. P s \<Longrightarrow> P (g s)) \<Longrightarrow> keeps P (modifies g)"
  by (auto simp: keeps_def act_eval)

lemma keeps_andThen [inv_intros]:
  "keeps P m \<Longrightarrow> (\<And>x. keeps P (f x)) \<Longrightarrow> keeps P (andThen m f)"
  unfolding keeps_def andThen_Done by blast

lemma keeps_onResult [inv_intros]:
  "keeps P m \<Longrightarrow> (\<And>x. keeps P (f x)) \<Longrightarrow> keeps P (onResult m f)"
  unfolding keeps_def onResult_Done by blast

lemma keeps_for_each [inv_intros]: "(\<And>x. x \<in> set xs \<Longrightarrow> keeps P (f x)) \<Longrightarrow> keeps P (for_each xs f)"
  by (induction xs) (simp_all add: keeps_basic keeps_andThen)

lemma keeps_for_collect [inv_intros]:
  "(\<And>x. x \<in> set xs \<Longrightarrow> keeps P (f x)) \<Longrightarrow> keeps P (for_collect xs f)"
  by (induction xs) (simp_all add: keeps_basic keeps_andThen)

lemma for_collect_length:
  "for_collect xs f s = Done (Inr ys, s') \<Longrightarrow> length ys = length xs"
  by (induction xs arbitrary: s ys) (auto simp: andThen_ok act_eval)

section \<open>Responses\<close>

text \<open>\<^verbatim>\<open>send_response\<close> hands the response to the out queue; the model returns it.\<close>

fun make_response :: "u32 \<Rightarrow> 'f error + response_body \<Rightarrow> response" where
  "make_response rseq (Inr body) = \<lparr>request_seq = rseq, success = True, result = Success body\<rparr>"
| "make_response rseq (Inl err) =
     (let (b, inner) = blamed_from err;
          (message, shown) = (case b of
             Internal \<Rightarrow> (''Internal debugger error: '' @ error_text inner, True)
           | User \<Rightarrow> (error_text inner, True)
           | Nobody \<Rightarrow> (error_text inner, False))
      in \<lparr>request_seq = rseq, success = False, result = RError '''' message (Some shown)\<rparr>)"

text \<open>
  Blame decides what the user sees, and the last blame wins: an error blamed on the
  user is shown as it is, one blamed on nobody is not shown, and only an error that nobody was
  blamed for is reported, with a prefix, as an internal one.
\<close>

theorem response_blame:
  "make_response n (Inl (blame_user err)) =
     \<lparr>request_seq = n, success = False, result = RError '''' (error_text err) (Some True)\<rparr> \<and>
   make_response n (Inl (blame_nobody err)) =
     \<lparr>request_seq = n, success = False, result = RError '''' (error_text err) (Some False)\<rparr> \<and>
   make_response n (Inl (blame_nobody (blame_user err))) = make_response n (Inl (blame_nobody err)) \<and>
   make_response n (Inl (StrError msg)) =
     \<lparr>request_seq = n, success = False, result = RError '''' (''Internal debugger error: '' @ msg) (Some True)\<rparr>"
  by (cases err) (simp_all add: blame_user_def blame_nobody_def assign_blame_def)

end
