(* ===== verification/Event_Listener.thy ===== *)
theory Event_Listener
  imports Rust_Prelude
begin

text \<open>
  The debugger event listener (\<^verbatim>\<open>debug_event_listener.rs\<close>): a thread polls LLDB for events and passes them
  on, unless the listener was corked.  The thread's loop has two atomic parts, the return of
  \<^verbatim>\<open>wait_for_event\<close> (with an event or without) and the section under the lock; \<^verbatim>\<open>cork\<close> and \<^verbatim>\<open>uncork\<close>
  may happen anywhere in between.
\<close>

section \<open>Model\<close>

record 'ev listener =
  corked :: bool
  was_corked :: bool
  in_flight :: "'ev option option"
  delivered :: "'ev list"
  stopped :: bool

definition listener_new :: "'ev listener" where
  "listener_new = \<lparr>corked = False, was_corked = False, in_flight = None, delivered = [], stopped = False\<rparr>"

definition cork :: "'ev listener \<Rightarrow> 'ev listener" where
  "cork l = l\<lparr>corked := True, was_corked := True\<rparr>"

definition uncork :: "'ev listener \<Rightarrow> 'ev listener" where
  "uncork l = l\<lparr>corked := False\<rparr>"

text \<open>How handing the event to the bounded channel ends.\<close>

datatype send_outcome = SendOk | SendFull | SendClosed

text \<open>The rest of the loop body: \<open>closed\<close> is what \<^verbatim>\<open>is_closed\<close> returns, \<open>out\<close> how \<^verbatim>\<open>try_send\<close> ends.\<close>

definition poll_section :: "bool \<Rightarrow> send_outcome \<Rightarrow> 'ev option \<Rightarrow> 'ev listener \<Rightarrow> 'ev listener" where
  "poll_section closed out received l =
     (if closed then l\<lparr>stopped := True\<rparr>
      else case received of
        None \<Rightarrow> l\<lparr>was_corked := corked l\<rparr>
      | Some event \<Rightarrow>
          if was_corked l then l\<lparr>was_corked := corked l\<rparr>
          else (case out of
            SendOk \<Rightarrow> l\<lparr>delivered := delivered l @ [event], was_corked := corked l\<rparr>
          | SendFull \<Rightarrow> l\<lparr>was_corked := corked l\<rparr>
          | SendClosed \<Rightarrow> l\<lparr>stopped := True\<rparr>))"

datatype 'ev listener_event =
    Cork
  | Uncork
  | Receive "'ev option"
  | Poll bool send_outcome

inductive listener_step :: "'ev listener \<Rightarrow> 'ev listener_event \<Rightarrow> 'ev listener \<Rightarrow> bool" where
  step_cork: "listener_step l Cork (cork l)"
| step_uncork: "listener_step l Uncork (uncork l)"
| step_receive: "in_flight l = None \<Longrightarrow> \<not> stopped l \<Longrightarrow>
    listener_step l (Receive ev) (l\<lparr>in_flight := Some ev\<rparr>)"
| step_poll: "in_flight l = Some received \<Longrightarrow> \<not> stopped l \<Longrightarrow>
    listener_step l (Poll closed out) ((poll_section closed out received l)\<lparr>in_flight := None\<rparr>)"

inductive_cases listener_stepE: "listener_step l e l'"

inductive listener_run :: "'ev listener_event list \<Rightarrow> 'ev listener \<Rightarrow> bool" where
  run_start: "listener_run [] listener_new"
| run_step: "listener_run es l \<Longrightarrow> listener_step l e l' \<Longrightarrow> listener_run (es @ [e]) l'"

section \<open>What the events say\<close>

fun is_poll :: "'ev listener_event \<Rightarrow> bool" where
  "is_poll (Poll _ _) = True"
| "is_poll _ = False"

text \<open>The last of \<^verbatim>\<open>cork\<close> and \<^verbatim>\<open>uncork\<close> was \<^verbatim>\<open>cork\<close>.\<close>

definition corked_after :: "'ev listener_event list \<Rightarrow> bool" where
  "corked_after es \<longleftrightarrow> (\<exists>fs. filter (\<lambda>e. e = Cork \<or> e = Uncork) es = fs @ [Cork])"

text \<open>The number of events up to the last pass through the locked section.\<close>

definition last_poll :: "'ev listener_event list \<Rightarrow> nat" where
  "last_poll es = length es - length (takeWhile (\<lambda>e. \<not> is_poll e) (rev es))"

text \<open>The listener was corked at some moment since the last pass.\<close>

definition corked_since_poll :: "'ev listener_event list \<Rightarrow> bool" where
  "corked_since_poll es \<longleftrightarrow> (\<exists>n. last_poll es \<le> n \<and> n \<le> length es \<and> corked_after (take n es))"

lemma corked_after_snoc:
  "corked_after (es @ [e]) \<longleftrightarrow> (if e = Cork then True else if e = Uncork then False else corked_after es)"
  by (auto simp: corked_after_def)

lemma last_poll_snoc: "last_poll (es @ [e]) = (if is_poll e then Suc (length es) else last_poll es)"
  using length_takeWhile_le [of "\<lambda>e. \<not> is_poll e" "rev es"] by (auto simp: last_poll_def)

lemma last_poll_le: "last_poll es \<le> length es"
  by (simp add: last_poll_def)

lemma corked_since_poll_snoc:
  "corked_since_poll (es @ [e]) \<longleftrightarrow>
     (if is_poll e then corked_after es else corked_since_poll es \<or> corked_after (es @ [e]))"
proof (cases "is_poll e")
  case True
  then have "corked_since_poll (es @ [e]) \<longleftrightarrow> corked_after (es @ [e])"
    by (auto simp: corked_since_poll_def last_poll_snoc)
  then show ?thesis using True by (cases e) (simp_all add: corked_after_snoc)
next
  case False
  have "(\<exists>n. last_poll es \<le> n \<and> n \<le> Suc (length es) \<and> corked_after (take n (es @ [e]))) \<longleftrightarrow>
     corked_since_poll es \<or> corked_after (es @ [e])"
    unfolding corked_since_poll_def
    using last_poll_le [of es]
    by (auto simp: le_Suc_eq intro: exI [of _ "Suc (length es)"])
  then show ?thesis using False by (simp add: corked_since_poll_def last_poll_snoc)
qed

lemma listener_state:
  assumes "listener_run es l"
  shows "corked l = corked_after es \<and> (\<not> stopped l \<longrightarrow> was_corked l = corked_since_poll es)"
  using assms
proof (induction rule: listener_run.induct)
  case run_start
  show ?case by (simp add: listener_new_def corked_after_def corked_since_poll_def)
next
  case (run_step es l e l')
  from run_step(2) show ?case
  proof (cases rule: listener_step.cases)
    case step_cork
    then show ?thesis
      using run_step.IH by (auto simp: cork_def corked_after_snoc corked_since_poll_snoc)
  next
    case step_uncork
    then show ?thesis
      using run_step.IH by (auto simp: uncork_def corked_after_snoc corked_since_poll_snoc)
  next
    case (step_receive ev)
    then show ?thesis
      using run_step.IH corked_since_poll_snoc [of es e] corked_after_snoc [of es e] last_poll_le [of es]
      by (auto simp: corked_since_poll_def)
  next
    case (step_poll received closed out)
    then show ?thesis
      using run_step.IH
      by (auto simp: poll_section_def corked_after_snoc corked_since_poll_snoc
          split: option.splits send_outcome.splits)
  qed
qed

text \<open>
  Property C12.  Corking works: when the polling thread passes through its locked section with an
  event, the event is passed on if, and only if, the channel takes it and the listener was not
  corked at any moment since the previous pass.  In particular nothing received while the listener
  is corked is passed on.
\<close>

theorem corked_events_dropped:
  assumes "listener_run es l" "listener_step l (Poll False SendOk) l'" "in_flight l = Some (Some ev)"
  shows "delivered l' = delivered l @ (if corked_since_poll es then [] else [ev])"
  using assms(2)
proof (cases rule: listener_step.cases)
  case (step_poll received)
  then have "l' = (poll_section False SendOk (Some ev) l)\<lparr>in_flight := None\<rparr>" "\<not> stopped l"
    using assms(3) by simp_all
  then show ?thesis
    using listener_state [OF assms(1)] by (simp add: poll_section_def)
qed

theorem corked_events_dropped_witness:
  "\<exists>l l'. listener_run [Cork, Receive (Some (7::nat)), Uncork] l \<and>
     listener_step l (Poll False SendOk) l' \<and> delivered l' = []"
proof -
  let ?new = "listener_new :: nat listener"
  let ?l = "uncork ((cork ?new)\<lparr>in_flight := Some (Some 7)\<rparr>)"
  have "listener_step (cork ?new) (Receive (Some 7)) ((cork ?new)\<lparr>in_flight := Some (Some 7)\<rparr>)"
    by (rule step_receive) (simp_all add: cork_def listener_new_def)
  from run_step [OF run_step [OF run_step [OF run_start step_cork] this] step_uncork] have run: "listener_run [Cork, Receive (Some 7), Uncork] ?l" by simp
  have fl: "in_flight ?l = Some (Some 7)" by (simp add: uncork_def)
  let ?l' = "(poll_section False SendOk (Some 7) ?l)\<lparr>in_flight := None\<rparr>"
  have st: "listener_step ?l (Poll False SendOk) ?l'"
    by (rule step_poll [OF fl]) (simp add: uncork_def cork_def listener_new_def)
  have "corked_since_poll [Cork, Receive (Some (7::nat)), Uncork]"
    by (auto simp: corked_since_poll_def last_poll_def corked_after_def intro!: exI [of _ 1])
  with corked_events_dropped [OF run st fl] have "delivered ?l' = []"
    by (simp add: uncork_def cork_def listener_new_def)
  with run st show ?thesis by blast
qed

end
