(* ===== verification/Fsutil.thy ===== *)
theory Fsutil
  imports Rust_Str
begin

text \<open>
  Paths and quoting, \<^verbatim>\<open>fsutil.rs\<close>.  A path is the list of its components, as \<^verbatim>\<open>Path::components\<close> yields
  them on Unix; \<^verbatim>\<open>PathBuf::push\<close> and \<^verbatim>\<open>PathBuf::pop\<close> are the operations of the standard library on
  such lists.
\<close>

section \<open>Paths\<close>

datatype path_component = Prefix string | RootDir | CurDir | ParentDir | Normal string

type_synonym path = "path_component list"

fun split_slash :: "string \<Rightarrow> string \<Rightarrow> string list" where
  "split_slash acc [] = [rev acc]"
| "split_slash acc (c # s) = (if c = CHR ''/'' then rev acc # split_slash [] s else split_slash (c # acc) s)"

definition component_of :: "string \<Rightarrow> path_component option" where
  "component_of s =
     (if s = [] \<or> s = ''.'' then None else if s = ''..'' then Some ParentDir else Some (Normal s))"

text \<open>A leading \<^verbatim>\<open>.\<close> of a relative path is kept, other empty parts and dots are dropped.\<close>

definition components :: "string \<Rightarrow> path" where
  "components s =
     (let parts = split_slash [] s
      in (if starts_with s ''/'' then [RootDir] else if hd parts = ''.'' then [CurDir] else []) @
         List.map_filter component_of parts)"

fun is_absolute_component :: "path_component \<Rightarrow> bool" where
  "is_absolute_component (Prefix _) = True"
| "is_absolute_component RootDir = True"
| "is_absolute_component _ = False"

definition path_is_relative :: "path \<Rightarrow> bool" where
  "path_is_relative p \<longleftrightarrow> (case p of RootDir # _ \<Rightarrow> False | _ \<Rightarrow> True)"

text \<open>Pushing the root keeps a prefix; pushing a prefix replaces everything.\<close>

fun path_push :: "path \<Rightarrow> path_component \<Rightarrow> path" where
  "path_push p (Prefix s) = [Prefix s]"
| "path_push p RootDir = (case p of Prefix s # _ \<Rightarrow> [Prefix s, RootDir] | _ \<Rightarrow> [RootDir])"
| "path_push p c = p @ [c]"

text \<open>\<^verbatim>\<open>pop\<close> truncates to the parent; the root, a prefix and the empty path have none.\<close>

definition path_pop :: "path \<Rightarrow> path" where
  "path_pop p = (if p = [] \<or> is_absolute_component (last p) then p else butlast p)"

definition path_join :: "path \<Rightarrow> path \<Rightarrow> path" where
  "path_join base p = foldl path_push base p"

fun normalize_loop :: "path \<Rightarrow> path \<Rightarrow> path" where
  "normalize_loop normalized [] = normalized"
| "normalize_loop normalized (c # cs) =
     (case c of
        CurDir \<Rightarrow> normalize_loop normalized cs
      | ParentDir \<Rightarrow> normalize_loop (path_pop normalized) cs
      | _ \<Rightarrow> normalize_loop (path_push normalized c) cs)"

definition normalize_path :: "path \<Rightarrow> path" where
  "normalize_path p = normalize_loop [] p"

text \<open>\<^verbatim>\<open>canonicalize\<close> asks the file system.\<close>

definition is_same_path :: "(path \<Rightarrow> path option) \<Rightarrow> path \<Rightarrow> path \<Rightarrow> bool" where
  "is_same_path canonicalize p q \<longleftrightarrow>
     (if p = q then True
      else case (canonicalize p, canonicalize q) of
        (Some p', Some q') \<Rightarrow> p' = q'
      | _ \<Rightarrow> False)"

section \<open>Quoting\<close>

fun quote_char :: "char \<Rightarrow> string" where
  "quote_char c =
     (if c = CHR 0x5C then [CHR 0x5C, CHR 0x5C]
      else if c = CHR 0x22 then [CHR 0x5C, CHR 0x22]
      else [c])"

definition lldb_quoted_string :: "string \<Rightarrow> string" where
  "lldb_quoted_string input = CHR 0x22 # concat (map quote_char input) @ [CHR 0x22]"

section \<open>Normalized paths\<close>

text \<open>At most a prefix, then at most the root, then names: what the components of a path without
  dots look like.\<close>

fun is_normal :: "path_component \<Rightarrow> bool" where
  "is_normal (Normal _) = True"
| "is_normal _ = False"

definition names_only :: "path \<Rightarrow> bool" where
  "names_only p \<longleftrightarrow> list_all is_normal p"

lemma names_onlyD: "names_only p \<Longrightarrow> c \<in> set p \<Longrightarrow> \<exists>s. c = Normal s"
  by (cases c) (auto simp: names_only_def list_all_iff dest: bspec)

definition clean_path :: "path \<Rightarrow> bool" where
  "clean_path p \<longleftrightarrow> (\<exists>start names. p = start @ names \<and> names_only names \<and>
     (start = [] \<or> start = [RootDir] \<or> (\<exists>s. start = [Prefix s] \<or> start = [Prefix s, RootDir])))"

lemma clean_no_dots: "clean_path p \<Longrightarrow> CurDir \<notin> set p \<and> ParentDir \<notin> set p"
  by (auto simp: clean_path_def dest: names_onlyD)

lemma clean_push_normal: "clean_path p \<Longrightarrow> clean_path (path_push p (Normal s))"
proof -
  assume "clean_path p"
  then obtain start names where p: "p = start @ names" "names_only names"
    "start = [] \<or> start = [RootDir] \<or> (\<exists>s. start = [Prefix s] \<or> start = [Prefix s, RootDir])"
    unfolding clean_path_def by blast
  then show ?thesis
    unfolding clean_path_def
    by (intro exI [of _ start] exI [of _ "names @ [Normal s]"]) (simp add: names_only_def)
qed

lemma clean_pop: "clean_path p \<Longrightarrow> clean_path (path_pop p)"
proof -
  assume "clean_path p"
  then obtain start names where p: "p = start @ names" "names_only names"
    "start = [] \<or> start = [RootDir] \<or> (\<exists>s. start = [Prefix s] \<or> start = [Prefix s, RootDir])"
    unfolding clean_path_def by blast
  show ?thesis
  proof (cases "names = []")
    case True
    then have "path_pop p = p" using p(1,3) by (auto simp: path_pop_def)
    then show ?thesis using \<open>clean_path p\<close> by simp
  next
    case False
    then have "path_pop p = start @ butlast names"
      using p(1) names_onlyD [OF p(2) last_in_set [OF False]]
      by (auto simp: path_pop_def butlast_append)
    moreover have "names_only (butlast names)"
      using p(2) by (auto simp: names_only_def list_all_iff dest: in_set_butlastD)
    ultimately show ?thesis unfolding clean_path_def using p(3) by blast
  qed
qed

lemma clean_push_root: "clean_path (path_push p RootDir)" "clean_path (path_push p (Prefix s))"
proof -
  have clean: "clean_path [RootDir]" "clean_path [Prefix s]" "clean_path [Prefix s, RootDir]" for s
    unfolding clean_path_def
    by (rule exI [of _ "[RootDir]"], rule exI [of _ "[]"], simp add: names_only_def)
      (rule exI [of _ "[Prefix s]"], rule exI [of _ "[]"], simp add: names_only_def,
       rule exI [of _ "[Prefix s, RootDir]"], rule exI [of _ "[]"], simp add: names_only_def)
  then show "clean_path (path_push p RootDir)" "clean_path (path_push p (Prefix s))"
    by (auto split: list.split path_component.split)
qed

lemma normalize_loop_clean: "clean_path p \<Longrightarrow> clean_path (normalize_loop p cs)"
  by (induction cs arbitrary: p)
    (auto simp: clean_push_normal clean_pop clean_push_root simp del: path_push.simps split: path_component.split)

lemma normalize_loop_names: "names_only cs \<Longrightarrow> normalize_loop p cs = p @ cs"
  by (induction cs arbitrary: p) (auto simp: names_only_def split: path_component.split)

lemma normalize_clean: "clean_path p \<Longrightarrow> normalize_path p = p"
  by (auto simp: clean_path_def normalize_path_def normalize_loop_names)

lemma normalize_loop_append: "normalize_loop q (cs @ ds) = normalize_loop (normalize_loop q cs) ds"
  by (induction cs arbitrary: q) (auto split: path_component.split)

text \<open>The components of a text are a path: without dots they are clean.\<close>

lemma components_clean:
  assumes "CurDir \<notin> set (components s)" "ParentDir \<notin> set (components s)"
  shows "clean_path (components s)"
proof -
  let ?names = "List.map_filter component_of (split_slash [] s)"
  have "c \<in> set ?names \<Longrightarrow> c = ParentDir \<or> is_normal c" for c
    by (auto simp: List.map_filter_def component_of_def split: if_splits)
  then have "names_only ?names"
    using assms(2) by (auto simp: components_def Let_def names_only_def list_all_iff)
  moreover have "components s = [RootDir] @ ?names \<or> components s = [] @ ?names"
    using assms(1) by (auto simp: components_def Let_def split: if_splits)
  ultimately show ?thesis unfolding clean_path_def by blast
qed

text \<open>
  Property C13.  Normalizing a path removes every \<^verbatim>\<open>.\<close> and \<^verbatim>\<open>..\<close> and is idempotent.  A path without dots,
  absolute or relative, is kept as it is.  Behind such a path a \<^verbatim>\<open>.\<close> is dropped, and a name that is followed by
  \<^verbatim>\<open>..\<close> is dropped together with it.
\<close>

theorem normalize_path_correct:
  "CurDir \<notin> set (normalize_path p) \<and> ParentDir \<notin> set (normalize_path p) \<and>
   normalize_path (normalize_path p) = normalize_path p \<and>
   (CurDir \<notin> set (components s) \<and> ParentDir \<notin> set (components s) \<longrightarrow>
     normalize_path (components s) = components s \<and>
     normalize_path (components s @ CurDir # map Normal ys) = components s @ map Normal ys \<and>
     normalize_path (components s @ map Normal (xs @ [x]) @ ParentDir # map Normal ys) =
       components s @ map Normal xs @ map Normal ys)"
proof (intro conjI impI)
  have clean: "clean_path (normalize_path p)"
    unfolding normalize_path_def by (rule normalize_loop_clean) (simp add: clean_path_def names_only_def)
  then show "CurDir \<notin> set (normalize_path p)" "ParentDir \<notin> set (normalize_path p)"
    using clean_no_dots by blast+
  from clean show "normalize_path (normalize_path p) = normalize_path p" by (rule normalize_clean)
  assume "CurDir \<notin> set (components s) \<and> ParentDir \<notin> set (components s)"
  then show kept: "normalize_path (components s) = components s" by (intro normalize_clean components_clean) auto
  have names: "names_only (map Normal zs)" for zs by (simp add: names_only_def list_all_iff)
  show "normalize_path (components s @ CurDir # map Normal ys) = components s @ map Normal ys"
    using kept by (simp add: normalize_path_def normalize_loop_append normalize_loop_names [OF names])
  have "normalize_loop (components s) (map Normal (xs @ [x])) = (components s @ map Normal xs) @ [Normal x]"
    by (simp add: normalize_loop_names [OF names] del: map_append) simp
  then show "normalize_path (components s @ map Normal (xs @ [x]) @ ParentDir # map Normal ys) =
      components s @ map Normal xs @ map Normal ys"
    using kept
    by (simp add: normalize_path_def normalize_loop_append normalize_loop_names [OF names] path_pop_def
        del: map_append append_assoc)
qed

text \<open>The relative path \<^verbatim>\<open>a/b/../c\<close>.\<close>

theorem normalize_path_correct_witness:
  "normalize_path (components ''a'' @ map Normal ([] @ [''b'']) @ ParentDir # map Normal [''c'']) =
     components ''a'' @ map Normal [] @ map Normal [''c'']"
proof -
  have "components ''a'' = [Normal ''a'']" by code_simp
  then show ?thesis using normalize_path_correct [of "[]" "''a''" "[''c'']" "[]" "''b''"] by simp
qed

section \<open>Reading quoted text\<close>

text \<open>How a double-quoted argument is read: a backslash makes the next character literal, and the
  first quote without one ends the argument.\<close>

fun unquote_body :: "string \<Rightarrow> string option" where
  "unquote_body [] = None"
| "unquote_body (c # s) =
     (if c = CHR 0x22 then (if s = [] then Some [] else None)
      else if c = CHR 0x5C then
        (case s of [] \<Rightarrow> None | d # s' \<Rightarrow> map_option (Cons d) (unquote_body s'))
      else map_option (Cons c) (unquote_body s))"

fun unquote :: "string \<Rightarrow> string option" where
  "unquote (c # s) = (if c = CHR 0x22 then unquote_body s else None)"
| "unquote [] = None"

text \<open>
  Quoting is faithful: the quoted text of any string is read back as one argument
  with exactly the characters of the string.
\<close>

theorem quoted_string_round_trip: "unquote (lldb_quoted_string s) = Some s"
proof -
  have "unquote_body (concat (map quote_char s) @ [CHR 0x22]) = Some s"
    by (induction s) auto
  then show ?thesis by (simp add: lldb_quoted_string_def)
qed

end
