(* ===== verification/Lldb_Api.thy ===== *)
theory Lldb_Api
  imports Rust_Str
begin

text \<open>
  The interface to LLDB.  LLDB is a C++ library which the \<^verbatim>\<open>lldb\<close> crate only wraps, so it is a parameter
  of the model: a record of the functions a component calls, over an unknown state of the debugger,
  of type \<^typ>\<open>'l\<close>.  A query takes the state, an operation that changes the debuggee or the debugger
  also returns the new one.  LLDB's objects are references the adapter cannot look into; two
  references are equal if they denote the same object.
\<close>

section \<open>Objects\<close>

datatype sbaddress = SBAddress nat
datatype sbsymbol = SBSymbol nat
datatype sbinstruction = SBInstruction nat
datatype sblineentry = SBLineEntry nat
datatype sbfilespec = SBFileSpec nat
datatype sbmodule = SBModule nat
datatype sbthread = SBThread nat
datatype sbframe = SBFrame nat
datatype sbvalue = SBValue nat
datatype sbbreakpoint = SBBreakpoint nat

type_synonym address = u64

definition INVALID_ADDRESS :: address where
  "INVALID_ADDRESS = - 1"

section \<open>Addresses and instructions\<close>

record 'l dasm_api =
  from_load_address :: "'l \<Rightarrow> address \<Rightarrow> sbaddress"
  load_address :: "'l \<Rightarrow> sbaddress \<Rightarrow> address"
  addr_symbol :: "'l \<Rightarrow> sbaddress \<Rightarrow> sbsymbol option"
  addr_line_entry :: "'l \<Rightarrow> sbaddress \<Rightarrow> sblineentry option"
  symbol_start_address :: "'l \<Rightarrow> sbsymbol \<Rightarrow> sbaddress"
  symbol_end_address :: "'l \<Rightarrow> sbsymbol \<Rightarrow> sbaddress"
  symbol_instructions :: "'l \<Rightarrow> sbsymbol \<Rightarrow> sbinstruction list"
  symbol_name :: "'l \<Rightarrow> sbsymbol \<Rightarrow> string"
  symbol_display_name :: "'l \<Rightarrow> sbsymbol \<Rightarrow> string"
  symbol_mangled_name :: "'l \<Rightarrow> sbsymbol \<Rightarrow> string"
  disassembly_flavor :: "'l \<Rightarrow> string option"
  target_triple :: "'l \<Rightarrow> string"
  read_instructions :: "'l \<Rightarrow> sbaddress \<Rightarrow> u32 \<Rightarrow> string option \<Rightarrow> sbinstruction list"
  get_instructions :: "'l \<Rightarrow> sbaddress \<Rightarrow> u8 list \<Rightarrow> string option \<Rightarrow> sbinstruction list"
  instr_address :: "'l \<Rightarrow> sbinstruction \<Rightarrow> sbaddress"
  instr_byte_size :: "'l \<Rightarrow> sbinstruction \<Rightarrow> nat"
  instr_mnemonic :: "'l \<Rightarrow> sbinstruction \<Rightarrow> string"
  instr_operands :: "'l \<Rightarrow> sbinstruction \<Rightarrow> string"
  instr_comment :: "'l \<Rightarrow> sbinstruction \<Rightarrow> string"
  instr_raw_data :: "'l \<Rightarrow> sbinstruction \<Rightarrow> u8 list option"
  process_read_memory :: "'l \<Rightarrow> address \<Rightarrow> nat \<Rightarrow> string + u8 list"
  line_entry_line :: "'l \<Rightarrow> sblineentry \<Rightarrow> u32"
  line_entry_column :: "'l \<Rightarrow> sblineentry \<Rightarrow> u32"
  line_entry_file_spec :: "'l \<Rightarrow> sblineentry \<Rightarrow> sbfilespec"

text \<open>Files, and what the local file system knows of them.\<close>

record 'l file_api =
  filespec_is_valid :: "'l \<Rightarrow> sbfilespec \<Rightarrow> bool"
  filespec_path :: "'l \<Rightarrow> sbfilespec \<Rightarrow> string"
  filespec_filename :: "'l \<Rightarrow> sbfilespec \<Rightarrow> string"
  get_fs_path_case :: "string \<Rightarrow> string option"
  path_is_file :: "string \<Rightarrow> bool"

end
