(* ===== verification/Disassembly.thy ===== *)
theory Disassembly
  imports Lldb_Api Handles
begin

text \<open>
  The table of disassembled ranges and the virtual source text of a range (\<^verbatim>\<open>disassembly.rs\<close>).
  The table keeps every range twice: by handle, and in a vector sorted by start address.
\<close>

section \<open>Model\<close>

record dasm_range =
  dr_handle :: handle
  dr_start_addr :: sbaddress
  load_range :: "address \<times> address"
  dr_source_name :: string
  instructions :: "sbinstruction list"
  instruction_addresses :: "address list"

record dasm_ranges =
  by_handle :: "(handle \<times> dasm_range) list"
  by_address :: "dasm_range list"

definition ranges_new :: dasm_ranges where
  "ranges_new = \<lparr>by_handle = [], by_address = []\<rparr>"

definition find_by_handle :: "dasm_ranges \<Rightarrow> handle \<Rightarrow> dasm_range option" where
  "find_by_handle rs h = hm_get (by_handle rs) h"

definition range_contains :: "address \<times> address \<Rightarrow> address \<Rightarrow> bool" where
  "range_contains r a \<longleftrightarrow> fst r \<le> a \<and> a < snd r"

definition find_by_address :: "dasm_ranges \<Rightarrow> address \<Rightarrow> dasm_range option" where
  "find_by_address rs load_addr =
     (let idx = partition_point (\<lambda>dasm. fst (load_range dasm) \<le> load_addr) (by_address rs)
      in if idx > 0 then
           (let dasm = by_address rs ! (idx - 1)
            in if range_contains (load_range dasm) load_addr then Some dasm else None)
         else None)"

text \<open>Entering a range into both tables.\<close>

definition enter_range :: "dasm_ranges \<Rightarrow> dasm_range \<Rightarrow> dasm_ranges" where
  "enter_range rs dasm =
     \<lparr>by_handle = hm_insert (dr_handle dasm) dasm (by_handle rs),
      by_address = insert_at
        (partition_point (\<lambda>d. fst (load_range d) < fst (load_range dasm)) (by_address rs)) dasm (by_address rs)\<rparr>"

definition add_range :: "'l dasm_api \<Rightarrow> 'l \<Rightarrow> dasm_ranges \<Rightarrow> sbaddress \<Rightarrow> sbaddress \<Rightarrow> sbinstruction list \<Rightarrow>
    dasm_range \<times> dasm_ranges" where
  "add_range api l rs start_addr end_addr instrs =
     (let new_handle = wrap_i64 (int (length (by_handle rs)) + 1000);
          start_load_addr = load_address api l start_addr;
          end_load_addr = load_address api l end_addr;
          dasm = \<lparr>dr_handle = new_handle,
            dr_start_addr = start_addr,
            load_range = (start_load_addr, end_load_addr),
            dr_source_name = (case addr_symbol api l start_addr of
               Some symbol \<Rightarrow> ''@'' @ symbol_name api l symbol
             | None \<Rightarrow> ''@'' @ show_hex (unat start_load_addr) @ ''..'' @ show_hex (unat end_load_addr)),
            instructions = instrs,
            instruction_addresses = map (\<lambda>i. load_address api l (instr_address api l i)) instrs\<rparr>
      in (dasm, enter_range rs dasm))"

text \<open>How many instructions make a range where there is no symbol.\<close>

definition NO_SYMBOL_INSTRUCTIONS :: u32 where
  "NO_SYMBOL_INSTRUCTIONS = 32"

definition range_bounds :: "'l dasm_api \<Rightarrow> 'l \<Rightarrow> address \<Rightarrow> sbaddress \<times> sbaddress \<times> sbinstruction list" where
  "range_bounds api l load_addr =
     (let addr = from_load_address api l load_addr
      in case addr_symbol api l addr of
           Some symbol \<Rightarrow>
             (symbol_start_address api l symbol, symbol_end_address api l symbol, symbol_instructions api l symbol)
         | None \<Rightarrow>
             (let instrs = read_instructions api l addr (NO_SYMBOL_INSTRUCTIONS + 1) (disassembly_flavor api l)
              in (addr, if length instrs > 0 then instr_address api l (last instrs) else addr, instrs)))"

definition from_address :: "'l dasm_api \<Rightarrow> 'l \<Rightarrow> dasm_ranges \<Rightarrow> address \<Rightarrow> (string + dasm_range) \<times> dasm_ranges" where
  "from_address api l rs load_addr =
     (case find_by_address rs load_addr of
        Some dasm \<Rightarrow> (Inr dasm, rs)
      | None \<Rightarrow>
          (case range_bounds api l load_addr of (start_addr, end_addr, instrs) \<Rightarrow>
             if length instrs > 0
             then (case add_range api l rs start_addr end_addr instrs of (dasm, rs') \<Rightarrow> (Inr dasm, rs'))
             else (Inl ''Can't read instructions at that address.'', rs)))"

section \<open>Lines\<close>

definition line_num_by_address :: "dasm_range \<Rightarrow> address \<Rightarrow> u32" where
  "line_num_by_address d load_addr =
     of_nat (partition_point (\<lambda>addr. addr < load_addr) (instruction_addresses d)) + 3"

text \<open>The subtraction is done on 64 bits and wraps around below line 3.\<close>

definition address_by_line_num :: "dasm_range \<Rightarrow> u32 \<Rightarrow> address exec" where
  "address_by_line_num d line = slice_index (instruction_addresses d) (unat ((ucast line :: u64) - 3))"

record adapter_data =
  ad_start :: address
  ad_end :: address
  line_offsets :: "u32 list"

fun windows_diff :: "address list \<Rightarrow> u32 list" where
  "windows_diff (a # b # xs) = ucast (b - a) # windows_diff (b # xs)"
| "windows_diff _ = []"

definition adapter_data_of :: "dasm_range \<Rightarrow> adapter_data" where
  "adapter_data_of d =
     \<lparr>ad_start = fst (load_range d), ad_end = snd (load_range d),
      line_offsets = windows_diff (instruction_addresses d)\<rparr>"

fun scan_offsets :: "address \<Rightarrow> u32 list \<Rightarrow> address list" where
  "scan_offsets addr [] = []"
| "scan_offsets addr (delta # ds) = (let addr' = addr + ucast delta in addr' # scan_offsets addr' ds)"

definition lines_from_adapter_data :: "adapter_data \<Rightarrow> address list" where
  "lines_from_adapter_data ad = replicate 4 (ad_start ad) @ scan_offsets (ad_start ad) (line_offsets ad)"

text \<open>The text of a range.  \<open>dump_bytes\<close> is the loop over the bytes of an instruction, which it cuts
  off after \<open>n\<close> bytes.\<close>

fun dump_bytes :: "nat \<Rightarrow> u8 list \<Rightarrow> string" where
  "dump_bytes n [] = ''''"
| "dump_bytes 0 (b # bs) = ''>''"
| "dump_bytes (Suc n) (b # bs) = pad_zeros 2 (show_HEX (unat b)) @ '' '' @ dump_bytes n bs"

definition instruction_text :: "'l dasm_api \<Rightarrow> 'l \<Rightarrow> sbinstruction \<Rightarrow> string" where
  "instruction_text api l i =
     pad_right 6 (instr_mnemonic api l i) @ '' '' @ instr_operands api l i @
     (if instr_comment api l i = [] then '''' else ''  ; '') @ instr_comment api l i"

definition source_line :: "'l dasm_api \<Rightarrow> 'l \<Rightarrow> nat \<Rightarrow> sbinstruction \<Rightarrow> string" where
  "source_line api l max_instr_bytes i =
     pad_zeros 8 (show_HEX (unat (load_address api l (instr_address api l i)))) @ '': '' @
     pad_right (max_instr_bytes * 3 + 2)
       (case instr_raw_data api l i of None \<Rightarrow> '''' | Some bs \<Rightarrow> dump_bytes max_instr_bytes bs) @
     '' '' @ instruction_text api l i"

definition symbol_header :: "'l dasm_api \<Rightarrow> 'l \<Rightarrow> sbaddress \<Rightarrow> string" where
  "symbol_header api l a =
     ''; Symbol: '' @
     (case addr_symbol api l a of
        Some symbol \<Rightarrow> symbol_display_name api l symbol @
          (if length (symbol_mangled_name api l symbol) > 0
           then '', mangled name='' @ symbol_mangled_name api l symbol else '''')
      | None \<Rightarrow> ''no symbol info'')"

definition source_header :: "'l dasm_api \<Rightarrow> 'l file_api \<Rightarrow> 'l \<Rightarrow> sbaddress \<Rightarrow> string" where
  "source_header api fapi l a =
     ''; Source: '' @
     (case addr_line_entry api l a of
        Some le \<Rightarrow> filespec_path fapi l (line_entry_file_spec api l le) @ '':'' @ show_nat (unat (line_entry_line api l le))
      | None \<Rightarrow> ''unknown'')"

definition get_source_text :: "'l dasm_api \<Rightarrow> 'l file_api \<Rightarrow> 'l \<Rightarrow> dasm_range \<Rightarrow> nat \<Rightarrow> string" where
  "get_source_text api fapi l d max_instr_bytes =
     symbol_header api l (dr_start_addr d) @ [LF] @
     source_header api fapi l (dr_start_addr d) @ [LF] @
     concat (map (\<lambda>i. source_line api l max_instr_bytes i @ [LF]) (instructions d))"

section \<open>An index kept in order\<close>

text \<open>What a table must promise so that the element before the partition point is the right one.\<close>

locale ordered_index =
  fixes entries :: "'s \<Rightarrow> 'a list" and key :: "'a \<Rightarrow> 'k::linorder" and ok :: "'s \<Rightarrow> bool"
    and enter :: "'s \<Rightarrow> 'a \<Rightarrow> 's"
  assumes entries_sorted: "ok s \<Longrightarrow> sorted (map key (entries s))"
    and enter_entries: "ok s \<Longrightarrow> set (entries (enter s x)) = insert x (set (entries s))"
begin

lemma floor_position:
  assumes "ok s" "x \<in> set (entries s)" "key x \<le> k"
  shows "0 < partition_point (\<lambda>y. key y \<le> k) (entries s)"
    "key x \<le> key (entries s ! (partition_point (\<lambda>y. key y \<le> k) (entries s) - 1))"
    "key (entries s ! (partition_point (\<lambda>y. key y \<le> k) (entries s) - 1)) \<le> k"
proof -
  let ?xs = "entries s" and ?p = "\<lambda>y. key y \<le> k"
  have sorted: "sorted (map key ?xs)" using assms(1) by (rule entries_sorted)
  obtain i where i: "i < length ?xs" "?xs ! i = x" using assms(2) by (auto simp: in_set_conv_nth)
  have "partitioned ?p ?xs"
    unfolding partitioned_def
  proof (intro allI impI)
    fix i j
    assume "i < j" "j < length ?xs" "?p (?xs ! j)"
    then show "?p (?xs ! i)"
      using sorted_nth_mono [OF sorted, of i j] by simp
  qed
  then have lt: "i < partition_point ?p ?xs"
    using i assms(3) by (metis not_less partition_point_after)
  then show "0 < partition_point ?p ?xs" by simp
  have bound: "partition_point ?p ?xs - 1 < length ?xs" "i \<le> partition_point ?p ?xs - 1"
    using lt partition_point_le [of ?p ?xs] by linarith+
  then have "map key ?xs ! i \<le> map key ?xs ! (partition_point ?p ?xs - 1)"
    using sorted by (intro sorted_nth_mono) auto
  then show "key x \<le> key (?xs ! (partition_point ?p ?xs - 1))" using i bound by simp
  show "key (?xs ! (partition_point ?p ?xs - 1)) \<le> k"
    using partition_point_before [of "partition_point ?p ?xs - 1" ?p ?xs] lt by simp
qed

lemma entered_is_found:
  assumes "ok s" "ok (enter s x)" "key x \<le> k" "\<forall>y \<in> set (entries s). key y < key x \<or> k < key y"
  shows "entries (enter s x) ! (partition_point (\<lambda>y. key y \<le> k) (entries (enter s x)) - 1) = x"
proof -
  let ?xs = "entries (enter s x)" and ?n = "partition_point (\<lambda>y. key y \<le> k) (entries (enter s x))"
  have x: "x \<in> set ?xs" using enter_entries [OF assms(1)] by simp
  note pos = floor_position [OF assms(2) x assms(3)]
  have "?n - 1 < length ?xs" using pos(1) partition_point_le [of "\<lambda>y. key y \<le> k" ?xs] by linarith
  then have "?xs ! (?n - 1) \<in> insert x (set (entries s))" using enter_entries [OF assms(1)] nth_mem by blast
  then show ?thesis using pos(2,3) assms(4) by (metis insertE leD)
qed

end

section \<open>Invariant of the table\<close>

abbreviation range_start :: "dasm_range \<Rightarrow> address" where
  "range_start d \<equiv> fst (load_range d)"

definition ranges_ok :: "dasm_ranges \<Rightarrow> bool" where
  "ranges_ok rs \<longleftrightarrow>
     sorted (map range_start (by_address rs)) \<and>
     set (by_address rs) = snd ` set (by_handle rs) \<and>
     (\<forall>(h, d) \<in> set (by_handle rs). dr_handle d = h) \<and>
     map fst (by_handle rs) = map (\<lambda>n. int n + 1000) [0..<length (by_handle rs)]"

lemma ranges_ok_new: "ranges_ok ranges_new"
  by (simp add: ranges_ok_def ranges_new_def)

lemma sorted_insert_at:
  assumes "sorted (map f xs)"
  shows "sorted (map f (insert_at (partition_point (\<lambda>y. f y < f x) xs) x xs))"
proof -
  let ?p = "\<lambda>y. f y < f x"
  have "take (partition_point ?p xs) xs = takeWhile ?p xs"
    unfolding partition_point_def by (rule takeWhile_eq_take [symmetric])
  moreover have "drop (partition_point ?p xs) xs = dropWhile ?p xs"
    unfolding partition_point_def by (rule dropWhile_eq_drop [symmetric])
  moreover have "sorted (map f (takeWhile ?p xs)) \<and> sorted (map f (dropWhile ?p xs)) \<and>
      (\<forall>y \<in> set (dropWhile ?p xs). f x \<le> f y)"
    using assms
  proof (induction xs)
    case (Cons y ys)
    then show ?case by (auto simp: not_less dest: set_takeWhileD intro: order_trans)
  qed simp
  moreover have "\<forall>y \<in> set (takeWhile ?p xs). f y < f x" by (auto dest: set_takeWhileD)
  ultimately show ?thesis
    unfolding insert_at_def by (force simp: sorted_append intro: order_trans less_imp_le)
qed

lemma fresh_range_handle:
  assumes "map fst kvs = map (\<lambda>n. int n + 1000) [0..<length kvs]"
  shows "hm_insert (int (length kvs) + 1000) d kvs = kvs @ [(int (length kvs) + 1000, d)]"
proof -
  have "int (length kvs) + 1000 \<notin> fst ` set kvs"
    using arg_cong [OF assms, of set] by auto
  then show ?thesis by (rule hm_insert_fresh)
qed

lemma enter_range_ok:
  assumes "ranges_ok rs" "dr_handle d = int (length (by_handle rs)) + 1000"
  shows "ranges_ok (enter_range rs d)"
    "set (by_address (enter_range rs d)) = insert d (set (by_address rs))"
    "find_by_handle (enter_range rs d) = (find_by_handle rs)(dr_handle d \<mapsto> d)"
    "find_by_handle rs (dr_handle d) = None"
proof -
  have keys: "map fst (by_handle rs) = map (\<lambda>n. int n + 1000) [0..<length (by_handle rs)]"
    using assms(1) by (simp add: ranges_ok_def)
  have ins: "by_handle (enter_range rs d) = by_handle rs @ [(dr_handle d, d)]"
    using fresh_range_handle [OF keys, of d] assms(2) by (simp add: enter_range_def)
  show set: "set (by_address (enter_range rs d)) = insert d (set (by_address rs))"
    by (simp add: enter_range_def)
  show "ranges_ok (enter_range rs d)"
    using assms sorted_insert_at [of range_start "by_address rs" d] set ins
    by (auto simp: ranges_ok_def enter_range_def)
  show "find_by_handle (enter_range rs d) = (find_by_handle rs)(dr_handle d \<mapsto> d)"
    by (simp add: fun_eq_iff find_by_handle_def enter_range_def update_conv')
  have "dr_handle d \<notin> fst ` set (by_handle rs)"
    using arg_cong [OF keys, of set] assms(2) by auto
  then show "find_by_handle rs (dr_handle d) = None"
    by (simp add: find_by_handle_def map_of_eq_None_iff)
qed

interpretation range_index: ordered_index by_address range_start ranges_ok enter_range
  by unfold_locales (simp_all add: ranges_ok_def enter_range_def)

lemma find_by_handle_entry:
  assumes "ranges_ok rs" "d \<in> set (by_address rs)"
  shows "find_by_handle rs (dr_handle d) = Some d"
proof -
  obtain h where "(h, d) \<in> set (by_handle rs)" "dr_handle d = h"
    using assms by (force simp: ranges_ok_def)
  moreover have "distinct (map fst (by_handle rs))"
    using assms(1) by (simp add: ranges_ok_def distinct_map inj_on_def)
  ultimately show ?thesis by (simp add: find_by_handle_def)
qed

lemma find_by_address_sound:
  "find_by_address rs a = Some d \<Longrightarrow> d \<in> set (by_address rs) \<and> range_contains (load_range d) a"
proof -
  assume f: "find_by_address rs a = Some d"
  let ?n = "partition_point (\<lambda>dasm. fst (load_range dasm) \<le> a) (by_address rs)"
  have "?n > 0" "d = by_address rs ! (?n - 1)" "range_contains (load_range d) a"
    using f by (auto simp: find_by_address_def Let_def split: if_splits)
  moreover have "?n \<le> length (by_address rs)" by simp
  ultimately show ?thesis by (metis Suc_diff_1 Suc_le_eq nth_mem)
qed

text \<open>No two ranges overlap and none is empty.\<close>

definition disjoint_ranges :: "dasm_ranges \<Rightarrow> bool" where
  "disjoint_ranges rs \<longleftrightarrow>
     (\<forall>d \<in> set (by_address rs). fst (load_range d) < snd (load_range d) \<and>
        (\<forall>d' \<in> set (by_address rs). d \<noteq> d' \<longrightarrow>
           snd (load_range d) \<le> fst (load_range d') \<or> snd (load_range d') \<le> fst (load_range d)))"

text \<open>
  Property C15.  Lookup by address is sound and complete: what it finds is a range of the table
  that contains the address, and as long as the ranges do not overlap it finds every range from
  each of its addresses.
\<close>

theorem find_by_address_correct:
  assumes "ranges_ok rs" "disjoint_ranges rs"
  shows "find_by_address rs a = Some d \<longleftrightarrow> d \<in> set (by_address rs) \<and> range_contains (load_range d) a"
proof
  assume d: "d \<in> set (by_address rs) \<and> range_contains (load_range d) a"
  let ?xs = "by_address rs" and ?n = "partition_point (\<lambda>y. range_start y \<le> a) (by_address rs)"
  have le: "range_start d \<le> a" using d by (simp add: range_contains_def)
  note pos = range_index.floor_position [OF assms(1) _ le]
  have n: "0 < ?n" "range_start d \<le> range_start (?xs ! (?n - 1))" "range_start (?xs ! (?n - 1)) \<le> a"
    using pos d by auto
  have mem: "?xs ! (?n - 1) \<in> set ?xs"
    using n(1) partition_point_le [of "\<lambda>y. range_start y \<le> a" ?xs] by (intro nth_mem) linarith
  have "?xs ! (?n - 1) = d"
  proof (rule ccontr)
    assume ne: "?xs ! (?n - 1) \<noteq> d"
    have "snd (load_range d) \<le> range_start (?xs ! (?n - 1)) \<or> snd (load_range (?xs ! (?n - 1))) \<le> range_start d"
      "range_start (?xs ! (?n - 1)) < snd (load_range (?xs ! (?n - 1)))"
      using assms(2) d mem ne unfolding disjoint_ranges_def by blast+
    then show False using n(2,3) d by (auto simp: range_contains_def)
  qed
  then show "find_by_address rs a = Some d"
    using n(1) d by (simp add: find_by_address_def Let_def)
qed (rule find_by_address_sound)

definition sample_range :: "handle \<Rightarrow> address \<Rightarrow> address \<Rightarrow> dasm_range" where
  "sample_range h a b = \<lparr>dr_handle = h, dr_start_addr = SBAddress 0, load_range = (a, b), dr_source_name = ''@f'',
     instructions = [], instruction_addresses = []\<rparr>"

definition sample_ranges :: dasm_ranges where
  "sample_ranges = enter_range (enter_range (enter_range ranges_new (sample_range 1000 1000 2000))
     (sample_range 1001 4000 5000)) (sample_range 1002 3000 4000)"

lemma sample_ranges_eq:
  "by_handle sample_ranges = [(1000, sample_range 1000 1000 2000), (1001, sample_range 1001 4000 5000),
     (1002, sample_range 1002 3000 4000)]"
  "by_address sample_ranges = [sample_range 1000 1000 2000, sample_range 1002 3000 4000, sample_range 1001 4000 5000]"
  by (simp_all add: sample_ranges_def enter_range_def ranges_new_def sample_range_def partition_point_def insert_at_def)

theorem find_by_address_correct_witness:
  "find_by_address sample_ranges 3999 = Some (sample_range 1002 3000 4000) \<and>
   find_by_address sample_ranges 2000 \<noteq> Some (sample_range 1000 1000 2000)"
proof -
  have "ranges_ok sample_ranges"
    by (auto simp: ranges_ok_def sample_ranges_eq) (simp_all add: sample_range_def)
  moreover have "disjoint_ranges sample_ranges"
    by (simp add: disjoint_ranges_def sample_ranges_eq) (simp add: sample_range_def)
  ultimately show ?thesis
    using find_by_address_correct [of sample_ranges]
    by (simp add: sample_ranges_eq range_contains_def) (simp add: sample_range_def)
qed

text \<open>
  Property C16.  Ranges are registered once and for good: asking for an address keeps the table in
  order, the range it returns is found again by its handle, every handle handed out before still
  denotes the same range, and a failure leaves the table alone.
\<close>

theorem from_address_registers:
  assumes "ranges_ok rs" "int (length (by_handle rs)) < 2 ^ 62"
    and "from_address api l rs a = (r, rs')"
  shows "ranges_ok rs' \<and>
    (case r of
       Inl _ \<Rightarrow> rs' = rs
     | Inr d \<Rightarrow> find_by_handle rs' (dr_handle d) = Some d \<and> d \<in> set (by_address rs') \<and>
         (\<forall>h d'. find_by_handle rs h = Some d' \<longrightarrow> find_by_handle rs' h = Some d'))"
proof (cases "find_by_address rs a")
  case (Some d)
  then show ?thesis
    using assms find_by_address_sound [OF Some] find_by_handle_entry [OF assms(1)]
    by (auto simp: from_address_def)
next
  case None
  obtain sa ea instrs where b: "range_bounds api l a = (sa, ea, instrs)" by (metis prod_cases3)
  show ?thesis
  proof (cases "instrs = []")
    case True
    then show ?thesis using assms None b by (auto simp: from_address_def)
  next
    case False
    obtain d rs2 where add: "add_range api l rs sa ea instrs = (d, rs2)" by fastforce
    then have r: "r = Inr d" "rs' = rs2" using assms(3) None b False by (auto simp: from_address_def)
    have "wrap_i64 (int (length (by_handle rs)) + 1000) = int (length (by_handle rs)) + 1000"
      using assms(2) by (intro wrap_i64_id) (simp add: is_i64_def)
    then have "dr_handle d = int (length (by_handle rs)) + 1000" "rs2 = enter_range rs d"
      using add by (auto simp: add_range_def Let_def)
    then show ?thesis using enter_range_ok [OF assms(1)] r by auto
  qed
qed

text \<open>A debuggee without symbols in which every address holds an instruction of one byte.\<close>

definition stub_dasm_api :: "unit dasm_api" where
  "stub_dasm_api = \<lparr>from_load_address = \<lambda>_ a. SBAddress (unat a),
      load_address = \<lambda>_ a. (case a of SBAddress n \<Rightarrow> of_nat n),
      addr_symbol = \<lambda>_ _. None, addr_line_entry = \<lambda>_ _. None, symbol_start_address = \<lambda>_ _. SBAddress 0,
      symbol_end_address = \<lambda>_ _. SBAddress 0, symbol_instructions = \<lambda>_ _. [], symbol_name = \<lambda>_ _. '''',
      symbol_display_name = \<lambda>_ _. '''', symbol_mangled_name = \<lambda>_ _. '''', disassembly_flavor = \<lambda>_. None,
      target_triple = \<lambda>_. ''x86_64-linux'',
      read_instructions = \<lambda>_ a n _. (case a of SBAddress k \<Rightarrow> map (\<lambda>i. SBInstruction (k + i)) [0..<unat n]),
      get_instructions = \<lambda>_ a bs _. (case a of SBAddress k \<Rightarrow> map (\<lambda>i. SBInstruction (k + i)) [0..<length bs]),
      instr_address = \<lambda>_ i. (case i of SBInstruction k \<Rightarrow> SBAddress k), instr_byte_size = \<lambda>_ _. 1,
      instr_mnemonic = \<lambda>_ _. ''nop'', instr_operands = \<lambda>_ _. '''', instr_comment = \<lambda>_ _. '''',
      instr_raw_data = \<lambda>_ _. Some [0x90], process_read_memory = \<lambda>_ _ n. Inr (replicate n 0x90),
      line_entry_line = \<lambda>_ _. 0, line_entry_column = \<lambda>_ _. 0, line_entry_file_spec = \<lambda>_ _. SBFileSpec 0\<rparr>"

theorem from_address_registers_witness:
  "\<exists>d rs'. from_address stub_dasm_api () ranges_new 8 = (Inr d, rs') \<and>
     find_by_handle rs' (dr_handle d) = Some d \<and> ranges_ok rs'"
proof -
  have "\<exists>d rs'. from_address stub_dasm_api () ranges_new 8 = (Inr d, rs')"
    by (simp add: from_address_def find_by_address_def ranges_new_def partition_point_def range_bounds_def Let_def
        stub_dasm_api_def NO_SYMBOL_INSTRUCTIONS_def split: prod.split)
  then obtain d rs' where f: "from_address stub_dasm_api () ranges_new 8 = (Inr d, rs')" by blast
  have "int (length (by_handle ranges_new)) < 2 ^ 62" by (simp add: ranges_new_def)
  from from_address_registers [OF ranges_ok_new this f] f show ?thesis by auto
qed

section \<open>Line numbers\<close>

lemma sorted_wrt_less_partition:
  "sorted_wrt (<) xs \<Longrightarrow> i < length xs \<Longrightarrow> partition_point (\<lambda>a. a < xs ! i) xs = i"
  for xs :: "'a :: linorder list"
proof -
  assume s: "sorted_wrt (<) xs" and i: "i < length xs"
  let ?p = "\<lambda>a. a < xs ! i"
  have before: "?p (xs ! j)" if "j < i" for j using s i that by (simp add: sorted_wrt_iff_nth_less)
  have after: "\<not> ?p (xs ! i)" by simp
  have "i \<le> partition_point ?p xs"
    using partition_point_at [of ?p xs] before by (metis i not_le order.strict_trans)
  moreover have "partition_point ?p xs \<le> i"
    using partition_point_before [of i ?p xs] after by (metis not_le)
  ultimately show ?thesis by simp
qed

text \<open>
  Lines and instructions correspond: the line reported for the address of the
  \<open>i\<close>-th instruction is \<open>i + 3\<close>, and this line leads back to the address.  A line above the first or
  below the last instruction makes the lookup panic.
\<close>

theorem line_address_round_trip:
  assumes "sorted_wrt (<) (instruction_addresses d)" "length (instruction_addresses d) + 3 < 2 ^ 32"
    and "i < length (instruction_addresses d)"
  shows "line_num_by_address d (instruction_addresses d ! i) = of_nat (i + 3) \<and>
    address_by_line_num d (line_num_by_address d (instruction_addresses d ! i)) = Done (instruction_addresses d ! i) \<and>
    address_by_line_num d 2 = Panic \<and>
    address_by_line_num d (of_nat (length (instruction_addresses d) + 3)) = Panic"
proof -
  let ?n = "length (instruction_addresses d)"
  have line: "line_num_by_address d (instruction_addresses d ! i) = of_nat (i + 3)"
    using sorted_wrt_less_partition [OF assms(1,3)] by (simp add: line_num_by_address_def)
  have sub: "unat ((ucast (of_nat (k + 3) :: u32) :: u64) - 3) = k" if "k + 3 < 2 ^ 32" for k
  proof -
    have "unat (of_nat (k + 3) :: u32) = k + 3" using that by (intro of_nat_inverse [OF refl]) simp
    moreover have "unat (of_nat (k + 3) :: u64) = k + 3" using that by (intro of_nat_inverse [OF refl]) simp
    ultimately have "(ucast (of_nat (k + 3) :: u32) :: u64) = of_nat (k + 3)"
      using that by (simp add: word_unat_eq_iff unsigned_ucast_eq take_bit_nat_eq_self)
    then have "(ucast (of_nat (k + 3) :: u32) :: u64) - 3 = of_nat k" by simp
    moreover have "unat (of_nat k :: u64) = k" using that by (intro of_nat_inverse [OF refl]) simp
    ultimately show ?thesis by simp
  qed
  have two: "2 ^ 32 \<le> unat ((ucast (2 :: u32) :: u64) - 3)"
    by (simp add: unsigned_minus_1_eq_mask mask_eq_exp_minus_1)
  have "?n \<le> unat ((ucast (2 :: u32) :: u64) - 3)" using two assms(2) by linarith
  then show ?thesis
    using line sub [of i] sub [of ?n] assms by (simp add: address_by_line_num_def del: of_nat_add)
qed

theorem line_address_round_trip_witness:
  "let d = \<lparr>dr_handle = 1000, dr_start_addr = SBAddress 0, load_range = (10, 25), dr_source_name = ''@f'',
       instructions = [], instruction_addresses = [10, 20, 23]\<rparr>
   in line_num_by_address d 20 = 4 \<and> address_by_line_num d 4 = Done 20 \<and> address_by_line_num d 6 = Panic"
  using line_address_round_trip [of "\<lparr>dr_handle = 1000, dr_start_addr = SBAddress 0, load_range = (10, 25),
      dr_source_name = ''@f'', instructions = [], instruction_addresses = [10, 20, 23]\<rparr>" 1]
  by (auto simp: Let_def)

section \<open>Adapter data\<close>

text \<open>Consecutive instructions are less than four gigabytes apart and addresses do not wrap.\<close>

fun close_addresses :: "address list \<Rightarrow> bool" where
  "close_addresses (a # b # xs) \<longleftrightarrow> a \<le> b \<and> uint b - uint a < 2 ^ 32 \<and> close_addresses (b # xs)"
| "close_addresses _ \<longleftrightarrow> True"

lemma ucast_diff:
  "a \<le> b \<Longrightarrow> uint b - uint a < 2 ^ 32 \<Longrightarrow> a + ucast (ucast (b - a) :: u32) = b" for a b :: u64
proof -
  assume "a \<le> b" "uint b - uint a < 2 ^ 32"
  then have "uint (b - a) < 2 ^ 32" by (simp add: word_le_def uint_sub_lem [THEN iffD1])
  then have "ucast (ucast (b - a) :: u32) = b - a"
    by (simp add: word_uint_eq_iff unsigned_ucast_eq unsigned_take_bit_eq take_bit_int_eq_self)
  then show ?thesis by simp
qed

lemma scan_windows: "close_addresses (a # xs) \<Longrightarrow> scan_offsets a (windows_diff (a # xs)) = xs"
  by (induction xs arbitrary: a) (auto simp: ucast_diff Let_def)

text \<open>
  The adapter data stored with a breakpoint in disassembly describe the range
  completely: from them the address of every line is restored, the first three lines being mapped to
  the start of the range.
\<close>

theorem adapter_data_round_trip:
  assumes "instruction_addresses d = fst (load_range d) # xs" "close_addresses (instruction_addresses d)"
  shows "lines_from_adapter_data (adapter_data_of d) =
    replicate 3 (fst (load_range d)) @ instruction_addresses d"
proof -
  have "replicate 4 x = replicate 3 x @ [x]" for x :: address by (simp add: eval_nat_numeral)
  then show ?thesis
    using assms by (simp add: lines_from_adapter_data_def adapter_data_of_def scan_windows)
qed

theorem adapter_data_round_trip_witness:
  "lines_from_adapter_data \<lparr>ad_start = 10, ad_end = 55, line_offsets = windows_diff [10, 20, 23]\<rparr> =
    [10, 10, 10, 10, 20, 23]"
  using adapter_data_round_trip [of "\<lparr>dr_handle = 1000, dr_start_addr = SBAddress 0, load_range = (10, 55),
      dr_source_name = ''@f'', instructions = [], instruction_addresses = [10, 20, 23]\<rparr>" "[20, 23]"]
  by (simp add: adapter_data_of_def numeral_3_eq_3)

section \<open>The text agrees with the line numbers\<close>

fun text_lines :: "string \<Rightarrow> string \<Rightarrow> string list" where
  "text_lines acc [] = (if acc = [] then [] else [rev acc])"
| "text_lines acc (c # s) = (if c = LF then rev acc # text_lines [] s else text_lines (c # acc) s)"

lemma text_lines_line: "LF \<notin> set x \<Longrightarrow> text_lines acc (x @ LF # s) = (rev acc @ x) # text_lines [] s"
  by (induction x arbitrary: acc) auto

lemma text_lines_concat:
  "\<forall>x \<in> set xs. LF \<notin> set x \<Longrightarrow> text_lines [] (concat (map (\<lambda>x. x @ [LF]) xs)) = xs"
  by (induction xs) (auto simp: text_lines_line)

text \<open>What LLDB and the file system return for one line is on one line.\<close>

definition one_line_names :: "'l dasm_api \<Rightarrow> 'l file_api \<Rightarrow> 'l \<Rightarrow> dasm_range \<Rightarrow> bool" where
  "one_line_names api fapi l d \<longleftrightarrow>
     LF \<notin> set (symbol_header api l (dr_start_addr d)) \<and> LF \<notin> set (source_header api fapi l (dr_start_addr d)) \<and>
     (\<forall>i \<in> set (instructions d). LF \<notin> set (instruction_text api l i))"

lemma hex_no_newline: "LF \<notin> set (show_HEX n)"
proof -
  have "\<forall>c \<in> set (show_base 16 n []). 48 \<le> byte c \<and> byte c < 128 \<and> (byte c < 58 \<or> 97 \<le> byte c)"
  proof (induction n rule: less_induct)
    case (less n)
    have dig: "48 \<le> byte (digit_char k) \<and> byte (digit_char k) < 128 \<and> (byte (digit_char k) < 58 \<or> 97 \<le> byte (digit_char k))" if "k < 16" for k
      using byte_digit_char [OF that] that by auto
    show ?case
    proof (cases "n < 16")
      case True
      then show ?thesis using dig show_base_step [of 16 n] by simp
    next
      case False
      then show ?thesis
        using less [of "n div 16"] dig [of "n mod 16"] show_base_step [of 16 n] by auto
    qed
  qed
  then have "byte c \<noteq> 10 \<and> (\<not> byte c < 58 \<longrightarrow> (byte c - 32) mod 256 \<noteq> 10)" if "c \<in> set (show_base 16 n [])" for c
    using that by fastforce
  then show ?thesis
    by (fastforce simp: show_HEX_def show_hex_def char_eq_byte split: if_splits)
qed

lemma pad_no_newline [simp]:
  "LF \<in> set (pad_zeros w s) \<longleftrightarrow> LF \<in> set s" "LF \<in> set (pad_right w s) \<longleftrightarrow> LF \<in> set s"
  by (auto simp: pad_zeros_def pad_right_def)

lemma dump_no_newline: "LF \<notin> set (dump_bytes n bs)"
  by (induction n bs rule: dump_bytes.induct) (auto simp: hex_no_newline)

text \<open>
  The line numbers the adapter reports agree with the text it shows: line \<open>i + 3\<close> of
  the text (counting from one) is the \<open>i\<close>-th instruction, and there are no other lines after the two
  header lines.
\<close>

theorem source_text_lines:
  assumes "one_line_names api fapi l d"
  shows "text_lines [] (get_source_text api fapi l d w) =
    symbol_header api l (dr_start_addr d) # source_header api fapi l (dr_start_addr d) #
    map (source_line api l w) (instructions d)"
proof -
  have "\<forall>x \<in> set (map (source_line api l w) (instructions d)). LF \<notin> set x"
    using assms by (auto simp: one_line_names_def source_line_def hex_no_newline dump_no_newline split: option.splits)
  from text_lines_concat [OF this] show ?thesis
    using assms by (simp add: get_source_text_def one_line_names_def text_lines_line comp_def)
qed

theorem source_text_lines_witness:
  "text_lines [] (get_source_text stub_dasm_api undefined () \<lparr>dr_handle = 1000, dr_start_addr = SBAddress 0, load_range = (10, 11),
      dr_source_name = ''@f'', instructions = [SBInstruction 10], instruction_addresses = [10]\<rparr> 2) =
    [''; Symbol: no symbol info'', ''; Source: unknown'', source_line stub_dasm_api () 2 (SBInstruction 10)]"
proof -
  let ?d = "\<lparr>dr_handle = 1000, dr_start_addr = SBAddress 0, load_range = (10, 11),
      dr_source_name = ''@f'', instructions = [SBInstruction 10], instruction_addresses = [10]\<rparr>"
  have "one_line_names stub_dasm_api undefined () ?d"
    by (simp add: one_line_names_def stub_dasm_api_def symbol_header_def source_header_def instruction_text_def
        pad_right_def)
  from source_text_lines [OF this, of 2] show ?thesis
    by (simp add: symbol_header_def source_header_def) (simp add: stub_dasm_api_def)
qed

end
