(* ===== verification/Preprocess.thy ===== *)
theory Preprocess
  imports Rust_Str
begin

text \<open>
  The translation of simple and Python expressions to Python code: \<^verbatim>\<open>expressions/qualified_ident.rs\<close>,
  \<^verbatim>\<open>literals.rs\<close>, \<^verbatim>\<open>simple_expressions.rs\<close> and \<^verbatim>\<open>preprocess.rs\<close>.

  The parsers are built from the \<^verbatim>\<open>nom\<close> library, \<^verbatim>\<open>nom_language\<close> and \<^verbatim>\<open>parse_int\<close>.  The recognizers of these
  libraries, and the operator-precedence parser, are the fields of the record \<open>nom\<close>; the combinators that
  only say in which order recognizers run (\<^verbatim>\<open>alt\<close>, \<^verbatim>\<open>opt\<close>, \<^verbatim>\<open>pair\<close>, \<^verbatim>\<open>preceded\<close>, \<^verbatim>\<open>delimited\<close>, \<^verbatim>\<open>map\<close>) appear as
  that order.  A recognizer returns the rest of the input and what it matched.
\<close>

section \<open>Recognizers\<close>

type_synonym 'a recognizer = "string \<Rightarrow> (string \<times> 'a) option"
type_synonym 'a parser = "string \<Rightarrow> (string \<times> 'a) option exec"

datatype assoc = AssocLeft | AssocRight

text \<open>What the precedence parser asks to be combined (\<^verbatim>\<open>Operation\<close>).\<close>

datatype operation =
    OpPrefix string string
  | OpBinary string string string
  | OpPostfix string "string \<times> string"

text \<open>
  \<open>precedence\<close> takes the parsers of prefix, postfix and binary operators and of operands, and the function
  that combines; an error is the input at which it occurred.
\<close>

record nom =
  tag :: "string \<Rightarrow> string \<Rightarrow> string option"
  space0 :: "string \<Rightarrow> string"
  digit1 :: "string recognizer"
  anychar :: "string recognizer"
  is_alphabetic :: "string \<Rightarrow> bool"
  parse_int_u32 :: "string \<Rightarrow> u32 option"
  none_of :: "string \<Rightarrow> string recognizer"
  one_of :: "string \<Rightarrow> string recognizer"
  is_not :: "string \<Rightarrow> string recognizer"
  alpha1 :: "string recognizer"
  alphanumeric1 :: "string recognizer"
  hex_digit1 :: "string recognizer"
  recognize_float :: "string recognizer"
  satisfy :: "(string \<Rightarrow> bool) \<Rightarrow> string recognizer"
  precedence :: "(string \<times> int) parser \<Rightarrow> ((string \<times> string) \<times> int) parser \<Rightarrow> (string \<times> int \<times> assoc) parser \<Rightarrow>
    string parser \<Rightarrow> (operation \<Rightarrow> string option) \<Rightarrow> string \<Rightarrow> (string + (string \<times> string)) exec"

text \<open>\<^verbatim>\<open>tag\<close> as a recognizer, \<^verbatim>\<open>alt\<close>, \<^verbatim>\<open>pair\<close>, \<^verbatim>\<open>recognize\<close>, and \<^verbatim>\<open>ws\<close> of the prelude.\<close>

definition tag_of :: "nom \<Rightarrow> string \<Rightarrow> string recognizer" where
  "tag_of nm t input = map_option (\<lambda>rest. (rest, t)) (tag nm t input)"

fun alt_of :: "'a recognizer list \<Rightarrow> 'a recognizer" where
  "alt_of [] input = None"
| "alt_of (p # ps) input = (case p input of Some r \<Rightarrow> Some r | None \<Rightarrow> alt_of ps input)"

definition then_of :: "'a recognizer \<Rightarrow> ('a \<Rightarrow> 'b recognizer) \<Rightarrow> 'b recognizer" where
  "then_of p q input = (case p input of None \<Rightarrow> None | Some (rest, x) \<Rightarrow> q x rest)"

definition map_of_parser :: "('a \<Rightarrow> 'b) \<Rightarrow> 'a recognizer \<Rightarrow> 'b recognizer" where
  "map_of_parser f p input = map_option (\<lambda>(rest, x). (rest, f x)) (p input)"

definition recognize :: "'a recognizer \<Rightarrow> string recognizer" where
  "recognize p input = map_option (\<lambda>(rest, x). (rest, take (length input - length rest) input)) (p input)"

definition ws :: "nom \<Rightarrow> 'a recognizer \<Rightarrow> 'a recognizer" where
  "ws nm p input = map_option (\<lambda>(rest, x). (space0 nm rest, x)) (p (space0 nm input))"

text \<open>\<^verbatim>\<open>many0\<close> and its relatives stop where the inner parser fails; one that consumes nothing is an error.\<close>

function many0 :: "'a recognizer \<Rightarrow> string \<Rightarrow> 'a list \<Rightarrow> (string \<times> 'a list) option" where
  "many0 p input acc =
     (case p input of
        None \<Rightarrow> Some (input, acc)
      | Some (rest, x) \<Rightarrow> if length rest < length input then many0 p rest (acc @ [x]) else None)"
  by pat_completeness auto
termination by (relation "measure (\<lambda>(p, input, acc). length input)") auto

declare many0.simps [simp del]

definition many1 :: "'a recognizer \<Rightarrow> 'a list recognizer" where
  "many1 p input = (case p input of None \<Rightarrow> None | Some (rest, x) \<Rightarrow> many0 p rest [x])"

text \<open>After an element: as long as a separator and another element follow.  A separator without an element
  is left alone.\<close>

function separated_rest :: "'b recognizer \<Rightarrow> 'a recognizer \<Rightarrow> string \<Rightarrow> 'a list \<Rightarrow> (string \<times> 'a list) option" where
  "separated_rest sep p input acc =
     (case sep input of
        None \<Rightarrow> Some (input, acc)
      | Some (rest, _) \<Rightarrow>
          (case p rest of
             None \<Rightarrow> Some (input, acc)
           | Some (rest2, x) \<Rightarrow>
               if length rest2 < length input then separated_rest sep p rest2 (acc @ [x]) else None))"
  by pat_completeness auto
termination by (relation "measure (\<lambda>(sep, p, input, acc). length input)") auto

declare separated_rest.simps [simp del]

definition separated_list1 :: "'b recognizer \<Rightarrow> 'a recognizer \<Rightarrow> 'a list recognizer" where
  "separated_list1 sep p input =
     (case p input of None \<Rightarrow> None | Some (rest, x) \<Rightarrow> separated_rest sep p rest [x])"

definition separated_list0 :: "'b recognizer \<Rightarrow> 'a recognizer \<Rightarrow> 'a list recognizer" where
  "separated_list0 sep p input =
     (case p input of None \<Rightarrow> Some (input, []) | Some (rest, x) \<Rightarrow> separated_rest sep p rest [x])"

section \<open>Qualified identifiers\<close>

datatype qident_segment = QIdentSegment string "qident_param list"
  and qident_param = QIdent "qident_segment list" | Other string

definition ident :: "nom \<Rightarrow> string recognizer" where
  "ident nm = recognize (then_of (alt_of [alpha1 nm, tag_of nm ''_''])
     (\<lambda>_ input. many0 (alt_of [alphanumeric1 nm, tag_of nm ''_'']) input []))"

text \<open>The grammar around template parameters, with the parser \<open>q\<close> of qualified identifiers left open.\<close>

definition template_param_of :: "nom \<Rightarrow> qident_segment list recognizer \<Rightarrow> qident_param recognizer" where
  "template_param_of nm q inp = (case q inp of
      Some (rest, segments) \<Rightarrow> Some (rest, QIdent segments)
    | None \<Rightarrow> map_option (\<lambda>(rest, x). (rest, Other (trim x))) (is_not nm ''<,>'' inp))"

definition template_params_of :: "nom \<Rightarrow> qident_segment list recognizer \<Rightarrow> qident_param list recognizer" where
  "template_params_of nm q = then_of (tag_of nm ''<'') (\<lambda>_.
     then_of (separated_list0 (tag_of nm '','') (ws nm (template_param_of nm q))) (\<lambda>ps.
     map_of_parser (\<lambda>_. ps) (tag_of nm ''>'')))"

definition segment_of :: "nom \<Rightarrow> qident_segment list recognizer \<Rightarrow> qident_segment recognizer" where
  "segment_of nm q = then_of (ident nm) (\<lambda>name inp. case template_params_of nm q (space0 nm inp) of
      Some (rest, ps) \<Rightarrow> Some (rest, QIdentSegment name ps)
    | None \<Rightarrow> Some (inp, QIdentSegment name []))"

text \<open>
  The four functions of the grammar call each other; \<open>n\<close> bounds the nesting of template parameters.  Each
  level of nesting consumes a bracket, so that the length of the input is bound enough.
\<close>

primrec qualified_ident_upto :: "nat \<Rightarrow> nom \<Rightarrow> qident_segment list recognizer" where
  "qualified_ident_upto 0 nm input = None"
| "qualified_ident_upto (Suc n) nm input =
     separated_list1 (ws nm (tag_of nm ''::'')) (segment_of nm (qualified_ident_upto n nm))
       (case tag nm ''::'' input of Some rest \<Rightarrow> space0 nm rest | None \<Rightarrow> input)"

definition qualified_ident :: "nom \<Rightarrow> qident_segment list recognizer" where
  "qualified_ident nm input = qualified_ident_upto (Suc (length input)) nm input"

section \<open>Literals\<close>

definition float_literal :: "nom \<Rightarrow> string recognizer" where
  "float_literal nm input = (case recognize_float nm input of
      Some (rest, lexeme) \<Rightarrow>
        if CHR ''.'' \<in> set lexeme \<or> CHR ''e'' \<in> set lexeme \<or> CHR ''E'' \<in> set lexeme then Some (rest, lexeme) else None
    | None \<Rightarrow> None)"

definition radix_literal :: "nom \<Rightarrow> string \<Rightarrow> string \<Rightarrow> 'a recognizer \<Rightarrow> string recognizer" where
  "radix_literal nm lower upper digits = recognize (then_of (alt_of [tag_of nm lower, tag_of nm upper]) (\<lambda>_. digits))"

definition binary_literal :: "nom \<Rightarrow> string recognizer" where
  "binary_literal nm = radix_literal nm ''0b'' ''0B'' (many1 (one_of nm ''01''))"

definition octal_literal :: "nom \<Rightarrow> string recognizer" where
  "octal_literal nm = radix_literal nm ''0o'' ''0O'' (many1 (one_of nm ''01234567''))"

definition hex_literal :: "nom \<Rightarrow> string recognizer" where
  "hex_literal nm = radix_literal nm ''0x'' ''0X'' (hex_digit1 nm)"

definition integer_literal :: "nom \<Rightarrow> string recognizer" where
  "integer_literal nm = alt_of [hex_literal nm, binary_literal nm, octal_literal nm, digit1 nm]"

definition numeric_literal :: "nom \<Rightarrow> string recognizer" where
  "numeric_literal nm = alt_of [float_literal nm, integer_literal nm]"

definition is_word_char :: "string \<Rightarrow> bool" where
  "is_word_char s \<longleftrightarrow> (case s of
      [c] \<Rightarrow> (48 \<le> byte c \<and> byte c \<le> 57) \<or> (65 \<le> byte c \<and> byte c \<le> 90) \<or> (97 \<le> byte c \<and> byte c \<le> 122) \<or> c = CHR ''_''
    | _ \<Rightarrow> False)"

definition boolean_literal :: "nom \<Rightarrow> string recognizer" where
  "boolean_literal nm input =
     (case alt_of [map_of_parser (\<lambda>_. ''True'') (alt_of [tag_of nm ''true'', tag_of nm ''True'']),
                   map_of_parser (\<lambda>_. ''False'') (alt_of [tag_of nm ''false'', tag_of nm ''False''])] input of
        Some (rest, b) \<Rightarrow> if satisfy nm is_word_char rest = None then Some (rest, b) else None
      | None \<Rightarrow> None)"

section \<open>Strings and native expressions\<close>

definition delimited :: "nom \<Rightarrow> string \<Rightarrow> 'a recognizer \<Rightarrow> string \<Rightarrow> 'a recognizer" where
  "delimited nm left p right =
     then_of (tag_of nm left) (\<lambda>_. then_of p (\<lambda>x. map_of_parser (\<lambda>_. x) (tag_of nm right)))"

definition string_body :: "nom \<Rightarrow> string \<Rightarrow> string list recognizer" where
  "string_body nm delim input =
     many0 (alt_of [recognize (then_of (tag_of nm [CHR 0x5C]) (\<lambda>_. anychar nm)), none_of nm delim]) input []"

definition python_string :: "nom \<Rightarrow> string recognizer" where
  "python_string nm = recognize (alt_of
     [recognize (delimited nm [CHR 0x22] (string_body nm [CHR 0x22]) [CHR 0x22]),
      recognize (delimited nm [CHR 0x27] (string_body nm [CHR 0x27]) [CHR 0x27]),
      delimited nm [CHR ''r'', CHR 0x22] (is_not nm [CHR 0x22]) [CHR 0x22],
      delimited nm [CHR ''r'', CHR 0x27] (is_not nm [CHR 0x27]) [CHR 0x27]])"

definition native_expr :: "nom \<Rightarrow> string recognizer" where
  "native_expr nm = then_of (tag_of nm ''$'') (\<lambda>_.
     alt_of [recognize (qualified_ident nm), delimited nm ''{'' (is_not nm ''}'') ''}''])"

definition eval_call :: "string \<Rightarrow> string" where
  "eval_call e = ''__eval('' @ [CHR 0x27] @ e @ [CHR 0x27] @ '')''"

section \<open>Errors\<close>

definition syntax_error_message :: "string \<Rightarrow> string \<Rightarrow> string" where
  "syntax_error_message input tail =
     (let message = ''Syntax error: ''
      in message @ input @ [LF] @ replicate (length message + length input - length tail) (CHR '' '') @ ''^'')"

section \<open>Python expressions\<close>

definition python_item :: "nom \<Rightarrow> string recognizer" where
  "python_item nm = alt_of [recognize (python_string nm), map_of_parser eval_call (native_expr nm), recognize (anychar nm)]"

text \<open>\<^verbatim>\<open>fold_many0\<close>, with the input at which it found an error.\<close>

function python_items :: "nom \<Rightarrow> string \<Rightarrow> string \<Rightarrow> string + (string \<times> string)" where
  "python_items nm input acc =
     (case python_item nm input of
        None \<Rightarrow> Inr (input, acc)
      | Some (rest, item) \<Rightarrow> if length rest < length input then python_items nm rest (acc @ item) else Inl input)"
  by pat_completeness auto
termination by (relation "measure (\<lambda>(nm, input, acc). length input)") auto

declare python_items.simps [simp del]

definition preprocess_python_expr :: "nom \<Rightarrow> string \<Rightarrow> string + string" where
  "preprocess_python_expr nm expr = (case python_items nm expr [] of
      Inr (rest, res) \<Rightarrow> if rest = [] then Inr res else Inl (syntax_error_message expr rest)
    | Inl pos \<Rightarrow> Inl (syntax_error_message expr pos))"

section \<open>Simple expressions\<close>

text \<open>\<^verbatim>\<open>unsigned\<close> unwraps the conversion of the digits, so a number that does not fit panics.\<close>

definition unsigned_parser :: "nom \<Rightarrow> u32 parser" where
  "unsigned_parser nm input =
     (case digit1 nm input of
        None \<Rightarrow> Done None
      | Some (rest, s) \<Rightarrow>
          (case parse_int_u32 nm s of None \<Rightarrow> Panic | Some n \<Rightarrow> Done (Some (rest, n))))"

fun alt_parser :: "'a parser list \<Rightarrow> 'a parser" where
  "alt_parser [] input = Done None"
| "alt_parser (p # ps) input =
     (case p input of
        Panic \<Rightarrow> Panic
      | Done (Some r) \<Rightarrow> Done (Some r)
      | Done None \<Rightarrow> alt_parser ps input)"

definition lift_parser :: "'a recognizer \<Rightarrow> 'a parser" where
  "lift_parser p input = Done (p input)"

definition then_parser :: "'a parser \<Rightarrow> ('a \<Rightarrow> 'b parser) \<Rightarrow> 'b parser" where
  "then_parser p q input = exec_bind (p input) (\<lambda>r. case r of None \<Rightarrow> Done None | Some (rest, x) \<Rightarrow> q x rest)"

definition then_skip :: "'a parser \<Rightarrow> 'b recognizer \<Rightarrow> 'a parser" where
  "then_skip p q = then_parser p (\<lambda>x. lift_parser (map_of_parser (\<lambda>_. x) q))"

definition ws_parser :: "nom \<Rightarrow> 'a parser \<Rightarrow> 'a parser" where
  "ws_parser nm p input =
     exec_bind (p (space0 nm input)) (\<lambda>r. Done (map_option (\<lambda>(rest, x). (space0 nm rest, x)) r))"

text \<open>A type in parentheses.\<close>

definition cast :: "nom \<Rightarrow> string recognizer" where
  "cast nm = delimited nm ''('' (recognize (then_of (ws nm (qualified_ident nm))
     (\<lambda>_ input. many0 (ws nm (one_of nm ''*&'')) input []))) '')''"

definition operand :: "nom \<Rightarrow> string parser \<Rightarrow> string parser" where
  "operand nm expr input =
     (let (rest, c) = (case ws nm (cast nm) input of Some (rest, c) \<Rightarrow> (rest, Some c) | None \<Rightarrow> (input, None))
      in then_parser (ws_parser nm (alt_parser
           [lift_parser (numeric_literal nm), lift_parser (boolean_literal nm), lift_parser (python_string nm),
            lift_parser (map_of_parser eval_call (recognize (qualified_ident nm))),
            lift_parser (map_of_parser eval_call (native_expr nm)),
            then_parser (lift_parser (tag_of nm ''('')) (\<lambda>_.
              then_skip (then_parser expr (\<lambda>e. lift_parser (\<lambda>inp. Some (inp, ''('' @ e @ '')'')))) (tag_of nm '')''))]))
           (\<lambda>e. lift_parser (\<lambda>inp. Some (inp, case c of
              Some c \<Rightarrow> ''Value.cast('' @ [CHR 0x27] @ c @ [CHR 0x27] @ '', '' @ e @ '')''
            | None \<Rightarrow> e))) rest)"

definition prefix_operator :: "nom \<Rightarrow> (string \<times> int) parser" where
  "prefix_operator nm = lift_parser (map_of_parser (\<lambda>op. (op, 3))
     (ws nm (alt_of (map (tag_of nm) [''!'', ''not'', ''-'', ''+'', ''~'', ''*'', ''&'']))))"

text \<open>The table of binary operators, in the order in which they are tried.\<close>

definition binary_operators :: "(int \<times> assoc \<times> (string \<times> string) list) list" where
  "binary_operators =
     [(15, AssocLeft, [(''or'', ''or''), (''||'', ''or'')]), (14, AssocLeft, [(''and'', ''and''), (''&&'', ''and'')]),
      (7, AssocLeft, [(''<<'', ''<<''), (''>>'', ''>>'')]), (4, AssocRight, [(''**'', ''**'')]),
      (9, AssocLeft, [(''>='', ''>=''), (''>'', ''>''), (''<='', ''<=''), (''<'', ''<'')]),
      (6, AssocLeft, [(''+'', ''+''), (''-'', ''-'')]),
      (5, AssocLeft, [(''*'', ''*''), (''//'', ''//''), (''/'', ''/''), (''%'', ''%'')]),
      (13, AssocLeft, [(''|'', ''|'')]), (12, AssocLeft, [(''^'', ''^'')]), (11, AssocLeft, [(''&'', ''&'')]),
      (10, AssocLeft, [(''=='', ''==''), (''!='', ''!='')])]"

definition binary_operator :: "nom \<Rightarrow> (string \<times> int \<times> assoc) parser" where
  "binary_operator nm = lift_parser (ws nm (alt_of (map (\<lambda>(prec, assoc, ops).
     alt_of (map (\<lambda>(t, op). map_of_parser (\<lambda>_. (op, prec, assoc)) (tag_of nm t)) ops)) binary_operators)))"

definition postfix_operator :: "nom \<Rightarrow> string parser \<Rightarrow> ((string \<times> string) \<times> int) parser" where
  "postfix_operator nm expr =
     alt_parser
       [lift_parser (then_of (ws nm (tag_of nm ''.'')) (\<lambda>_. map_of_parser (\<lambda>arg. ((''.'', arg), 2)) (ident nm))),
        then_parser (lift_parser (ws nm (tag_of nm ''.''))) (\<lambda>_ input.
          then_parser (unsigned_parser nm) (\<lambda>_ rest. Done (Some (rest, ((''.'', take (length input - length rest) input), 2)))) input),
        lift_parser (then_of (ws nm (tag_of nm ''->'')) (\<lambda>_. map_of_parser (\<lambda>arg. ((''->'', arg), 2)) (ident nm))),
        then_parser (lift_parser (ws nm (tag_of nm ''['')))
          (\<lambda>_. then_skip (then_parser (alt_parser [lift_parser (integer_literal nm), expr])
             (\<lambda>arg. lift_parser (\<lambda>inp. Some (inp, ((''[]'', arg), 2))))) (ws nm (tag_of nm '']'')))]"

fun combine :: "operation \<Rightarrow> string option" where
  "combine (OpPrefix op v) = Some
     (if op = ''*'' then ''Value.dereference('' @ v @ '')''
      else if op = ''&'' then ''Value.address_of('' @ v @ '')''
      else if op = ''!'' \<or> op = ''not'' then ''(not '' @ v @ '')''
      else op @ v)"
| "combine (OpBinary lhs op rhs) = Some (''('' @ lhs @ '' '' @ op @ '' '' @ rhs @ '')'')"
| "combine (OpPostfix v (op, arg)) =
     (if op = ''.'' then Some (v @ ''.__getattr__('' @ [CHR 0x27] @ arg @ [CHR 0x27] @ '')'')
      else if op = ''->'' then Some (''Value.dereference('' @ v @ '').__getattr__('' @ [CHR 0x27] @ arg @ [CHR 0x27] @ '')'')
      else if op = ''[]'' then Some (v @ ''['' @ arg @ '']'')
      else None)"

text \<open>An expression inside another one stands in parentheses or brackets; \<open>n\<close> bounds their nesting.\<close>

fun expression_upto :: "nat \<Rightarrow> nom \<Rightarrow> string \<Rightarrow> (string + (string \<times> string)) exec" where
  "expression_upto 0 nm input = Done (Inl input)"
| "expression_upto (Suc n) nm input =
     (let inner = (\<lambda>inp. exec_bind (expression_upto n nm inp) (\<lambda>r. Done (case r of Inr x \<Rightarrow> Some x | Inl _ \<Rightarrow> None)))
      in precedence nm (prefix_operator nm) (postfix_operator nm inner) (binary_operator nm) (operand nm inner) combine input)"

definition simple_expression :: "nom \<Rightarrow> string \<Rightarrow> (string + (string \<times> string)) exec" where
  "simple_expression nm input = expression_upto (Suc (length input)) nm input"

definition preprocess_simple_expr :: "nom \<Rightarrow> string \<Rightarrow> (string + string) exec" where
  "preprocess_simple_expr nm expr = exec_bind (simple_expression nm expr) (\<lambda>r. Done (case r of
      Inr (rest, res) \<Rightarrow> if rest = [] then Inr res else Inl (syntax_error_message expr rest)
    | Inl pos \<Rightarrow> Inl (syntax_error_message expr pos)))"

section \<open>What nom documents\<close>

definition is_space :: "char \<Rightarrow> bool" where
  "is_space c \<longleftrightarrow> c = CHR '' '' \<or> c = CHR 0x09"

definition is_digit :: "char \<Rightarrow> bool" where
  "is_digit c \<longleftrightarrow> dec_digit c \<noteq> None"

definition is_ascii_alpha :: "char \<Rightarrow> bool" where
  "is_ascii_alpha c \<longleftrightarrow> (65 \<le> byte c \<and> byte c \<le> 90) \<or> (97 \<le> byte c \<and> byte c \<le> 122)"

text \<open>The longest prefix of characters with a property, which must not be empty.\<close>

definition take_while1 :: "(char \<Rightarrow> bool) \<Rightarrow> string recognizer" where
  "take_while1 P s = (if takeWhile P s = [] then None else Some (dropWhile P s, takeWhile P s))"

text \<open>
  Of characters outside ASCII it is only said that some bytes are taken and that those after the first are outside
  ASCII too.  The last conjunct says that the
  precedence parser runs its parsers on what is left of the input only.
\<close>

definition agree_upto :: "nat \<Rightarrow> (string \<Rightarrow> 'a) \<Rightarrow> (string \<Rightarrow> 'a) \<Rightarrow> bool" where
  "agree_upto n p q \<longleftrightarrow> (\<forall>s. length s \<le> n \<longrightarrow> p s = q s)"

definition nom_documented :: "nom \<Rightarrow> bool" where
  "nom_documented nm \<longleftrightarrow>
     (\<forall>t s. tag nm t s = (if starts_with s t then Some (drop (length t) s) else None)) \<and>
     (\<forall>s. space0 nm s = dropWhile is_space s) \<and>
     (\<forall>s. digit1 nm s = take_while1 is_digit s) \<and>
     (\<forall>c s. byte c < 128 \<longrightarrow> anychar nm (c # s) = Some (s, [c])) \<and> anychar nm [] = None \<and>
     (\<forall>s. s \<noteq> [] \<longrightarrow> (\<exists>n. 0 < n \<and> n \<le> length s \<and> anychar nm s = Some (drop n s, take n s) \<and>
        list_all (\<lambda>c. 128 \<le> byte c) (tl (take n s)))) \<and>
     (\<forall>c. byte c < 128 \<longrightarrow> is_alphabetic nm [c] = is_ascii_alpha c) \<and>
     (\<forall>n. parse_int_u32 nm (show_nat n) = (if n < 2 ^ 32 then Some (of_nat n) else None)) \<and>
     (\<forall>t s. none_of nm t s = (case s of [] \<Rightarrow> None
        | c # _ \<Rightarrow> if byte c < 128 \<and> c \<in> set t then None else anychar nm s)) \<and>
     (\<forall>t s. (\<forall>c \<in> set t. byte c < 128) \<longrightarrow> is_not nm t s = take_while1 (\<lambda>c. c \<notin> set t) s) \<and>
     (\<forall>s. alpha1 nm s = take_while1 is_ascii_alpha s) \<and>
     (\<forall>s. alphanumeric1 nm s = take_while1 (\<lambda>c. is_ascii_alpha c \<or> is_digit c) s) \<and>
     (\<forall>p q1 q2 b r1 r2 f s. agree_upto (length s) q1 q2 \<longrightarrow> agree_upto (length s) r1 r2 \<longrightarrow>
        precedence nm p q1 b r1 f s = precedence nm p q2 b r2 f s)"

lemma nomD:
  assumes "nom_documented nm"
  shows "tag nm t s = (if starts_with s t then Some (drop (length t) s) else None)"
    "space0 nm s = dropWhile is_space s"
    "digit1 nm s = take_while1 is_digit s"
    "byte c < 128 \<Longrightarrow> anychar nm (c # s) = Some (s, [c])" "anychar nm [] = None"
    "byte c < 128 \<Longrightarrow> is_alphabetic nm [c] = is_ascii_alpha c"
    "parse_int_u32 nm (show_nat n) = (if n < 2 ^ 32 then Some (of_nat n) else None)"
    "none_of nm t s = (case s of [] \<Rightarrow> None | c # _ \<Rightarrow> if byte c < 128 \<and> c \<in> set t then None else anychar nm s)"
    "(\<And>c. c \<in> set t \<Longrightarrow> byte c < 128) \<Longrightarrow> is_not nm t s = take_while1 (\<lambda>c. c \<notin> set t) s"
    "alpha1 nm s = take_while1 is_ascii_alpha s"
    "alphanumeric1 nm s = take_while1 (\<lambda>c. is_ascii_alpha c \<or> is_digit c) s"
  using assms by (simp_all add: nom_documented_def)

lemma anychar_takes:
  assumes "nom_documented nm" "s \<noteq> []"
  obtains n where "0 < n" "n \<le> length s" "anychar nm s = Some (drop n s, take n s)"
    "list_all (\<lambda>c. 128 \<le> byte c) (tl (take n s))"
  using assms by (auto simp: nom_documented_def)

lemma precedence_local:
  assumes "nom_documented nm" "agree_upto (length s) q1 q2" "agree_upto (length s) r1 r2"
  shows "precedence nm p q1 b r1 f s = precedence nm p q2 b r2 f s"
  using assms by (simp add: nom_documented_def)

text \<open>An instance of the recognizers, for ASCII text and decimal numbers; it takes no operators apart.\<close>

definition ascii_nom :: nom where
  "ascii_nom =
     \<lparr>tag = \<lambda>t s. if starts_with s t then Some (drop (length t) s) else None,
      space0 = dropWhile is_space,
      digit1 = take_while1 is_digit,
      anychar = \<lambda>s. case s of [] \<Rightarrow> None | c # r \<Rightarrow> Some (r, [c]),
      is_alphabetic = \<lambda>s. case s of [c] \<Rightarrow> is_ascii_alpha c | _ \<Rightarrow> False,
      parse_int_u32 = \<lambda>s. map_option of_nat (parse_u32 s),
      none_of = \<lambda>t s. case s of [] \<Rightarrow> None | c # r \<Rightarrow> if byte c < 128 \<and> c \<in> set t then None else Some (r, [c]),
      one_of = \<lambda>t s. case s of [] \<Rightarrow> None | c # r \<Rightarrow> if c \<in> set t then Some (r, [c]) else None,
      is_not = \<lambda>t. take_while1 (\<lambda>c. c \<notin> set t),
      alpha1 = take_while1 is_ascii_alpha,
      alphanumeric1 = take_while1 (\<lambda>c. is_ascii_alpha c \<or> is_digit c),
      hex_digit1 = take_while1 (\<lambda>c. is_digit c \<or> (97 \<le> byte c \<and> byte c \<le> 102) \<or> (65 \<le> byte c \<and> byte c \<le> 70)),
      recognize_float = take_while1 (\<lambda>c. is_digit c \<or> c = CHR ''.''),
      satisfy = \<lambda>P s. case s of [] \<Rightarrow> None | c # r \<Rightarrow> if P [c] then Some (r, [c]) else None,
      precedence = \<lambda>_ _ _ _ _ s. Done (Inr ([], s))\<rparr>"

lemma ascii_nom_documented: "nom_documented ascii_nom"
  by (auto simp: nom_documented_def ascii_nom_def parse_u32_def parse_unsigned_show_nat neq_Nil_conv
      intro!: exI [of _ "Suc 0"] split: list.splits)

end
