(* ===== verification/Expressions.thy ===== *)
theory Expressions
  imports Preprocess Protocol
begin

text \<open>
  The small parsers of \<^verbatim>\<open>expressions/\<close>: the type prefix of an expression (\<^verbatim>\<open>mod.rs\<close>), its format suffix
  (\<^verbatim>\<open>expression_format.rs\<close>) and hit conditions (\<^verbatim>\<open>hit_condition.rs\<close>), built like those of \<open>Preprocess\<close>.
\<close>

section \<open>Hit conditions\<close>

datatype hit_condition = LT u32 | LE u32 | EQ u32 | GE u32 | GT u32 | MOD u32

text \<open>\<^verbatim>\<open>map(preceded(tag(t), preceded(space0, unsigned)), f)\<close>.\<close>

definition operator_parser :: "nom \<Rightarrow> string \<Rightarrow> (u32 \<Rightarrow> hit_condition) \<Rightarrow> hit_condition parser" where
  "operator_parser nm t f input =
     (case tag nm t input of
        None \<Rightarrow> Done None
      | Some rest \<Rightarrow>
          exec_bind (unsigned_parser nm (space0 nm rest)) (\<lambda>r. Done (map_option (\<lambda>(rest', n). (rest', f n)) r)))"

definition hit_condition_parser :: "nom \<Rightarrow> hit_condition parser" where
  "hit_condition_parser nm =
     alt_parser
       [operator_parser nm ''<='' LE, operator_parser nm ''<'' LT, operator_parser nm ''=='' EQ,
        operator_parser nm ''='' EQ, operator_parser nm ''>='' GE, operator_parser nm ''>'' GT,
        operator_parser nm ''%'' MOD,
        \<lambda>input. exec_bind (unsigned_parser nm input) (\<lambda>r. Done (map_option (\<lambda>(rest, n). (rest, GE n)) r))]"

definition parse_hit_condition :: "nom \<Rightarrow> string \<Rightarrow> hit_condition option exec" where
  "parse_hit_condition nm expr = exec_bind (hit_condition_parser nm (trim expr)) (\<lambda>r. Done (map_option snd r))"

text \<open>How a hit condition is applied to the number of hits, \<^verbatim>\<open>on_breakpoint_hit\<close>.\<close>

fun hit_condition_met :: "hit_condition \<Rightarrow> u32 \<Rightarrow> bool exec" where
  "hit_condition_met (LT n) hit_count = Done (hit_count < n)"
| "hit_condition_met (LE n) hit_count = Done (hit_count \<le> n)"
| "hit_condition_met (EQ n) hit_count = Done (hit_count = n)"
| "hit_condition_met (GE n) hit_count = Done (n \<le> hit_count)"
| "hit_condition_met (GT n) hit_count = Done (n < hit_count)"
| "hit_condition_met (MOD n) hit_count = (if n = 0 then Panic else Done (hit_count mod n = 0))"

section \<open>Format suffixes\<close>

datatype format =
    FDefault | FBoolean | FBinary | FBytes | FBytesWithASCII | FChar | FCString | FDecimal | FHex
  | FFloat | FOctal | FPointer | FUnsigned

record format_spec =
  fs_format :: "format option"
  fs_array :: "u32 option"

definition format_spec_NONE :: format_spec where
  "format_spec_NONE = \<lparr>fs_format = None, fs_array = None\<rparr>"

fun convert_format :: "string \<Rightarrow> format option" where
  "convert_format c =
     (if c = ''c'' then Some FChar
      else if c = ''h'' then Some FHex
      else if c = ''x'' then Some FHex
      else if c = ''o'' then Some FOctal
      else if c = ''d'' then Some FDecimal
      else if c = ''b'' then Some FBinary
      else if c = ''f'' then Some FFloat
      else if c = ''p'' then Some FPointer
      else if c = ''u'' then Some FUnsigned
      else if c = ''s'' then Some FCString
      else if c = ''y'' then Some FBytes
      else if c = ''Y'' then Some FBytesWithASCII
      else None)"

text \<open>The position after the last comma: the text before it and after it.\<close>

fun rsplit_comma :: "string \<Rightarrow> (string \<times> string) option" where
  "rsplit_comma [] = None"
| "rsplit_comma (c # s) =
     (case rsplit_comma s of
        Some (a, b) \<Rightarrow> Some (c # a, b)
      | None \<Rightarrow> if c = CHR '','' then Some ([], s) else None)"

text \<open>\<^verbatim>\<open>opt(verify(anychar, is_alphabetic))\<close> and \<^verbatim>\<open>opt(delimited(char('['), unsigned, char(']')))\<close>.\<close>

definition opt_format_char :: "nom \<Rightarrow> string \<Rightarrow> string \<times> string option" where
  "opt_format_char nm input =
     (case anychar nm input of
        Some (rest, c) \<Rightarrow> if is_alphabetic nm c then (rest, Some c) else (input, None)
      | None \<Rightarrow> (input, None))"

definition opt_array :: "nom \<Rightarrow> string \<Rightarrow> (string \<times> u32 option) exec" where
  "opt_array nm input =
     (case tag nm ''['' input of
        None \<Rightarrow> Done (input, None)
      | Some rest \<Rightarrow>
          exec_bind (unsigned_parser nm rest) (\<lambda>r. case r of
            None \<Rightarrow> Done (input, None)
          | Some (rest2, n) \<Rightarrow>
              (case tag nm '']'' rest2 of
                 None \<Rightarrow> Done (input, None)
               | Some rest3 \<Rightarrow> Done (rest3, Some n))))"

definition get_expression_format :: "nom \<Rightarrow> string \<Rightarrow> (string + (string \<times> format_spec)) exec" where
  "get_expression_format nm expr =
     (case rsplit_comma expr of
        None \<Rightarrow> Done (Inr (expr, format_spec_NONE))
      | Some (before, spec) \<Rightarrow>
          (let (rest, format_ch) = opt_format_char nm spec
           in exec_bind (opt_array nm rest) (\<lambda>(rest2, array).
             if rest2 = [] then
               (case format_ch of
                  None \<Rightarrow> Done (Inr (before, \<lparr>fs_format = None, fs_array = array\<rparr>))
                | Some c \<Rightarrow>
                    (case convert_format c of
                       Some f \<Rightarrow> Done (Inr (before, \<lparr>fs_format = Some f, fs_array = array\<rparr>))
                     | None \<Rightarrow> Done (Inl (''Invlaid format specifier: '' @ c))))
             else Done (Inr (expr, format_spec_NONE)))))"

section \<open>Preparing expressions\<close>

datatype prepared_expression = PNative string | PSimple string | PPython string

definition get_expression_type :: "string \<Rightarrow> expressions \<Rightarrow> string \<times> expressions" where
  "get_expression_type expr default_type =
     (if starts_with expr ''/nat '' then (drop 5 expr, Native)
      else if starts_with expr ''/py '' then (drop 4 expr, Python)
      else if starts_with expr ''/se '' then (drop 4 expr, Simple)
      else (expr, default_type))"

fun prepare_as :: "nom \<Rightarrow> expressions \<Rightarrow> string \<Rightarrow> (string + prepared_expression) exec" where
  "prepare_as nm Native expr = Done (Inr (PNative expr))"
| "prepare_as nm Simple expr = exec_bind (preprocess_simple_expr nm expr) (\<lambda>r. Done (map_sum id PSimple r))"
| "prepare_as nm Python expr = Done (map_sum id PPython (preprocess_python_expr nm expr))"

definition prepare :: "nom \<Rightarrow> string \<Rightarrow> expressions \<Rightarrow> (string + prepared_expression) exec" where
  "prepare nm expression default_type =
     (case get_expression_type expression default_type of (expr, ty) \<Rightarrow> prepare_as nm ty expr)"

definition prepare_with_format :: "nom \<Rightarrow> string \<Rightarrow> expressions \<Rightarrow> (string + (prepared_expression \<times> format_spec)) exec" where
  "prepare_with_format nm expression default_type =
     (case get_expression_type expression default_type of (expr, ty) \<Rightarrow>
        exec_bind (get_expression_format nm expr) (\<lambda>r. case r of
          Inl e \<Rightarrow> Done (Inl e)
        | Inr (expr2, spec) \<Rightarrow>
            exec_bind (prepare_as nm ty expr2) (\<lambda>p. Done (map_sum id (\<lambda>pp. (pp, spec)) p))))"

section \<open>Numbers\<close>

lemma digits_take:
  assumes "\<not> is_digit (hd r) \<or> r = []"
  shows "takeWhile is_digit (show_nat n @ r) = show_nat n" "dropWhile is_digit (show_nat n @ r) = r"
proof -
  have "\<forall>c \<in> set (show_nat n). is_digit c"
    using show_nat_digits [of n] by (simp add: is_digit_def list_all_iff)
  then show "takeWhile is_digit (show_nat n @ r) = show_nat n" "dropWhile is_digit (show_nat n @ r) = r"
    using assms by (cases r; simp add: takeWhile_append2 dropWhile_append2)+
qed

lemma unsigned_number:
  assumes "nom_documented nm" "\<not> is_digit (hd r) \<or> r = []"
  shows "unsigned_parser nm (show_nat n @ r) = (if n < 2 ^ 32 then Done (Some (r, of_nat n)) else Panic)"
  using digits_take [OF assms(2)] nomD(3,7) [OF assms(1)] by (simp add: unsigned_parser_def take_while1_def)

section \<open>Hit conditions are read as documented\<close>

definition hit_operators :: "(string \<times> (u32 \<Rightarrow> hit_condition)) list" where
  "hit_operators = [(''<'', LT), (''<='', LE), (''='', EQ), (''=='', EQ), (''>='', GE), (''>'', GT), (''%'', MOD)]"

lemma spaces_then_number:
  assumes "list_all is_space w"
  obtains d y where "w @ show_nat n = d # y" "byte d < 60" "d \<noteq> CHR ''%''"
    "dropWhile is_space (d # y) = show_nat n"
proof -
  obtain c r where s: "show_nat n = c # r" by (cases "show_nat n") auto
  have dig: "48 \<le> byte c \<and> byte c \<le> 57"
    using show_nat_digits [of n] s by (auto simp: dec_digit_def split: if_splits)
  then have nsp: "\<not> is_space c" "c \<noteq> CHR ''%''" by (auto simp: is_space_def)
  have drop: "dropWhile is_space (w @ show_nat n) = show_nat n"
    using assms nsp(1) s by (simp add: list_all_iff dropWhile_append2)
  show thesis
  proof (cases w)
    case Nil
    then show thesis using that [of c r] s dig nsp drop by simp
  next
    case (Cons d w')
    then have "byte d < 60" "d \<noteq> CHR ''%''" using assms by (auto simp: is_space_def)
    then show thesis using that [of d "w' @ show_nat n"] Cons drop by simp
  qed
qed

lemma operator_then_number:
  assumes "nom_documented nm" "list_all is_space w"
  shows "operator_parser nm t f (t @ w @ show_nat n) =
    (if n < 2 ^ 32 then Done (Some ([], f (of_nat n))) else Panic)"
proof -
  obtain d y where d: "w @ show_nat n = d # y" "dropWhile is_space (d # y) = show_nat n"
    using spaces_then_number [OF assms(2)] by metis
  then show ?thesis
    using unsigned_number [OF assms(1), of "[]" n]
    by (simp add: operator_parser_def nomD [OF assms(1)])
qed

lemma operator_mismatch:
  "nom_documented nm \<Longrightarrow> \<not> starts_with s t \<Longrightarrow> operator_parser nm t f s = Done None"
  by (simp add: operator_parser_def nomD)

lemma trim_condition:
  assumes "list_all ascii_ws u" "list_all ascii_ws v" "byte c < 128" "\<not> ascii_ws c"
  shows "trim (u @ (c # s @ show_nat n) @ v) = c # s @ show_nat n"
proof (rule trim_word [OF assms(1,2)])
  have "dec_digit (last (show_nat n)) \<noteq> None" using show_nat_digits [of n] by (simp add: list_all_iff)
  then have "byte (last (show_nat n)) < 128 \<and> \<not> ascii_ws (last (show_nat n))"
    by (auto simp: dec_digit_def ascii_ws_def split: if_splits)
  then show "byte (last (c # s @ show_nat n)) < 128" "\<not> ascii_ws (last (c # s @ show_nat n))" by auto
qed (use assms(3,4) in simp_all)

text \<open>
  Property C20.  A hit condition is an operator and a number, with white space around and between
  them, and is read as the condition of that operator, for every operator and every 32-bit number; a
  number that does not fit makes the parser panic.
\<close>

theorem hit_condition_parsed:
  assumes "nom_documented nm" "(t, f) \<in> set hit_operators"
    and "list_all ascii_ws u" "list_all is_space w" "list_all ascii_ws v"
  shows "parse_hit_condition nm (u @ (t @ w @ show_nat n) @ v) =
    (if n < 2 ^ 32 then Done (Some (f (of_nat n))) else Panic)"
proof -
  obtain d y where d: "w @ show_nat n = d # y" "byte d < 60" "d \<noteq> CHR ''%''"
    using spaces_then_number [OF assms(4)] by metis
  have ops: "t = ''<'' \<and> f = LT \<or> t = ''<='' \<and> f = LE \<or> t = ''='' \<and> f = EQ \<or> t = ''=='' \<and> f = EQ \<or>
      t = ''>='' \<and> f = GE \<or> t = ''>'' \<and> f = GT \<or> t = ''%'' \<and> f = MOD"
    using assms(2) by (auto simp: hit_operators_def)
  have "t \<noteq> []" "byte (hd t) < 128" "\<not> ascii_ws (hd t)" using ops by (auto simp: ascii_ws_def)
  then have tr: "trim (u @ (t @ w @ show_nat n) @ v) = t @ w @ show_nat n"
    using trim_condition [OF assms(3,5), of "hd t" "tl t @ w" n] by (cases t) auto
  have nd: "d \<noteq> CHR ''=''" "d \<noteq> CHR ''<''" "d \<noteq> CHR ''>''" using d(2) by (auto simp: char_eq_byte)
  have run: "operator_parser nm t f (t @ d # y) =
      (if n < 2 ^ 32 then Done (Some ([], f (of_nat n))) else Panic)" for t f
    using operator_then_number [OF assms(1,4), of t f n] d(1) by simp
  note skip = operator_mismatch [OF assms(1)]
  have "hit_condition_parser nm (t @ w @ show_nat n) =
      (if n < 2 ^ 32 then Done (Some ([], f (of_nat n))) else Panic)"
    using ops nd
    by (elim disjE conjE)
      (simp_all add: hit_condition_parser_def run [of "''<''", simplified] run [of "''<=''", simplified]
        run [of "''=''", simplified] run [of "''==''", simplified] run [of "''>=''", simplified]
        run [of "''>''", simplified] run [of "''%''", simplified] skip starts_with_def d(1))
  then show ?thesis using tr by (auto simp: parse_hit_condition_def simp del: append_assoc)
qed

lemma small_show_nat: "n < 10 \<Longrightarrow> show_nat n = [digit_char n]"
  by (subst show_nat_step) simp

theorem hit_condition_parsed_witness:
  "parse_hit_condition ascii_nom ('' '' @ (''<='' @ '' '' @ show_nat 53) @ '' '') = Done (Some (LE 53)) \<and>
   parse_hit_condition ascii_nom (''='' @ show_nat (2 ^ 32)) = Panic"
  using hit_condition_parsed [OF ascii_nom_documented, of "''<=''" LE "'' ''" "'' ''" "'' ''" 53]
    hit_condition_parsed [OF ascii_nom_documented, of "''=''" EQ "[]" "[]" "[]" "2 ^ 32"]
  by (simp add: hit_operators_def ascii_ws_def is_space_def)

section \<open>Format suffixes are read as documented\<close>

lemma rsplit_comma_last: "CHR '','' \<notin> set s \<Longrightarrow> rsplit_comma (e @ CHR '','' # s) = Some (e, s)"
proof (induction e)
  case Nil
  have "rsplit_comma s = None" using Nil by (induction s) auto
  then show ?case by simp
qed simp

lemma rsplit_comma_none: "CHR '','' \<notin> set s \<Longrightarrow> rsplit_comma s = None"
  by (induction s) auto

definition format_letters :: "(char \<times> format) list" where
  "format_letters =
     [(CHR ''c'', FChar), (CHR ''h'', FHex), (CHR ''x'', FHex), (CHR ''o'', FOctal), (CHR ''d'', FDecimal),
      (CHR ''b'', FBinary), (CHR ''f'', FFloat), (CHR ''p'', FPointer), (CHR ''u'', FUnsigned),
      (CHR ''s'', FCString), (CHR ''y'', FBytes), (CHR ''Y'', FBytesWithASCII)]"

lemma opt_array_bracketed:
  assumes "nom_documented nm" "n < 2 ^ 32"
  shows "opt_array nm (''['' @ show_nat n @ '']'') = Done ([], Some (of_nat n))"
proof -
  have "\<not> is_digit (CHR '']'')" by (simp add: is_digit_def dec_digit_def)
  then show ?thesis
    using unsigned_number [OF assms(1), of "'']''" n] assms(2) nomD(1) [OF assms(1)]
    by (simp add: opt_array_def starts_with_def)
qed

lemma format_letters_convert: "list_all (\<lambda>(c, f). convert_format [c] = Some f) format_letters"
  by code_simp

lemma opt_format_letter:
  assumes "nom_documented nm" "(c, f) \<in> set format_letters"
  shows "opt_format_char nm (c # s) = (s, Some [c])" "convert_format [c] = Some f"
proof -
  have "byte c < 128" "is_ascii_alpha c" using assms(2) by (auto simp: format_letters_def is_ascii_alpha_def)
  then show "opt_format_char nm (c # s) = (s, Some [c])"
    using nomD(4,6) [OF assms(1)] by (simp add: opt_format_char_def)
  show "convert_format [c] = Some f" using assms(2) format_letters_convert by (auto simp: list_all_iff simp del: convert_format.simps)
qed

lemma no_comma_in_suffix: "CHR '','' \<notin> set (show_nat n)"
proof
  assume "CHR '','' \<in> set (show_nat n)"
  then have "dec_digit (CHR '','') \<noteq> None" using show_nat_digits [of n] by (simp add: list_all_iff)
  then show False by (simp add: dec_digit_def)
qed

text \<open>
  Property C21.  The format suffix is separated from the expression exactly as documented: after the
  last comma, a format letter, an array length in brackets, or both, are taken as the format and cut
  off; an expression without a comma is left alone; and a letter that is no format is an error.
\<close>

theorem expression_format_parsed:
  assumes "nom_documented nm" "(c, f) \<in> set format_letters" "n < 2 ^ 32"
  shows "get_expression_format nm (e @ '','' @ [c]) = Done (Inr (e, \<lparr>fs_format = Some f, fs_array = None\<rparr>)) \<and>
    get_expression_format nm (e @ '','' @ [c] @ ''['' @ show_nat n @ '']'') =
      Done (Inr (e, \<lparr>fs_format = Some f, fs_array = Some (of_nat n)\<rparr>)) \<and>
    get_expression_format nm (e @ '',['' @ show_nat n @ '']'') =
      Done (Inr (e, \<lparr>fs_format = None, fs_array = Some (of_nat n)\<rparr>)) \<and>
    (CHR '','' \<notin> set e \<longrightarrow> get_expression_format nm e = Done (Inr (e, format_spec_NONE))) \<and>
    get_expression_format nm (e @ '',Z'') = Done (Inl ''Invlaid format specifier: Z'')"
proof (intro conjI impI)
  have cc: "c \<noteq> CHR '',''" using assms(2) by (auto simp: format_letters_def)
  have empty: "opt_array nm [] = Done ([], None)" using nomD(1) [OF assms(1)] by (simp add: opt_array_def starts_with_def)
  note letter = opt_format_letter [OF assms(1,2)] and arr = opt_array_bracketed [OF assms(1,3)]
  show "get_expression_format nm (e @ '','' @ [c]) = Done (Inr (e, \<lparr>fs_format = Some f, fs_array = None\<rparr>))"
    using rsplit_comma_last [of "[c]" e] cc letter empty by (simp add: get_expression_format_def del: convert_format.simps)
  show "get_expression_format nm (e @ '','' @ [c] @ ''['' @ show_nat n @ '']'') =
      Done (Inr (e, \<lparr>fs_format = Some f, fs_array = Some (of_nat n)\<rparr>))"
    using rsplit_comma_last [of "[c] @ ''['' @ show_nat n @ '']''" e] cc letter arr no_comma_in_suffix [of n]
    by (simp add: get_expression_format_def del: convert_format.simps)
  have bracket: "opt_format_char nm (''['' @ s) = (''['' @ s, None)" for s
    using nomD(4,6) [OF assms(1), of "CHR ''[''"] by (simp add: opt_format_char_def is_ascii_alpha_def)
  show "get_expression_format nm (e @ '',['' @ show_nat n @ '']'') =
      Done (Inr (e, \<lparr>fs_format = None, fs_array = Some (of_nat n)\<rparr>))"
    using rsplit_comma_last [of "''['' @ show_nat n @ '']''" e] bracket [of "show_nat n @ '']''"] arr no_comma_in_suffix [of n]
    by (simp add: get_expression_format_def)
  show "get_expression_format nm e = Done (Inr (e, format_spec_NONE))" if "CHR '','' \<notin> set e"
    using rsplit_comma_none [OF that] by (simp add: get_expression_format_def)
  have "opt_format_char nm ''Z'' = ([], Some ''Z'')"
    using nomD(4,6) [OF assms(1), of "CHR ''Z''"] by (simp add: opt_format_char_def is_ascii_alpha_def)
  then show "get_expression_format nm (e @ '',Z'') = Done (Inl ''Invlaid format specifier: Z'')"
    using rsplit_comma_last [of "''Z''" e] empty by (simp add: get_expression_format_def)
qed

theorem expression_format_parsed_witness:
  "get_expression_format ascii_nom (''foo'' @ '','' @ ''x'') = Done (Inr (''foo'', \<lparr>fs_format = Some FHex, fs_array = None\<rparr>))"
  using expression_format_parsed [OF ascii_nom_documented, of "CHR ''x''" FHex 0 "''foo''"]
  by (simp add: format_letters_def)

end
