(* ===== verification/Preprocess_Laws.thy ===== *)
theory Preprocess_Laws
  imports Preprocess
begin

text \<open>
  Laws of the expression front end: the nesting bounds of the grammars of qualified identifiers and of simple
  expressions are enough for every input, and what the translation of Python expressions does with each kind
  of item.
\<close>

section \<open>The nesting bounds are enough\<close>

lemma space0_length: "nom_documented nm \<Longrightarrow> length (space0 nm s) \<le> length s"
  by (simp add: nomD length_dropWhile_le)

lemma tag_length: "nom_documented nm \<Longrightarrow> tag nm t s = Some r \<Longrightarrow> length r + length t = length s"
  by (auto simp: nomD starts_with_iff split: if_splits)

text \<open>Parsers that agree on short inputs, and parsers that do not lengthen the input.\<close>

definition shrinks :: "'a recognizer \<Rightarrow> bool" where
  "shrinks p \<longleftrightarrow> (\<forall>s r x. p s = Some (r, x) \<longrightarrow> length r \<le> length s)"

lemma shrinksD: "shrinks p \<Longrightarrow> p s = Some (r, x) \<Longrightarrow> length r \<le> length s"
  by (auto simp: shrinks_def)

lemma shrinksI: "(\<And>s r x. p s = Some (r, x) \<Longrightarrow> length r \<le> length s) \<Longrightarrow> shrinks p"
  by (auto simp: shrinks_def)

lemma agreeD: "agree_upto n p q \<Longrightarrow> length s \<le> n \<Longrightarrow> p s = q s"
  by (auto simp: agree_upto_def)

lemma agree_mono: "agree_upto n p q \<Longrightarrow> m \<le> n \<Longrightarrow> agree_upto m p q"
  by (auto simp: agree_upto_def)

lemma shrinks_tag: "nom_documented nm \<Longrightarrow> shrinks (tag_of nm t)"
  using tag_length by (fastforce simp: shrinks_def tag_of_def)

lemma shrinks_ws: "nom_documented nm \<Longrightarrow> shrinks p \<Longrightarrow> shrinks (ws nm p)"
  unfolding shrinks_def ws_def
proof (intro allI impI)
  fix s r x
  assume nm: "nom_documented nm" and p: "\<forall>s r x. p s = Some (r, x) \<longrightarrow> length r \<le> length s"
    and "map_option (\<lambda>(rest, x). (space0 nm rest, x)) (p (space0 nm s)) = Some (r, x)"
  then obtain r' where "p (space0 nm s) = Some (r', x)" "r = space0 nm r'" by auto
  then show "length r \<le> length s"
    using p space0_length [OF nm, of r'] space0_length [OF nm, of s] by (metis order_trans)
qed

lemma agree_ws: "nom_documented nm \<Longrightarrow> agree_upto n p q \<Longrightarrow> agree_upto n (ws nm p) (ws nm q)"
  using agreeD [of n p q "space0 nm _"] order_trans [OF space0_length]
  by (metis (no_types, lifting) agree_upto_def ws_def)

lemma agree_separated_rest:
  "shrinks sep \<Longrightarrow> agree_upto (length s) p q \<Longrightarrow> separated_rest sep p s acc = separated_rest sep q s acc"
proof (induction sep p s acc rule: separated_rest.induct)
  case (1 sep p s acc)
  show ?case
  proof (cases "sep s")
    case None
    then show ?thesis by (simp add: separated_rest.simps)
  next
    case (Some rx)
    then obtain r x where rx: "sep s = Some (r, x)" by (cases rx) auto
    have same: "p r = q r" using shrinksD [OF "1.prems"(1) rx] agreeD [OF "1.prems"(2)] by simp
    show ?thesis
    proof (cases "p r")
      case None
      then show ?thesis using rx same by (simp add: separated_rest.simps)
    next
      case (Some r2y)
      then obtain r2 y where y: "p r = Some (r2, y)" by (cases r2y) auto
      show ?thesis
      proof (cases "length r2 < length s")
        case True
        then have "separated_rest sep p r2 (acc @ [y]) = separated_rest sep q r2 (acc @ [y])"
          using "1.IH" [OF rx refl y refl True "1.prems"(1)] agree_mono [OF "1.prems"(2)] by simp
        then show ?thesis using rx same [symmetric] y by (subst (1 2) separated_rest.simps) simp
      next
        case False
        then show ?thesis using rx same [symmetric] y by (subst (1 2) separated_rest.simps) simp
      qed
    qed
  qed
qed

lemma shrinks_take_while1: "shrinks (take_while1 P)"
  using length_dropWhile_le by (auto simp: shrinks_def take_while1_def)

lemma shrinks_is_not:
  assumes "nom_documented nm" "list_all (\<lambda>c. byte c < 128) t"
  shows "shrinks (is_not nm t)"
proof -
  have "is_not nm t s = take_while1 (\<lambda>c. c \<notin> set t) s" for s
    using assms(2) by (intro nomD(9) [OF assms(1)]) (simp add: list_all_iff)
  then show ?thesis using shrinks_take_while1 [of "\<lambda>c. c \<notin> set t"] by (simp add: shrinks_def)
qed

lemma shrinks_nom:
  assumes "nom_documented nm"
  shows "shrinks (alpha1 nm)" "shrinks (alphanumeric1 nm)" "shrinks (is_not nm ''<,>'')"
proof -
  have "alpha1 nm = take_while1 is_ascii_alpha" "alphanumeric1 nm = take_while1 (\<lambda>c. is_ascii_alpha c \<or> is_digit c)"
    by (auto simp: nomD(10,11) [OF assms])
  then show "shrinks (alpha1 nm)" "shrinks (alphanumeric1 nm)"
    by (simp_all only: shrinks_take_while1)
  show "shrinks (is_not nm ''<,>'')" by (rule shrinks_is_not [OF assms]) simp
qed

lemma shrinks_combinators:
  "shrinks p \<Longrightarrow> (\<And>x. shrinks (q x)) \<Longrightarrow> shrinks (then_of p q)"
  "shrinks p' \<Longrightarrow> shrinks (map_of_parser f p')"
  "shrinks p'' \<Longrightarrow> shrinks (recognize p'')"
  by (fastforce simp: shrinks_def then_of_def map_of_parser_def recognize_def intro: order_trans split: option.splits)+

lemma shrinks_alt: "list_all shrinks ps \<Longrightarrow> shrinks (alt_of ps)"
  by (induction ps) (auto simp: shrinks_def split: option.splits)

lemma many0_length: "many0 p s acc = Some (r, xs) \<Longrightarrow> length r \<le> length s"
proof (induction p s acc rule: many0.induct)
  case (1 p s acc)
  then show ?case by (subst (asm) (2) many0.simps) (fastforce split: option.splits prod.splits if_splits)
qed

lemma shrinks_many0: "shrinks (\<lambda>s. many0 p s [])"
  by (rule shrinksI) (rule many0_length)

lemma separated_rest_length: "separated_rest sep p s acc = Some (r, xs) \<Longrightarrow> length r \<le> length s"
proof (induction sep p s acc rule: separated_rest.induct)
  case (1 sep p s acc)
  then show ?case by (subst (asm) (2) separated_rest.simps) (fastforce split: option.splits prod.splits if_splits)
qed

lemma shrinks_separated:
  "shrinks p \<Longrightarrow> shrinks (separated_list1 sep p)" "shrinks p \<Longrightarrow> shrinks (separated_list0 sep p)"
  using separated_rest_length [of sep p]
  by (fastforce simp: shrinks_def separated_list1_def separated_list0_def intro: order_trans split: option.splits)+

lemma agree_separated:
  assumes "shrinks sep" "shrinks p" "agree_upto n p q"
  shows "agree_upto n (separated_list1 sep p) (separated_list1 sep q)"
    "agree_upto n (separated_list0 sep p) (separated_list0 sep q)"
proof -
  have rest: "separated_rest sep p r acc = separated_rest sep q r acc" if "p s = Some (r, x)" "length s \<le> n" for s r x acc
    using agree_separated_rest [OF assms(1)] agree_mono [OF assms(3)] shrinksD [OF assms(2) that(1)] that(2)
    by (meson order_trans)
  show "agree_upto n (separated_list1 sep p) (separated_list1 sep q)"
    "agree_upto n (separated_list0 sep p) (separated_list0 sep q)"
    unfolding agree_upto_def separated_list1_def separated_list0_def
    using agreeD [OF assms(3)] rest by (auto split: option.split)
qed

lemma shrinks_ident: "nom_documented nm \<Longrightarrow> shrinks (ident nm)"
  unfolding ident_def
  by (intro shrinks_combinators shrinks_alt) (auto simp: shrinks_nom shrinks_tag shrinks_many0)

lemma shrinks_segment:
  assumes nm: "nom_documented nm" and q: "shrinks q"
  shows "shrinks (template_param_of nm q)" "shrinks (template_params_of nm q)" "shrinks (segment_of nm q)"
proof -
  show tp: "shrinks (template_param_of nm q)"
    using shrinks_nom(3) [OF nm] q by (fastforce simp: shrinks_def template_param_of_def split: option.splits)
  show tps: "shrinks (template_params_of nm q)"
    unfolding template_params_of_def by (intro shrinks_combinators shrinks_separated shrinks_ws shrinks_tag nm tp)
  show "shrinks (segment_of nm q)"
    unfolding segment_of_def
  proof (intro shrinks_combinators(1) shrinks_ident nm)
    show "shrinks (\<lambda>inp. case template_params_of nm q (space0 nm inp) of
        Some (rest, ps) \<Rightarrow> Some (rest, QIdentSegment name ps) | None \<Rightarrow> Some (inp, QIdentSegment name []))" for name
      using shrinksD [OF tps] space0_length [OF nm] by (fastforce simp: shrinks_def intro: order_trans split: option.splits)
  qed
qed

lemma qident_start_length:
  "nom_documented nm \<Longrightarrow> length (case tag nm ''::'' s of Some rest \<Rightarrow> space0 nm rest | None \<Rightarrow> s) \<le> length s"
  using tag_length [of nm "''::''" s] space0_length [of nm] by (fastforce split: option.split intro: order_trans)

lemma shrinks_qident: "nom_documented nm \<Longrightarrow> shrinks (qualified_ident_upto n nm)"
proof (induction n)
  case (Suc n)
  then have "shrinks (separated_list1 (ws nm (tag_of nm ''::'')) (segment_of nm (qualified_ident_upto n nm)))"
    by (intro shrinks_separated shrinks_segment)
  then show ?case
    using qident_start_length [OF Suc.prems]
    by (auto simp: shrinks_def qualified_ident_upto.simps intro: order_trans)
qed (simp add: shrinks_def)

lemma agree_template_params:
  assumes nm: "nom_documented nm" and q: "shrinks q" "agree_upto n q q'"
  shows "agree_upto (Suc n) (template_params_of nm q) (template_params_of nm q')"
proof -
  have "agree_upto n (template_param_of nm q) (template_param_of nm q')"
    using agreeD [OF q(2)] by (simp add: agree_upto_def template_param_of_def)
  then have "agree_upto n (separated_list0 (tag_of nm '','') (ws nm (template_param_of nm q)))
      (separated_list0 (tag_of nm '','') (ws nm (template_param_of nm q')))"
    by (intro agree_separated shrinks_tag shrinks_ws shrinks_segment agree_ws nm q(1))
  then show ?thesis
    using tag_length [OF nm, of "''<''"]
    by (fastforce simp: agree_upto_def template_params_of_def then_of_def tag_of_def split: option.split)
qed

lemma agree_segment:
  assumes nm: "nom_documented nm" and q: "shrinks q" "agree_upto n q q'"
  shows "agree_upto (Suc n) (segment_of nm q) (segment_of nm q')"
proof -
  have "template_params_of nm q (space0 nm r) = template_params_of nm q' (space0 nm r)"
    if "ident nm s = Some (r, x)" "length s \<le> Suc n" for s r x
    using agreeD [OF agree_template_params [OF assms]] space0_length [OF nm, of r]
      shrinksD [OF shrinks_ident [OF nm] that(1)] that(2) by (meson order_trans)
  then show ?thesis by (auto simp: agree_upto_def segment_of_def then_of_def split: option.split)
qed

text \<open>One more level of nesting than the input is long makes no difference.\<close>

lemma qualified_ident_bound:
  "nom_documented nm \<Longrightarrow> length s < n \<Longrightarrow> length s < m \<Longrightarrow> qualified_ident_upto n nm s = qualified_ident_upto m nm s"
proof (induction n arbitrary: m s)
  case (Suc n)
  then obtain m' where m: "m = Suc m'" by (cases m) auto
  let ?start = "case tag nm ''::'' s of Some rest \<Rightarrow> space0 nm rest | None \<Rightarrow> s"
  let ?sep = "ws nm (tag_of nm ''::'')"
  show ?case
  proof (cases "length s")
    case 0
    have "agree_upto 0 (segment_of nm (qualified_ident_upto n nm)) (segment_of nm (qualified_ident_upto m' nm))"
      using nomD(1,10) [OF Suc.prems(1)]
      by (simp add: agree_upto_def segment_of_def then_of_def ident_def recognize_def tag_of_def take_while1_def starts_with_def)
    then have "separated_list1 ?sep (segment_of nm (qualified_ident_upto n nm)) ?start =
        separated_list1 ?sep (segment_of nm (qualified_ident_upto m' nm)) ?start"
      using agreeD [OF agree_separated(1) [OF _ _, of ?sep]] qident_start_length [OF Suc.prems(1), of s] 0
        shrinks_ws [OF Suc.prems(1) shrinks_tag [OF Suc.prems(1)]]
        shrinks_segment(3) [OF Suc.prems(1) shrinks_qident [OF Suc.prems(1)]] by metis
    then show ?thesis unfolding m by (simp only: qualified_ident_upto.simps)
  next
    case (Suc k)
    have "agree_upto k (qualified_ident_upto n nm) (qualified_ident_upto m' nm)"
      unfolding agree_upto_def using Suc.IH Suc.prems m \<open>length s = Suc k\<close> by auto
    then have "agree_upto (Suc k) (segment_of nm (qualified_ident_upto n nm)) (segment_of nm (qualified_ident_upto m' nm))"
      by (intro agree_segment shrinks_qident Suc.prems(1))
    then have "agree_upto (Suc k) (separated_list1 ?sep (segment_of nm (qualified_ident_upto n nm)))
        (separated_list1 ?sep (segment_of nm (qualified_ident_upto m' nm)))"
      by (intro agree_separated shrinks_ws shrinks_tag shrinks_segment shrinks_qident Suc.prems(1))
    then show ?thesis unfolding m qualified_ident_upto.simps
      using qident_start_length [OF Suc.prems(1), of s] Suc by (auto simp: agree_upto_def)
  qed
qed simp

lemma shrinks_qualified_ident: "nom_documented nm \<Longrightarrow> shrinks (qualified_ident nm)"
  using shrinks_qident unfolding shrinks_def qualified_ident_def by blast

lemma shrinks_cast: "nom_documented nm \<Longrightarrow> shrinks (cast nm)"
  unfolding cast_def delimited_def
  by (intro shrinks_combinators shrinks_tag shrinks_ws shrinks_qualified_ident shrinks_many0)

text \<open>Operands and postfix operators look for an expression behind a bracket only.\<close>

definition agree_below :: "nat \<Rightarrow> (string \<Rightarrow> 'a) \<Rightarrow> (string \<Rightarrow> 'a) \<Rightarrow> bool" where
  "agree_below n p q \<longleftrightarrow> (\<forall>s. length s < n \<longrightarrow> p s = q s)"

definition shortens :: "'a recognizer \<Rightarrow> bool" where
  "shortens p \<longleftrightarrow> (\<forall>s r x. p s = Some (r, x) \<longrightarrow> length r < length s)"

lemma shortens_tag: "nom_documented nm \<Longrightarrow> t \<noteq> [] \<Longrightarrow> shortens (tag_of nm t)"
  unfolding shortens_def tag_of_def using tag_length [of nm t] by (metis (no_types, lifting) length_greater_0_conv
      less_add_same_cancel1 map_option_eq_Some old.prod.inject)

lemma shortens_ws_tag: "nom_documented nm \<Longrightarrow> t \<noteq> [] \<Longrightarrow> shortens (ws nm (tag_of nm t))"
  unfolding shortens_def
proof (intro allI impI)
  fix s r x
  assume nm: "nom_documented nm" and "t \<noteq> []" "ws nm (tag_of nm t) s = Some (r, x)"
  then obtain r' where "tag_of nm t (space0 nm s) = Some (r', x)" "r = space0 nm r'" by (auto simp: ws_def)
  then show "length r < length s"
    using shortens_tag [OF nm \<open>t \<noteq> []\<close>] space0_length [OF nm, of r'] space0_length [OF nm, of s]
    by (auto simp: shortens_def dest: le_less_trans less_le_trans)
qed

lemma agree_behind:
  assumes "shortens b" "agree_below n p q"
  shows "agree_upto n (then_parser (lift_parser b) (\<lambda>_. then_skip (then_parser p f) g))
    (then_parser (lift_parser b) (\<lambda>_. then_skip (then_parser q f) g))"
  unfolding agree_upto_def
proof (intro allI impI)
  fix s :: string
  assume "length s \<le> n"
  then have "p r = q r" if "b s = Some (r, x)" for r x
    using assms that unfolding shortens_def agree_below_def by (meson less_le_trans)
  then show "then_parser (lift_parser b) (\<lambda>_. then_skip (then_parser p f) g) s =
      then_parser (lift_parser b) (\<lambda>_. then_skip (then_parser q f) g) s"
    by (auto simp: then_parser_def lift_parser_def then_skip_def split: option.split)
qed

lemma agree_alt_last:
  "agree_upto n p q \<Longrightarrow> agree_upto n (alt_parser (ps @ [p])) (alt_parser (ps @ [q]))"
  by (induction ps) (auto simp: agree_upto_def split: exec.split option.split)

lemma agree_alt_fourth:
  "agree_upto n p q \<Longrightarrow> agree_upto n (alt_parser [a, b, c, p]) (alt_parser [a, b, c, q])"
  using agree_alt_last [of n p q "[a, b, c]"] by simp

lemma agree_ws_parser:
  assumes "nom_documented nm" "agree_upto n p q"
  shows "agree_upto n (ws_parser nm p) (ws_parser nm q)"
  unfolding agree_upto_def ws_parser_def
  using agreeD [OF assms(2) order_trans [OF space0_length [OF assms(1)]]] by simp

lemma agree_operand:
  assumes nm: "nom_documented nm" and e: "agree_below n e e'"
  shows "agree_upto n (operand nm e) (operand nm e')"
proof -
  let ?alts = "\<lambda>e. ws_parser nm (alt_parser
     ([lift_parser (numeric_literal nm), lift_parser (boolean_literal nm), lift_parser (python_string nm),
       lift_parser (map_of_parser eval_call (recognize (qualified_ident nm))),
       lift_parser (map_of_parser eval_call (native_expr nm))] @
      [then_parser (lift_parser (tag_of nm ''('')) (\<lambda>_.
         then_skip (then_parser e (\<lambda>e. lift_parser (\<lambda>inp. Some (inp, ''('' @ e @ '')'')))) (tag_of nm '')''))]))"
  have "agree_upto n (?alts e) (?alts e')"
    by (intro agree_ws_parser agree_alt_last agree_behind shortens_tag nm e) simp
  then have here: "?alts e r = ?alts e' r" if "length r \<le> n" for r
    using that by (auto simp: agree_upto_def)
  moreover have "?alts e r = ?alts e' r" if "length s \<le> n" "ws nm (cast nm) s = Some (r, x)" for s r x
    using that shrinksD [OF shrinks_ws [OF nm shrinks_cast [OF nm]], of s r x] by (intro here) auto
  ultimately show ?thesis
    by (auto simp: agree_upto_def operand_def then_parser_def Let_def split: option.split prod.split)
qed

lemma agree_postfix:
  assumes nm: "nom_documented nm" and e: "agree_below n e e'"
  shows "agree_upto n (postfix_operator nm e) (postfix_operator nm e')"
proof -
  have alts: "agree_below n (alt_parser [lift_parser (integer_literal nm), e])
      (alt_parser [lift_parser (integer_literal nm), e'])"
    using e by (auto simp: agree_below_def split: exec.split option.split)
  show ?thesis
    unfolding postfix_operator_def by (intro agree_alt_fourth agree_behind shortens_ws_tag alts nm) simp
qed

text \<open>More nesting than the input is long makes no difference: the bound of \<open>simple_expression\<close> is enough.\<close>

lemma simple_expression_bound:
  "nom_documented nm \<Longrightarrow> length s < n \<Longrightarrow> length s < m \<Longrightarrow> expression_upto n nm s = expression_upto m nm s"
proof (induction n arbitrary: m s)
  case (Suc n)
  then obtain m' where m: "m = Suc m'" by (cases m) auto
  let ?inner = "\<lambda>n inp. exec_bind (expression_upto n nm inp) (\<lambda>r. Done (case r of Inr x \<Rightarrow> Some x | Inl _ \<Rightarrow> None))"
  have "agree_below (length s) (?inner n) (?inner m')"
    unfolding agree_below_def using Suc.IH [OF Suc.prems(1), of _ m'] Suc.prems m by auto
  then show ?case unfolding m expression_upto.simps Let_def
    by (intro precedence_local Suc.prems(1) agree_postfix agree_operand)
qed simp

section \<open>What the translation of Python expressions does\<close>

lemma shortens_then: "shortens p \<Longrightarrow> (\<And>x. shrinks (q x)) \<Longrightarrow> shortens (then_of p q)"
  unfolding shortens_def shrinks_def then_of_def by (fastforce split: option.splits intro: le_less_trans)

lemma shortens_combinators:
  "shortens p \<Longrightarrow> shortens (map_of_parser f p)" "shortens p' \<Longrightarrow> shortens (recognize p')"
  unfolding shortens_def map_of_parser_def recognize_def by auto

lemma shortens_alt: "list_all shortens ps \<Longrightarrow> shortens (alt_of ps)"
  by (induction ps) (auto simp: shortens_def split: option.splits)

lemma shortens_delimited: "nom_documented nm \<Longrightarrow> left \<noteq> [] \<Longrightarrow> shrinks p \<Longrightarrow> shortens (delimited nm left p right)"
  unfolding delimited_def by (intro shortens_then shortens_tag shrinks_combinators shrinks_tag)

lemma anychar_rest:
  assumes nm: "nom_documented nm" and some: "anychar nm s = Some (r, x)"
  shows "length r < length s" "suffix r s"
proof -
  have "s \<noteq> []" using some nomD(5) [OF nm] by auto
  then obtain n where "0 < n" "n \<le> length s" "r = drop n s" using anychar_takes [OF nm] some by (metis option.inject prod.inject)
  then show "length r < length s" "suffix r s" by (auto simp: suffix_drop)
qed

lemma shortens_anychar: "nom_documented nm \<Longrightarrow> shortens (anychar nm)"
  unfolding shortens_def using anychar_rest(1) by blast

lemma shortens_python_string: "nom_documented nm \<Longrightarrow> shortens (python_string nm)"
  unfolding python_string_def
  by (intro shortens_combinators shortens_alt)
    (simp add: shortens_combinators shortens_delimited shrinks_is_not string_body_def [abs_def] shrinks_many0)

lemma shortens_native_expr: "nom_documented nm \<Longrightarrow> shortens (native_expr nm)"
  unfolding native_expr_def
  by (intro shortens_then shortens_tag shrinks_alt)
    (simp_all add: shrinks_combinators shrinks_qualified_ident delimited_def shrinks_tag shrinks_is_not)

lemma shortens_python_item: "nom_documented nm \<Longrightarrow> shortens (python_item nm)"
  unfolding python_item_def
  by (intro shortens_alt)
    (simp add: shortens_combinators shortens_python_string shortens_native_expr shortens_anychar)

text \<open>Every text has a first item.\<close>

lemma python_item_exists:
  assumes nm: "nom_documented nm"
  shows "python_item nm s = None \<longleftrightarrow> s = []"
proof (cases "s = []")
  case True
  then show ?thesis
    using nomD(1,5) [OF nm]
    by (simp add: python_item_def python_string_def native_expr_def delimited_def recognize_def then_of_def
        tag_of_def map_of_parser_def starts_with_def)
next
  case False
  then obtain n where "anychar nm s = Some (drop n s, take n s)" using anychar_takes [OF nm] by metis
  then show ?thesis using False by (auto simp: python_item_def recognize_def split: option.splits)
qed

lemma python_items_total: "nom_documented nm \<Longrightarrow> \<exists>out. \<forall>acc. python_items nm s acc = Inr ([], acc @ out)"
proof (induction s rule: length_induct)
  case (1 s)
  show ?case
  proof (cases "python_item nm s")
    case None
    then show ?thesis using python_item_exists [OF "1.prems", of s] by (auto simp: python_items.simps)
  next
    case (Some ri)
    then obtain r i where ri: "python_item nm s = Some (r, i)" by (cases ri) auto
    then have len: "length r < length s" using shortens_python_item [OF "1.prems"] by (auto simp: shortens_def)
    then obtain out where "\<forall>acc. python_items nm r acc = Inr ([], acc @ out)" using "1.IH" "1.prems" by blast
    then have "\<forall>acc. python_items nm s acc = Inr ([], acc @ i @ out)"
      using ri len by (subst python_items.simps) simp
    then show ?thesis by blast
  qed
qed

lemma python_expr_total: "nom_documented nm \<Longrightarrow> \<exists>out. preprocess_python_expr nm s = Inr out"
  using python_items_total [of nm s] by (auto simp: preprocess_python_expr_def)

lemma python_expr_Nil: "nom_documented nm \<Longrightarrow> preprocess_python_expr nm [] = Inr []"
  using python_item_exists [of nm "[]"] by (simp add: preprocess_python_expr_def python_items.simps)

lemma python_expr_step:
  assumes nm: "nom_documented nm" and item: "python_item nm s = Some (r, i)"
    and rest: "preprocess_python_expr nm r = Inr out"
  shows "preprocess_python_expr nm s = Inr (i @ out)"
proof -
  obtain out' where "\<forall>acc. python_items nm r acc = Inr ([], acc @ out')" using python_items_total [OF nm] by blast
  moreover have "length r < length s" using item shortens_python_item [OF nm] by (auto simp: shortens_def)
  ultimately show ?thesis
    using item rest by (simp add: preprocess_python_expr_def python_items.simps [of nm s])
qed

text \<open>Parsers that leave an end of the input; what they recognize is the beginning.\<close>

definition leaves_end :: "'a recognizer \<Rightarrow> bool" where
  "leaves_end p \<longleftrightarrow> (\<forall>s r x. p s = Some (r, x) \<longrightarrow> suffix r s)"

lemma leaves_endD: "leaves_end p \<Longrightarrow> p s = Some (r, x) \<Longrightarrow> suffix r s"
  by (auto simp: leaves_end_def)

lemma recognize_append:
  assumes "leaves_end p" "recognize p s = Some (r, x)"
  shows "x @ r = s"
proof -
  obtain y where "p s = Some (r, y)" "x = take (length s - length r) s" using assms(2) by (auto simp: recognize_def)
  then show ?thesis using leaves_endD [OF assms(1), of s r y] by (auto simp: suffix_def)
qed

lemma leaves_end_tag: "nom_documented nm \<Longrightarrow> leaves_end (tag_of nm t)"
  by (auto simp: leaves_end_def tag_of_def nomD suffix_drop split: if_splits)

lemma leaves_end_take_while1: "leaves_end (take_while1 P)"
  by (auto simp: leaves_end_def take_while1_def suffix_dropWhile split: if_splits)

lemma leaves_end_is_not:
  assumes "nom_documented nm" "list_all (\<lambda>c. byte c < 128) t"
  shows "leaves_end (is_not nm t)"
proof -
  have "is_not nm t s = take_while1 (\<lambda>c. c \<notin> set t) s" for s
    using assms(2) by (intro nomD(9) [OF assms(1)]) (simp add: list_all_iff)
  then show ?thesis using leaves_end_take_while1 [of "\<lambda>c. c \<notin> set t"] by (simp add: leaves_end_def)
qed

lemma leaves_end_anychar:
  assumes nm: "nom_documented nm"
  shows "leaves_end (anychar nm)" "leaves_end (none_of nm t)"
proof -
  show any: "leaves_end (anychar nm)"
    unfolding leaves_end_def using anychar_rest(2) [OF nm] by blast
  show "leaves_end (none_of nm t)"
    using any unfolding leaves_end_def nomD(8) [OF nm] by (auto split: list.splits if_splits)
qed

lemma leaves_end_combinators:
  "leaves_end p \<Longrightarrow> leaves_end (map_of_parser f p)" "leaves_end p' \<Longrightarrow> leaves_end (recognize p')"
  unfolding leaves_end_def map_of_parser_def recognize_def by auto

lemma leaves_end_then: "leaves_end p \<Longrightarrow> (\<And>x. leaves_end (q x)) \<Longrightarrow> leaves_end (then_of p q)"
  unfolding leaves_end_def then_of_def by (fastforce split: option.splits intro: suffix_order.trans)

lemma leaves_end_alt: "list_all leaves_end ps \<Longrightarrow> leaves_end (alt_of ps)"
  by (induction ps) (auto simp: leaves_end_def split: option.splits)

lemma many0_suffix: "leaves_end p \<Longrightarrow> many0 p s acc = Some (r, xs) \<Longrightarrow> suffix r s"
proof (induction p s acc rule: many0.induct)
  case (1 p s acc)
  show ?case
  proof (cases "p s")
    case None
    then show ?thesis using "1.prems"(2) by (simp add: many0.simps)
  next
    case (Some ry)
    then obtain r' y where y: "p s = Some (r', y)" by (cases ry) auto
    then have "length r' < length s" "many0 p r' (acc @ [y]) = Some (r, xs)"
      using "1.prems"(2) many0.simps [of p s acc] by (simp_all split: if_splits)
    then show ?thesis using "1.IH" [OF y refl] "1.prems"(1) leaves_endD [OF "1.prems"(1) y] suffix_order.trans by blast
  qed
qed

lemma leaves_end_many0: "leaves_end p \<Longrightarrow> leaves_end (\<lambda>s. many0 p s [])"
  using many0_suffix by (auto simp: leaves_end_def)

lemma leaves_end_delimited: "nom_documented nm \<Longrightarrow> leaves_end p \<Longrightarrow> leaves_end (delimited nm left p right)"
  unfolding delimited_def by (intro leaves_end_then leaves_end_tag leaves_end_combinators)

lemma leaves_end_string_body: "nom_documented nm \<Longrightarrow> leaves_end (string_body nm delim)"
  unfolding string_body_def [abs_def]
  by (intro leaves_end_many0 leaves_end_alt)
    (simp add: leaves_end_combinators leaves_end_then leaves_end_tag leaves_end_anychar)

lemma leaves_end_python_string: "nom_documented nm \<Longrightarrow> leaves_end (python_string nm)"
  unfolding python_string_def
  by (intro leaves_end_combinators leaves_end_alt)
    (simp add: leaves_end_combinators leaves_end_delimited leaves_end_is_not leaves_end_string_body)

lemma native_expr_dollar: "nom_documented nm \<Longrightarrow> CHR ''$'' \<notin> set s \<Longrightarrow> native_expr nm s = None"
  by (auto simp: native_expr_def then_of_def tag_of_def nomD starts_with_iff)

lemma python_item_no_dollar:
  assumes nm: "nom_documented nm" and "CHR ''$'' \<notin> set s" "python_item nm s = Some (r, i)"
  shows "i @ r = s"
proof -
  have "recognize (python_string nm) s = Some (r, i) \<or> recognize (anychar nm) s = Some (r, i)"
    using assms(3) native_expr_dollar [OF nm assms(2)] by (auto simp: python_item_def map_of_parser_def split: option.splits)
  then show ?thesis
    using recognize_append [OF leaves_end_python_string [OF nm]] recognize_append [OF leaves_end_anychar(1) [OF nm]] by blast
qed

lemma python_expr_no_dollar:
  "nom_documented nm \<Longrightarrow> CHR ''$'' \<notin> set s \<Longrightarrow> preprocess_python_expr nm s = Inr s"
proof (induction s rule: length_induct)
  case (1 s)
  show ?case
  proof (cases "python_item nm s")
    case None
    then show ?thesis using python_item_exists [OF "1.prems"(1), of s] python_expr_Nil [OF "1.prems"(1)] by simp
  next
    case (Some ri)
    then obtain r i where ri: "python_item nm s = Some (r, i)" by (cases ri) auto
    have s: "i @ r = s" by (rule python_item_no_dollar [OF "1.prems" ri])
    have "length r < length s" using ri shortens_python_item [OF "1.prems"(1)] by (auto simp: shortens_def)
    moreover have "CHR ''$'' \<notin> set r" using s "1.prems"(2) by auto
    ultimately have "preprocess_python_expr nm r = Inr r" using "1.IH" "1.prems"(1) by blast
    then show ?thesis using python_expr_step [OF "1.prems"(1) ri] s by simp
  qed
qed

text \<open>How the first item of a text is chosen.\<close>

definition is_quote :: "char \<Rightarrow> bool" where
  "is_quote c \<longleftrightarrow> c = CHR 0x22 \<or> c = CHR 0x27"

definition is_ident_char :: "char \<Rightarrow> bool" where
  "is_ident_char c \<longleftrightarrow> is_ascii_alpha c \<or> is_digit c \<or> c = CHR ''_''"

fun is_identifier :: "string \<Rightarrow> bool" where
  "is_identifier [] \<longleftrightarrow> False"
| "is_identifier (c # cs) \<longleftrightarrow> (is_ascii_alpha c \<or> c = CHR ''_'') \<and> list_all is_ident_char cs"

text \<open>A text that does not go on with an identifier: no further letter, no template parameters, no segment.\<close>

definition ends_identifier :: "string \<Rightarrow> bool" where
  "ends_identifier s \<longleftrightarrow> (s = [] \<or> \<not> is_ident_char (hd s)) \<and>
     \<not> starts_with (dropWhile is_space s) ''<'' \<and> \<not> starts_with (dropWhile is_space s) ''::''"

lemma tag_of_Cons:
  "nom_documented nm \<Longrightarrow> tag_of nm [a] (c # s) = (if c = a then Some (s, [a]) else None)"
  by (simp add: tag_of_def nomD starts_with_def)

lemma python_item_plain:
  assumes nm: "nom_documented nm" and c: "byte c < 128" "\<not> is_quote c" "c \<noteq> CHR ''$''"
    and r: "c = CHR ''r'' \<Longrightarrow> s = [] \<or> \<not> is_quote (hd s)"
  shows "python_item nm (c # s) = Some (s, [c])"
proof -
  have raw: "tag_of nm [CHR ''r'', q] (c # s) = None" if "is_quote q" for q
    using r that by (cases s) (auto simp: tag_of_def nomD [OF nm] starts_with_def)
  have "python_string nm (c # s) = None"
    using c raw by (simp add: python_string_def delimited_def recognize_def then_of_def tag_of_Cons [OF nm] is_quote_def)
  moreover have "native_expr nm (c # s) = None"
    using c by (simp add: native_expr_def then_of_def tag_of_Cons [OF nm])
  ultimately show ?thesis
    using nomD(4) [OF nm c(1)] by (simp add: python_item_def recognize_def map_of_parser_def)
qed

lemma many0_step: "p s = Some (r, x) \<Longrightarrow> length r < length s \<Longrightarrow> many0 p s acc = many0 p r (acc @ [x])"
  by (simp add: many0.simps)

lemma many0_stop: "p s = None \<Longrightarrow> many0 p s acc = Some (s, acc)"
  by (simp add: many0.simps)

text \<open>The inside of a string with delimiter \<open>q\<close>: a backslash escapes the character behind it.\<close>

fun string_chars :: "char \<Rightarrow> string \<Rightarrow> bool" where
  "string_chars q [] \<longleftrightarrow> True"
| "string_chars q [c] \<longleftrightarrow> c \<noteq> q \<and> c \<noteq> CHR 0x5C"
| "string_chars q (c # d # s) \<longleftrightarrow> (if c = CHR 0x5C then string_chars q s else c \<noteq> q \<and> string_chars q (d # s))"

lemma string_chars_Cons:
  "c \<noteq> CHR 0x5C \<Longrightarrow> string_chars q (c # s) \<longleftrightarrow> c \<noteq> q \<and> string_chars q s"
  by (cases s) auto

lemma string_chars_drop:
  "string_chars q s \<Longrightarrow> list_all (\<lambda>c. 128 \<le> byte c) (take m s) \<Longrightarrow> string_chars q (drop m s)"
proof (induction m arbitrary: s)
  case (Suc m)
  show ?case
  proof (cases s)
    case (Cons c s')
    then have "c \<noteq> CHR 0x5C" using Suc.prems(2) by auto
    then show ?thesis using Suc Cons by (simp add: string_chars_Cons)
  qed simp
qed simp

text \<open>A character taken from the inside of a string does not reach its end.\<close>

lemma anychar_inside:
  assumes nm: "nom_documented nm" and q: "byte q < 128"
  obtains m where "m \<le> length s" "anychar nm (c # s @ q # t) = Some (drop m s @ q # t, c # take m s)"
    "list_all (\<lambda>c. 128 \<le> byte c) (take m s)"
proof -
  obtain n where n: "0 < n" "anychar nm (c # s @ q # t) = Some (drop n (c # s @ q # t), take n (c # s @ q # t))"
    "list_all (\<lambda>c. 128 \<le> byte c) (tl (take n (c # s @ q # t)))"
    using anychar_takes [OF nm, of "c # s @ q # t"] by blast
  then obtain m where m: "n = Suc m" by (cases n) auto
  have "m \<le> length s"
  proof (rule ccontr)
    assume "\<not> m \<le> length s"
    then have "q \<in> set (take m (s @ q # t))" by (cases "m - length s") auto
    then have "128 \<le> byte q" using n(3) m by (simp add: list_all_iff del: take_append set_append)
    then show False using q by simp
  qed
  then show ?thesis using n(2,3) m that [of m] by simp
qed

lemma string_body_chars:
  assumes nm: "nom_documented nm" and q: "is_quote q"
  shows "string_chars q body \<Longrightarrow>
    \<exists>xs. many0 (alt_of [recognize (then_of (tag_of nm [CHR 0x5C]) (\<lambda>_. anychar nm)), none_of nm [q]]) (body @ q # s) acc =
      Some (q # s, xs)"
proof (induction body arbitrary: acc rule: length_induct)
  case (1 body)
  let ?p = "alt_of [recognize (then_of (tag_of nm [CHR 0x5C]) (\<lambda>_. anychar nm)), none_of nm [q]]"
  have asc: "byte q < 128" "q \<noteq> CHR 0x5C" using q by (auto simp: is_quote_def)
  show ?case
  proof (cases body)
    case Nil
    then show ?thesis
      using asc nomD(8) [OF nm] by (subst many0.simps) (simp add: recognize_def then_of_def tag_of_Cons [OF nm])
  next
    case (Cons c rest)
    obtain k x where k: "?p (body @ q # s) = Some (drop k body @ q # s, x)" "0 < k" "string_chars q (drop k body)"
    proof (cases "c = CHR 0x5C")
      case True
      then obtain d rest' where d: "rest = d # rest'" "string_chars q rest'" using "1.prems" Cons by (cases rest) auto
      obtain m where m: "anychar nm (d # rest' @ q # s) = Some (drop m rest' @ q # s, d # take m rest')"
        "list_all (\<lambda>c. 128 \<le> byte c) (take m rest')" using anychar_inside [OF nm asc(1)] by metis
      show ?thesis
        using that [of "Suc (Suc m)"] m string_chars_drop [OF d(2) m(2)] Cons d(1) True
        by (simp add: recognize_def then_of_def tag_of_Cons [OF nm])
    next
      case False
      then have c: "c \<noteq> q" "string_chars q rest" using "1.prems" Cons by (auto simp: string_chars_Cons)
      obtain m where m: "anychar nm (c # rest @ q # s) = Some (drop m rest @ q # s, c # take m rest)"
        "list_all (\<lambda>c. 128 \<le> byte c) (take m rest)" using anychar_inside [OF nm asc(1)] by metis
      show ?thesis
        using that [of "Suc m"] m string_chars_drop [OF c(2) m(2)] Cons False c(1) nomD(8) [OF nm]
        by (simp add: recognize_def then_of_def tag_of_Cons [OF nm])
    qed
    have "length (drop k body) < length body" using k(2) Cons by simp
    then obtain xs where "many0 ?p (drop k body @ q # s) (acc @ [x]) = Some (q # s, xs)" using "1.IH" k(3) by blast
    then show ?thesis using k(1,2) Cons by (auto simp del: alt_of.simps simp: many0_step)
  qed
qed

lemma python_item_quoted:
  assumes nm: "nom_documented nm" and q: "is_quote q" and body: "string_chars q body"
  shows "python_item nm (q # body @ q # s) = Some (s, q # body @ [q])"
proof -
  obtain xs where "delimited nm [q] (string_body nm [q]) [q] (q # body @ q # s) = Some (s, xs)"
    using string_body_chars [OF nm q body, of s "[]"]
    by (auto simp: delimited_def then_of_def map_of_parser_def string_body_def tag_of_Cons [OF nm] simp del: alt_of.simps)
  moreover have "delimited nm [CHR 0x22] (string_body nm [CHR 0x22]) [CHR 0x22] (CHR 0x27 # t) = None" for t
    by (simp add: delimited_def then_of_def tag_of_Cons [OF nm])
  ultimately have "python_string nm (q # body @ q # s) = Some (s, q # body @ [q])"
    using q by (auto simp: python_string_def recognize_def is_quote_def)
  then show ?thesis by (simp add: python_item_def recognize_def)
qed

lemma python_item_raw:
  assumes nm: "nom_documented nm" and q: "is_quote q" and body: "body \<noteq> []" "q \<notin> set body"
  shows "python_item nm (CHR ''r'' # q # body @ q # s) = Some (s, CHR ''r'' # q # body @ [q])"
proof -
  have "is_not nm [q] (body @ q # s) = Some (q # s, body)"
    using body q nomD(9) [OF nm, of "[q]" "body @ q # s"]
    by (auto simp: take_while1_def takeWhile_append dropWhile_append is_quote_def)
  then have "delimited nm [CHR ''r'', q] (is_not nm [q]) [q] (CHR ''r'' # q # body @ q # s) = Some (s, body)"
    by (simp add: delimited_def then_of_def map_of_parser_def tag_of_def nomD(1) [OF nm] starts_with_def)
  moreover have "delimited nm [CHR ''r'', CHR 0x22] p [CHR 0x22] (CHR ''r'' # CHR 0x27 # t) = None" for t and p :: "string recognizer"
    by (simp add: delimited_def then_of_def tag_of_def nomD(1) [OF nm] starts_with_def)
  moreover have "delimited nm [c] (string_body nm d) e (CHR ''r'' # t) = None" if "is_quote c" for c d e t
    using that by (auto simp: delimited_def then_of_def tag_of_Cons [OF nm] is_quote_def)
  ultimately have "python_string nm (CHR ''r'' # q # body @ q # s) = Some (s, CHR ''r'' # q # body @ [q])"
    using q by (auto simp: python_string_def recognize_def is_quote_def numeral_3_eq_3)
  then show ?thesis by (simp add: python_item_def recognize_def numeral_3_eq_3)
qed

lemma while_stops:
  assumes "s = [] \<or> \<not> P (hd s)"
  shows "takeWhile P (xs @ s) = takeWhile P xs" "dropWhile P (xs @ s) = dropWhile P xs @ s"
proof -
  have "takeWhile P s = []" "dropWhile P s = s" using assms by (cases s; simp)+
  then show "takeWhile P (xs @ s) = takeWhile P xs" "dropWhile P (xs @ s) = dropWhile P xs @ s"
    by (induction xs) auto
qed

lemma ident_tail:
  assumes nm: "nom_documented nm" and s: "s = [] \<or> \<not> is_ident_char (hd s)"
  shows "list_all is_ident_char cs \<Longrightarrow>
    \<exists>xs. many0 (alt_of [alphanumeric1 nm, tag_of nm ''_'']) (cs @ s) acc = Some (s, xs)"
proof (induction cs arbitrary: acc rule: length_induct)
  case (1 cs)
  let ?alnum = "\<lambda>c. is_ascii_alpha c \<or> is_digit c"
  let ?p = "alt_of [alphanumeric1 nm, tag_of nm ''_'']"
  show ?case
  proof (cases cs)
    case Nil
    have "?p s = None"
      using s nomD(1,11) [OF nm] by (cases s) (auto simp: take_while1_def is_ident_char_def tag_of_def starts_with_def)
    then show ?thesis using Nil by (simp del: alt_of.simps add: many0_stop)
  next
    case (Cons c cs')
    have stop: "takeWhile ?alnum (cs @ s) = takeWhile ?alnum cs" "dropWhile ?alnum (cs @ s) = dropWhile ?alnum cs @ s"
      using s by (intro while_stops; auto simp: is_ident_char_def)+
    obtain n x where n: "?p (cs @ s) = Some (drop n cs @ s, x)" "0 < n"
    proof (cases "?alnum c")
      case True
      then have "takeWhile ?alnum cs \<noteq> []" by (simp add: Cons)
      then show ?thesis
        using that [of "length (takeWhile ?alnum cs)" "takeWhile ?alnum cs"] nomD(11) [OF nm, of "cs @ s"] stop
        by (simp add: take_while1_def dropWhile_eq_drop)
    next
      case False
      then have "c = CHR ''_''" using "1.prems" by (auto simp: Cons is_ident_char_def)
      then show ?thesis
        using that [of 1 "''_''"] False nomD(11) [OF nm, of "cs @ s"] by (simp add: Cons take_while1_def tag_of_Cons [OF nm])
    qed
    then obtain xs where "many0 ?p (drop n cs @ s) (acc @ [x]) = Some (s, xs)"
      using "1.IH" "1.prems" Cons by (metis (no_types, lifting) append_take_drop_id length_drop diff_less length_greater_0_conv list.distinct(1) list_all_append)
    then show ?thesis using n Cons by (auto simp del: alt_of.simps simp: many0_step)
  qed
qed

lemma ident_takes:
  assumes nm: "nom_documented nm" and name: "is_identifier name" and s: "s = [] \<or> \<not> is_ident_char (hd s)"
  shows "ident nm (name @ s) = Some (s, name)"
proof -
  obtain c cs where c: "name = c # cs" "is_ascii_alpha c \<or> c = CHR ''_''" "list_all is_ident_char cs"
    using name by (cases name) auto
  obtain n x where n: "alt_of [alpha1 nm, tag_of nm ''_''] (name @ s) = Some (drop n name @ s, x)" "0 < n"
  proof (cases "is_ascii_alpha c")
    case True
    have "dropWhile is_ascii_alpha (name @ s) = dropWhile is_ascii_alpha name @ s"
      using s by (intro while_stops) (auto simp: is_ident_char_def)
    then show ?thesis
      using that [of "length (takeWhile is_ascii_alpha name)"] nomD(10) [OF nm, of "name @ s"] True c(1)
      by (simp add: take_while1_def dropWhile_eq_drop)
  next
    case False
    then show ?thesis
      using that [of 1] c nomD(10) [OF nm, of "name @ s"] by (simp add: take_while1_def tag_of_Cons [OF nm])
  qed
  have "list_all is_ident_char (drop n name)"
    using c(3) n(2) by (cases n) (auto simp: c(1) list_all_iff dest: in_set_dropD)
  then obtain xs where "many0 (alt_of [alphanumeric1 nm, tag_of nm ''_'']) (drop n name @ s) [] = Some (s, xs)"
    using ident_tail [OF nm s] by blast
  then show ?thesis using n by (simp add: ident_def recognize_def then_of_def)
qed

section \<open>Qualified identifiers are read as they are written\<close>

fun joined :: "string \<Rightarrow> string list \<Rightarrow> string" where
  "joined sep [] = []"
| "joined sep [x] = x"
| "joined sep (x # y # xs) = x @ sep @ joined sep (y # xs)"

text \<open>The text of a qualified identifier, without blanks.\<close>

primrec show_segment :: "qident_segment \<Rightarrow> string" and show_param :: "qident_param \<Rightarrow> string" where
  "show_segment (QIdentSegment name ps) = name @ (if ps = [] then [] else ''<'' @ joined '','' (map show_param ps) @ ''>'')"
| "show_param (QIdent segments) = joined ''::'' (map show_segment segments)"
| "show_param (Other x) = x"

abbreviation show_qident :: "qident_segment list \<Rightarrow> string" where
  "show_qident segments \<equiv> joined ''::'' (map show_segment segments)"

text \<open>A template parameter that is not an identifier, for example a number.\<close>

definition other_param :: "string \<Rightarrow> bool" where
  "other_param x \<longleftrightarrow> x \<noteq> [] \<and> list_all (\<lambda>c. c \<notin> set ''<,>'') x \<and> trim x = x \<and> \<not> is_space (hd x) \<and>
     \<not> is_ascii_alpha (hd x) \<and> hd x \<noteq> CHR ''_'' \<and> hd x \<noteq> CHR '':''"

primrec segment_ok :: "qident_segment \<Rightarrow> bool" and param_ok :: "qident_param \<Rightarrow> bool" where
  "segment_ok (QIdentSegment name ps) \<longleftrightarrow> is_identifier name \<and> list_all (\<lambda>b. b) (map param_ok ps)"
| "param_ok (QIdent segments) \<longleftrightarrow> segments \<noteq> [] \<and> list_all (\<lambda>b. b) (map segment_ok segments)"
| "param_ok (Other x) \<longleftrightarrow> other_param x"

lemma identifier_start: "is_identifier name \<Longrightarrow> \<exists>c cs. name = c # cs \<and> (is_ascii_alpha c \<or> c = CHR ''_'')"
  by (cases name) auto

lemma segment_start: "segment_ok seg \<Longrightarrow> \<exists>c cs. show_segment seg = c # cs \<and> (is_ascii_alpha c \<or> c = CHR ''_'')"
  by (cases seg) (auto dest!: identifier_start)

lemma joined_start: "xs \<noteq> [] \<Longrightarrow> hd xs = c # cs \<Longrightarrow> \<exists>cs'. joined sep xs = c # cs'"
  by (induction sep xs rule: joined.induct) auto

lemma qident_start:
  assumes "segments \<noteq> []" "list_all segment_ok segments"
  shows "\<exists>c cs. show_qident segments = c # cs \<and> (is_ascii_alpha c \<or> c = CHR ''_'')"
proof -
  obtain c cs where "show_segment (hd segments) = c # cs" "is_ascii_alpha c \<or> c = CHR ''_''"
    using assms segment_start [of "hd segments"] by (cases segments) auto
  then show ?thesis using joined_start [of "map show_segment segments" c cs "''::''"] assms(1) by (auto simp: hd_map)
qed

lemma letter_plain:
  assumes "is_ascii_alpha c \<or> c = CHR ''_''"
  shows "\<not> is_space c" "c \<noteq> CHR '':''"
  using assms by (auto simp: is_space_def is_ascii_alpha_def)

text \<open>What may follow a segment; \<open>ends_identifier\<close> excludes another segment as well.\<close>

definition ends_segment :: "string \<Rightarrow> bool" where
  "ends_segment s \<longleftrightarrow> (s = [] \<or> \<not> is_ident_char (hd s)) \<and> \<not> starts_with (dropWhile is_space s) ''<''"

lemma ends_after:
  "c = CHR '','' \<or> c = CHR ''>'' \<Longrightarrow> ends_identifier (c # t)" "ends_segment (''::'' @ t)"
  "ends_identifier s \<Longrightarrow> ends_segment s"
  by (auto simp: ends_identifier_def ends_segment_def is_ident_char_def is_ascii_alpha_def is_digit_def dec_digit_def
      is_space_def starts_with_def)

lemma param_read:
  assumes nm: "nom_documented nm" and p: "param_ok p" and t: "c = CHR '','' \<or> c = CHR ''>''"
    and q: "\<And>segments. p = QIdent segments \<Longrightarrow> q (show_qident segments @ c # t) = Some (c # t, segments)"
    and none: "\<And>x. p = Other x \<Longrightarrow> q (x @ c # t) = None"
  shows "ws nm (template_param_of nm q) (show_param p @ c # t) = Some (c # t, p)"
proof -
  have c: "space0 nm (c # t) = c # t" using t by (auto simp: nomD(2) [OF nm] is_space_def)
  show ?thesis
  proof (cases p)
    case (QIdent segments)
    then obtain d ds where d: "show_qident segments = d # ds" "is_ascii_alpha d \<or> d = CHR ''_''"
      using qident_start [of segments] p by (auto simp: list.pred_map comp_def)
    have "space0 nm (show_qident segments @ c # t) = show_qident segments @ c # t"
      using letter_plain [OF d(2)] d(1) by (simp add: nomD(2) [OF nm])
    then show ?thesis using q QIdent c by (simp add: ws_def template_param_of_def)
  next
    case (Other x)
    then have x: "other_param x" using p by simp
    have "space0 nm (x @ c # t) = x @ c # t" using x by (cases x) (auto simp: nomD(2) [OF nm] other_param_def)
    moreover have "is_not nm ''<,>'' (x @ c # t) = Some (c # t, x)"
    proof -
      let ?P = "\<lambda>d. d \<notin> set ''<,>''"
      have P: "d \<in> set x \<Longrightarrow> ?P d" for d using x unfolding other_param_def list_all_iff by blast
      have "takeWhile ?P (c # t) = []" "dropWhile ?P (c # t) = c # t" using t by auto
      then have "takeWhile ?P (x @ c # t) = x" "dropWhile ?P (x @ c # t) = c # t"
        using takeWhile_append2 [of x ?P "c # t"] dropWhile_append2 [of x ?P "c # t"] P by simp_all
      moreover have "x \<noteq> []" using x by (simp add: other_param_def)
      moreover have "is_not nm ''<,>'' (x @ c # t) = take_while1 ?P (x @ c # t)" by (rule nomD(9) [OF nm]) auto
      ultimately show ?thesis by (simp only: take_while1_def if_False)
    qed
    ultimately show ?thesis using none Other c x by (simp add: ws_def template_param_of_def other_param_def)
  qed
qed

text \<open>A list whose separators and elements are read as they are written is read as it is written.\<close>

lemma joined_Cons: "joined sp (x # xs) = x @ concat (map (\<lambda>y. sp @ y) xs)"
  by (induction xs arbitrary: x) simp_all

lemma separated_rest_joined:
  assumes sep: "\<And>x t. x \<in> set xs \<Longrightarrow> sep (sp @ shw x @ t) = Some (shw x @ t, u)"
    and elem: "\<And>x t. x \<in> set xs \<Longrightarrow> follow t \<Longrightarrow> p (shw x @ t) = Some (t, x)"
    and follow: "\<And>t. follow (sp @ t)" "follow s" and stop: "sep s = None"
    and ne: "\<And>x. x \<in> set xs \<Longrightarrow> shw x \<noteq> []"
  shows "separated_rest sep p (concat (map (\<lambda>y. sp @ y) (map shw xs)) @ s) acc = Some (s, acc @ xs)"
  using sep elem ne
proof (induction xs arbitrary: acc)
  case Nil
  then show ?case using stop by (simp add: separated_rest.simps)
next
  case (Cons x xs)
  let ?rest = "concat (map (\<lambda>y. sp @ y) (map shw xs)) @ s"
  have "follow ?rest" using follow by (cases xs) simp_all
  then have "sep (sp @ shw x @ ?rest) = Some (shw x @ ?rest, u)" "p (shw x @ ?rest) = Some (?rest, x)"
    using Cons.prems by simp_all
  moreover have "length ?rest < length (sp @ shw x @ ?rest)" using Cons.prems(3) [of x] by simp
  ultimately have "separated_rest sep p (sp @ shw x @ ?rest) acc = separated_rest sep p ?rest (acc @ [x])"
    by (subst separated_rest.simps) simp
  moreover have "separated_rest sep p ?rest (acc @ [x]) = Some (s, (acc @ [x]) @ xs)"
    by (rule Cons.IH) (use Cons.prems in auto)
  ultimately show ?case by simp
qed

lemma separated_joined:
  assumes "xs \<noteq> []" and sep: "\<And>x t. x \<in> set xs \<Longrightarrow> sep (sp @ shw x @ t) = Some (shw x @ t, u)"
    and elem: "\<And>x t. x \<in> set xs \<Longrightarrow> follow t \<Longrightarrow> p (shw x @ t) = Some (t, x)"
    and follow: "\<And>t. follow (sp @ t)" "follow s" and stop: "sep s = None"
    and ne: "\<And>x. x \<in> set xs \<Longrightarrow> shw x \<noteq> []"
  shows "separated_list1 sep p (joined sp (map shw xs) @ s) = Some (s, xs)"
    "separated_list0 sep p (joined sp (map shw xs) @ s) = Some (s, xs)"
proof -
  obtain x ys where xs: "xs = x # ys" using assms(1) by (cases xs) auto
  let ?rest = "concat (map (\<lambda>y. sp @ y) (map shw ys)) @ s"
  have "follow ?rest" using follow by (cases ys) simp_all
  then have "p (shw x @ ?rest) = Some (?rest, x)" using elem xs by simp
  moreover have "separated_rest sep p ?rest [x] = Some (s, [x] @ ys)"
    by (rule separated_rest_joined [where follow = follow]) (use assms xs in auto)
  ultimately show "separated_list1 sep p (joined sp (map shw xs) @ s) = Some (s, xs)"
    "separated_list0 sep p (joined sp (map shw xs) @ s) = Some (s, xs)"
    unfolding xs list.map joined_Cons append_assoc by (simp_all add: separated_list1_def separated_list0_def)
qed

lemma joined_length: "x \<in> set xs \<Longrightarrow> length x \<le> length (joined sp xs)"
  by (induction sp xs rule: joined.induct) auto

lemma other_not_qident:
  assumes nm: "nom_documented nm" and x: "other_param x"
  shows "qualified_ident_upto n nm (x @ t) = None"
proof (cases n)
  case (Suc m)
  obtain c cs where c: "x = c # cs" using x by (cases x) (auto simp: other_param_def)
  have "tag nm ''::'' (x @ t) = None" "ident nm (x @ t) = None"
    using x nomD(10) [OF nm]
    by (auto simp: c other_param_def nomD(1) [OF nm] starts_with_def ident_def recognize_def then_of_def
        tag_of_Cons [OF nm] take_while1_def)
  then show ?thesis
    unfolding Suc qualified_ident_upto.simps by (simp add: separated_list1_def segment_of_def then_of_def)
qed simp

lemma segment_read:
  assumes nm: "nom_documented nm" and seg: "segment_ok seg" "length (show_segment seg) \<le> n" and s: "ends_segment s"
    and IH: "\<And>segments s. segments \<noteq> [] \<Longrightarrow> list_all segment_ok segments \<Longrightarrow> ends_identifier s \<Longrightarrow>
      length (show_qident segments) < n \<Longrightarrow> qualified_ident_upto n nm (show_qident segments @ s) = Some (s, segments)"
  shows "segment_of nm (qualified_ident_upto n nm) (show_segment seg @ s) = Some (s, seg)"
proof -
  let ?q = "qualified_ident_upto n nm"
  obtain name ps where sg: "seg = QIdentSegment name ps" by (cases seg)
  then have name: "is_identifier name" and ps: "list_all param_ok ps" using seg(1) by (auto simp: list.pred_map comp_def)
  show ?thesis
  proof (cases "ps = []")
    case True
    have "ident nm (name @ s) = Some (s, name)" using ident_takes [OF nm name] s by (simp add: ends_segment_def)
    moreover have "template_params_of nm ?q (space0 nm s) = None"
      using s by (simp add: template_params_of_def then_of_def tag_of_def nomD [OF nm] ends_segment_def)
    ultimately show ?thesis using True sg by (simp add: segment_of_def then_of_def)
  next
    case False
    let ?body = "joined '','' (map show_param ps)"
    have len: "Suc (Suc (length ?body)) < Suc n"
      using seg(2) False sg name by (cases name) auto
    have read: "ws nm (template_param_of nm ?q) (show_param p @ t) = Some (t, p)"
      if p: "p \<in> set ps" and t: "\<exists>c t'. t = c # t' \<and> (c = CHR '','' \<or> c = CHR ''>'')" for p t
    proof -
      obtain c t' where c: "t = c # t'" "c = CHR '','' \<or> c = CHR ''>''" using t by blast
      have ok: "param_ok p" using ps p by (auto simp: list_all_iff)
      have short: "length (show_param p) < n" using joined_length [of "show_param p" "map show_param ps" "'',''"] p len by simp
      show ?thesis
        unfolding c(1)
      proof (rule param_read [OF nm ok c(2)])
        show "?q (show_qident segments @ c # t') = Some (c # t', segments)" if "p = QIdent segments" for segments
          using that ok short IH [of segments "c # t'"] ends_after(1) [OF c(2)] by (auto simp: list.pred_map comp_def)
        show "?q (x @ c # t') = None" if "p = Other x" for x
          using that ok other_not_qident [OF nm] by simp
      qed
    qed
    have ne: "show_param p \<noteq> []" if "p \<in> set ps" for p
    proof -
      have "param_ok p" using ps that by (auto simp: list_all_iff)
      then show ?thesis using qident_start by (cases p) (fastforce simp: list.pred_map comp_def other_param_def)+
    qed
    have "separated_list0 (tag_of nm '','') (ws nm (template_param_of nm ?q)) (?body @ CHR ''>'' # s) = Some (CHR ''>'' # s, ps)"
      by (rule separated_joined(2) [where follow = "\<lambda>t. \<exists>c t'. t = c # t' \<and> (c = CHR '','' \<or> c = CHR ''>'')" and u = "'',''"])
        (use False read ne in \<open>auto simp: tag_of_Cons [OF nm]\<close>)
    then have "template_params_of nm ?q (CHR ''<'' # ?body @ CHR ''>'' # s) = Some (s, ps)"
      by (simp add: template_params_of_def then_of_def map_of_parser_def tag_of_Cons [OF nm])
    moreover have "ident nm (name @ CHR ''<'' # ?body @ CHR ''>'' # s) = Some (CHR ''<'' # ?body @ CHR ''>'' # s, name)"
      by (rule ident_takes [OF nm name]) (simp add: is_ident_char_def is_ascii_alpha_def is_digit_def dec_digit_def)
    ultimately show ?thesis
      using False sg by (simp add: segment_of_def then_of_def nomD(2) [OF nm] is_space_def)
  qed
qed

lemma qident_read:
  assumes nm: "nom_documented nm"
  shows "segments \<noteq> [] \<Longrightarrow> list_all segment_ok segments \<Longrightarrow> ends_identifier s \<Longrightarrow> g = [] \<or> g = ''::'' \<Longrightarrow>
    length (show_qident segments) < n \<Longrightarrow> qualified_ident_upto n nm (g @ show_qident segments @ s) = Some (s, segments)"
proof (induction n arbitrary: segments s g)
  case (Suc n)
  let ?q = "qualified_ident_upto n nm"
  obtain c cs where c: "show_qident segments = c # cs" "is_ascii_alpha c \<or> c = CHR ''_''"
    using qident_start [OF Suc.prems(1,2)] by blast
  note letter = letter_plain [OF c(2)]
  have start: "(case tag nm ''::'' (g @ show_qident segments @ s) of Some rest \<Rightarrow> space0 nm rest
      | None \<Rightarrow> g @ show_qident segments @ s) = show_qident segments @ s"
    using Suc.prems(4)
  proof
    assume "g = []"
    then show ?thesis using letter(2) by (simp add: c(1) nomD(1) [OF nm] starts_with_def)
  next
    assume "g = ''::''"
    then show ?thesis using letter(1) by (simp add: c(1) nomD(1,2) [OF nm] starts_with_def)
  qed
  have sep: "ws nm (tag_of nm ''::'') (''::'' @ show_segment seg @ t) = Some (show_segment seg @ t, ''::'')"
    if "seg \<in> set segments" for seg t
  proof -
    have "segment_ok seg" using Suc.prems(2) that by (simp add: list_all_iff)
    then obtain d ds where d: "show_segment seg = d # ds" "is_ascii_alpha d \<or> d = CHR ''_''"
      using segment_start by blast
    then show ?thesis using letter_plain [OF d(2)] by (simp add: ws_def tag_of_def nomD(1,2) [OF nm] is_space_def starts_with_def)
  qed
  have elem: "segment_of nm ?q (show_segment seg @ t) = Some (t, seg)" if seg: "seg \<in> set segments" and t: "ends_segment t" for seg t
  proof (rule segment_read [OF nm _ _ t])
    show "segment_ok seg" using Suc.prems(2) seg by (simp add: list_all_iff)
    show "length (show_segment seg) \<le> n"
      using joined_length [of "show_segment seg" "map show_segment segments" "''::''"] seg Suc.prems(5) by simp
    show "qualified_ident_upto n nm (show_qident segs @ s') = Some (s', segs)"
      if "segs \<noteq> []" "list_all segment_ok segs" "ends_identifier s'" "length (show_qident segs) < n" for segs s'
      using Suc.IH [OF that(1-3), of "[]"] that(4) by simp
  qed
  have "ws nm (tag_of nm ''::'') s = None"
    using Suc.prems(3) by (simp add: ws_def tag_of_def nomD [OF nm] ends_identifier_def)
  moreover have "show_segment seg \<noteq> []" if "seg \<in> set segments" for seg
    using that Suc.prems(2) segment_start [of seg] by (auto simp: list_all_iff)
  ultimately have "separated_list1 (ws nm (tag_of nm ''::'')) (segment_of nm ?q) (show_qident segments @ s) = Some (s, segments)"
    using ends_after(2) ends_after(3) [OF Suc.prems(3)] Suc.prems(1) sep elem
    by (intro separated_joined(1) [where follow = ends_segment and u = "''::''"]) auto
  then show ?case unfolding qualified_ident_upto.simps start .
qed simp

lemma python_item_qident:
  assumes nm: "nom_documented nm" and q: "segments \<noteq> []" "list_all segment_ok segments" "g = [] \<or> g = ''::''"
    and s: "ends_identifier s"
  shows "python_item nm (CHR ''$'' # g @ show_qident segments @ s) = Some (s, eval_call (g @ show_qident segments))"
proof -
  have "qualified_ident nm (g @ show_qident segments @ s) = Some (s, segments)"
    unfolding qualified_ident_def by (rule qident_read [OF nm q(1,2) s q(3)]) simp
  then have "native_expr nm (CHR ''$'' # g @ show_qident segments @ s) = Some (s, g @ show_qident segments)"
    by (simp add: native_expr_def then_of_def recognize_def tag_of_Cons [OF nm])
  moreover have "python_string nm (CHR ''$'' # t) = None" for t
    by (simp add: python_string_def delimited_def recognize_def then_of_def tag_of_def nomD [OF nm] starts_with_def)
  ultimately show ?thesis by (simp add: python_item_def recognize_def map_of_parser_def)
qed

lemma qualified_ident_name:
  assumes nm: "nom_documented nm" and name: "is_identifier name" and s: "ends_identifier s"
  shows "qualified_ident nm (name @ s) = Some (s, [QIdentSegment name []])"
proof -
  have start: "tag nm ''::'' (name @ s) = None"
    using name by (cases name) (auto simp: nomD [OF nm] starts_with_def is_ascii_alpha_def)
  have "template_params_of nm q (space0 nm s) = None" for q
    using s by (simp add: template_params_of_def then_of_def tag_of_def nomD [OF nm] ends_identifier_def)
  then have seg: "segment_of nm q (name @ s) = Some (s, QIdentSegment name [])" for q
    using ident_takes [OF nm name, of s] s by (simp add: segment_of_def then_of_def ends_identifier_def)
  have "ws nm (tag_of nm ''::'') s = None"
    using s by (simp add: ws_def tag_of_def nomD [OF nm] ends_identifier_def)
  then show ?thesis
    unfolding qualified_ident_def qualified_ident_upto.simps by (simp add: start separated_list1_def seg separated_rest.simps)
qed

lemma python_item_braces:
  assumes nm: "nom_documented nm" and e: "e \<noteq> []" "CHR 0x7D \<notin> set e"
  shows "python_item nm (''${'' @ e @ CHR 0x7D # s) = Some (s, eval_call e)"
proof -
  let ?t = "CHR 0x7B # e @ CHR 0x7D # s"
  have "is_not nm ''}'' (e @ CHR 0x7D # s) = Some (CHR 0x7D # s, e)"
    using e nomD(9) [OF nm, of "''}''" "e @ CHR 0x7D # s"]
    by (auto simp: take_while1_def takeWhile_append dropWhile_append)
  then have "delimited nm ''{'' (is_not nm ''}'') ''}'' ?t = Some (s, e)"
    by (simp add: delimited_def then_of_def map_of_parser_def tag_of_Cons [OF nm])
  moreover have "ident nm ?t = None"
    using nomD(10) [OF nm] by (simp add: ident_def recognize_def then_of_def tag_of_Cons [OF nm] take_while1_def is_ascii_alpha_def)
  then have "qualified_ident nm ?t = None"
    unfolding qualified_ident_def qualified_ident_upto.simps
    by (simp add: nomD [OF nm] starts_with_def separated_list1_def segment_of_def then_of_def)
  ultimately have "native_expr nm (CHR ''$'' # ?t) = Some (s, e)"
    by (simp add: native_expr_def then_of_def recognize_def tag_of_Cons [OF nm])
  moreover have "python_string nm (CHR ''$'' # t) = None" for t
    by (simp add: python_string_def delimited_def recognize_def then_of_def tag_of_def nomD [OF nm] starts_with_def)
  ultimately show ?thesis by (simp add: python_item_def recognize_def map_of_parser_def)
qed

text \<open>
  A name in parentheses is read as a cast, and there is no way back when no operand follows: whatever an
  expression is, the operand parser rejects \<^verbatim>\<open>(foo)\<close>.
\<close>

lemma parenthesized_name_rejected:
  assumes name: "is_identifier name"
  shows "operand ascii_nom expr (''('' @ name @ '')'') = Done None"
proof -
  note nm = ascii_nom_documented
  have no_space: "dropWhile is_space (name @ '')'') = name @ '')''"
    using name by (cases name) (auto simp: is_ascii_alpha_def is_space_def)
  have "qualified_ident ascii_nom (name @ '')'') = Some ('')'', [QIdentSegment name []])"
    by (rule qualified_ident_name [OF nm name])
      (simp add: ends_identifier_def is_ident_char_def is_ascii_alpha_def is_digit_def dec_digit_def is_space_def starts_with_def)
  then have "ws ascii_nom (qualified_ident ascii_nom) (name @ '')'') = Some ('')'', [QIdentSegment name []])"
    by (simp add: ws_def nomD(2) [OF nm] no_space is_space_def)
  moreover have "many0 (ws ascii_nom (one_of ascii_nom ''*&'')) '')'' [] = Some ('')'', [])"
    by (simp add: many0_stop ws_def nomD(2) [OF nm] is_space_def ascii_nom_def)
  ultimately have "cast ascii_nom (''('' @ name @ '')'') = Some ([], name)"
    by (simp add: cast_def delimited_def then_of_def recognize_def map_of_parser_def tag_of_Cons [OF nm])
  then have cast: "ws ascii_nom (cast ascii_nom) (''('' @ name @ '')'') = Some ([], name)"
    by (simp add: ws_def nomD(2) [OF nm] is_space_def)
  have "qualified_ident ascii_nom [] = None"
    unfolding qualified_ident_def qualified_ident_upto.simps
    by (simp add: nomD [OF nm] starts_with_def separated_list1_def segment_of_def then_of_def ident_def recognize_def
        tag_of_def take_while1_def)
  moreover have "numeric_literal ascii_nom [] = None" "boolean_literal ascii_nom [] = None"
    "python_string ascii_nom [] = None" "native_expr ascii_nom [] = None" "tag_of ascii_nom ''('' [] = None"
    by (simp_all add: numeric_literal_def float_literal_def integer_literal_def hex_literal_def binary_literal_def
        octal_literal_def radix_literal_def boolean_literal_def python_string_def native_expr_def delimited_def
        map_of_parser_def recognize_def then_of_def tag_of_def ascii_nom_def take_while1_def starts_with_def)
  ultimately show ?thesis
    unfolding operand_def cast
    by (simp add: then_parser_def ws_parser_def lift_parser_def recognize_def map_of_parser_def nomD(2) [OF nm])
qed

text \<open>The letters \<^verbatim>\<open>not\<close> are taken for the operator also where they begin a longer name.\<close>

lemma not_read_as_prefix:
  assumes "nom_documented nm"
  shows "prefix_operator nm (''not'' @ s) = Done (Some (dropWhile is_space s, ''not'', 3))"
  by (simp add: prefix_operator_def lift_parser_def map_of_parser_def ws_def tag_of_def nomD [OF assms] is_space_def
      starts_with_def)

text \<open>
  Property C18.  Translation of Python expressions.  Whatever the text, \<open>preprocess_python_expr\<close> succeeds, and
  a text without \<open>$\<close> is its own translation.  Otherwise the translation of a text begins with the translation
  of its first item, followed by the translation \<open>out\<close> of the rest \<open>s\<close>: a plain ASCII character stands for itself; a
  quoted string, with escapes, and a raw string are copied as they are, also when they contain \<open>$\<close>; a native
  expression in braces, and a qualified identifier with any nesting of template parameters, written without blanks and
  not continued by the rest, is put, as it is written, between \<^verbatim>\<open>__eval('\<close> and \<^verbatim>\<open>')\<close>.  (There is no escaping, so
  that this is a call on the expression if it has no apostrophe or backslash.)
\<close>

theorem python_expr_translated:
  assumes nm: "nom_documented nm"
  shows "(\<exists>res. preprocess_python_expr nm s = Inr res) \<and>
    (CHR ''$'' \<notin> set s \<longrightarrow> preprocess_python_expr nm s = Inr s) \<and>
    (preprocess_python_expr nm s = Inr out \<longrightarrow>
      (byte c < 128 \<and> \<not> is_quote c \<and> c \<noteq> CHR ''$'' \<and> (c \<noteq> CHR ''r'' \<or> s = [] \<or> \<not> is_quote (hd s)) \<longrightarrow>
        preprocess_python_expr nm (c # s) = Inr (c # out)) \<and>
      (is_quote q \<and> string_chars q body \<longrightarrow>
        preprocess_python_expr nm (q # body @ q # s) = Inr (q # body @ q # out)) \<and>
      (is_quote q \<and> raw \<noteq> [] \<and> q \<notin> set raw \<longrightarrow>
        preprocess_python_expr nm (CHR ''r'' # q # raw @ q # s) = Inr (CHR ''r'' # q # raw @ q # out)) \<and>
      (e \<noteq> [] \<and> CHR 0x7D \<notin> set e \<longrightarrow>
        preprocess_python_expr nm (''${'' @ e @ CHR 0x7D # s) =
          Inr (''__eval('' @ [CHR 0x27] @ e @ [CHR 0x27] @ '')'' @ out)) \<and>
      (segments \<noteq> [] \<and> list_all segment_ok segments \<and> (g = [] \<or> g = ''::'') \<and> ends_identifier s \<longrightarrow>
        preprocess_python_expr nm (CHR ''$'' # g @ show_qident segments @ s) =
          Inr (''__eval('' @ [CHR 0x27] @ g @ show_qident segments @ [CHR 0x27] @ '')'' @ out)))"
proof -
  note step = python_expr_step [OF nm]
  show ?thesis
  proof (intro conjI impI; (elim conjE)?)
    show "\<exists>res. preprocess_python_expr nm s = Inr res" by (rule python_expr_total [OF nm])
    show "CHR ''$'' \<notin> set s \<Longrightarrow> preprocess_python_expr nm s = Inr s" by (rule python_expr_no_dollar [OF nm])
    assume out: "preprocess_python_expr nm s = Inr out"
    show "preprocess_python_expr nm (c # s) = Inr (c # out)"
      if "byte c < 128" "\<not> is_quote c" "c \<noteq> CHR ''$''" "c \<noteq> CHR ''r'' \<or> s = [] \<or> \<not> is_quote (hd s)"
      using step [OF python_item_plain [OF nm that(1-3)] out] that(4) by auto
    show "preprocess_python_expr nm (q # body @ q # s) = Inr (q # body @ q # out)" if "is_quote q" "string_chars q body"
      using step [OF python_item_quoted [OF nm that] out] by simp
    show "preprocess_python_expr nm (CHR ''r'' # q # raw @ q # s) = Inr (CHR ''r'' # q # raw @ q # out)"
      if "is_quote q" "raw \<noteq> []" "q \<notin> set raw"
      using step [OF python_item_raw [OF nm that] out] by simp
    show "preprocess_python_expr nm (''${'' @ e @ CHR 0x7D # s) = Inr (''__eval('' @ [CHR 0x27] @ e @ [CHR 0x27] @ '')'' @ out)"
      if "e \<noteq> []" "CHR 0x7D \<notin> set e"
      using step [OF python_item_braces [OF nm that] out] by (simp add: eval_call_def)
    show "preprocess_python_expr nm (CHR ''$'' # g @ show_qident segments @ s) =
        Inr (''__eval('' @ [CHR 0x27] @ g @ show_qident segments @ [CHR 0x27] @ '')'' @ out)"
      if "segments \<noteq> []" "list_all segment_ok segments" "g = [] \<or> g = ''::''" "ends_identifier s"
      using step [OF python_item_qident [OF nm that] out] by (simp add: eval_call_def)
  qed
qed

text \<open>The translation of \<^verbatim>\<open>"$x" + $std::vec<u8,4> + ${y - 1}\<close>.\<close>

theorem python_expr_translated_witness:
  "preprocess_python_expr ascii_nom (CHR 0x22 # ''$x'' @ CHR 0x22 # '' + $std::vec<u8,4> + ${y - 1}'') =
     Inr (CHR 0x22 # ''$x'' @ CHR 0x22 # '' + __eval('' @ [CHR 0x27] @ ''std::vec<u8,4>'' @ [CHR 0x27] @ '') + __eval('' @ [CHR 0x27] @ ''y - 1'' @ [CHR 0x27] @ '')'')"
proof -
  let ?vec = "[QIdentSegment ''std'' [], QIdentSegment ''vec'' [QIdent [QIdentSegment ''u8'' []], Other ''4'']]"
  let ?tr = "preprocess_python_expr ascii_nom"
  have shown: "show_qident ?vec = ''std::vec<u8,4>''" by simp
  have trim4: "trim ''4'' = ''4''" by code_simp
  have ok: "list_all segment_ok ?vec"
    by (simp add: other_param_def trim4 is_ascii_alpha_def is_ident_char_def is_digit_def dec_digit_def is_space_def)
  note t = python_expr_translated [OF ascii_nom_documented, THEN conjunct2, THEN conjunct2, rule_format]
  have b: "?tr ('' + '' @ s) = Inr ('' + '' @ res)" if "?tr s = Inr res" for s res
  proof -
    have c: "?tr (c # u) = Inr (c # v)" if "?tr u = Inr v" "c = CHR '' '' \<or> c = CHR ''+''" for c u v
      using t [OF that(1), THEN conjunct1, rule_format, of c] that(2) by (auto simp: is_quote_def)
    show ?thesis using c [OF c [OF c [OF that, of "CHR '' ''"], of "CHR ''+''"], of "CHR '' ''"] by simp
  qed
  obtain e where e: "e = ''__eval('' @ [CHR 0x27] @ ''y - 1'' @ [CHR 0x27] @ '')''" by blast
  obtain u where u: "u = ''${'' @ ''y - 1'' @ [CHR 0x7D]" by blast
  have a: "?tr u = Inr e"
    using t [OF python_expr_Nil [OF ascii_nom_documented], THEN conjunct2, THEN conjunct2, THEN conjunct2, THEN conjunct1,
        rule_format, of "''y - 1''"] by (simp add: u e)
  have ends: "ends_identifier ('' + '' @ u)"
    by (simp add: ends_identifier_def is_ident_char_def is_ascii_alpha_def is_space_def is_digit_def dec_digit_def starts_with_def)
  obtain w where w: "w = ''std::vec<u8,4>''" by blast
  have d: "?tr (CHR ''$'' # w @ '' + '' @ u) = Inr (''__eval('' @ [CHR 0x27] @ w @ [CHR 0x27] @ '')'' @ '' + '' @ e)"
    using t [OF b [OF a], THEN conjunct2, THEN conjunct2, THEN conjunct2, THEN conjunct2, rule_format, of ?vec "[]"] ok ends
    unfolding shown w [symmetric] by simp
  have "?tr (CHR 0x22 # ''$x'' @ CHR 0x22 # '' + '' @ CHR ''$'' # w @ '' + '' @ u) =
      Inr (CHR 0x22 # ''$x'' @ CHR 0x22 # '' + '' @ ''__eval('' @ [CHR 0x27] @ w @ [CHR 0x27] @ '')'' @ '' + '' @ e)"
    using t [OF b [OF d], THEN conjunct2, THEN conjunct1, rule_format, of "CHR 0x22" "''$x''"] by (simp add: is_quote_def)
  then show ?thesis by (simp add: u e w)
qed

end
