(* ===== verification/Debugger_Api.thy ===== *)
theory Debugger_Api
  imports Lldb_Api Messages Expressions Disassembly
begin

text \<open>
  The rest of the interface to LLDB and to the other libraries: processes and threads, stack frames,
  values, modules, breakpoints, the command interpreter and the Python interpreter.  As in
  \<open>Lldb_Api\<close> they are parameters of the model, records of functions over the unknown state of the
  debugger.  The session's target is part of that state, so the functions that the \<^verbatim>\<open>lldb\<close> crate has on
  \<^verbatim>\<open>SBTarget\<close> and \<^verbatim>\<open>SBProcess\<close> take no target.  An error of LLDB is its message.  The enumerations that the
  crate defines itself are datatypes.
\<close>

section \<open>Enumerations\<close>

datatype process_state =
    PsInvalid | PsUnloaded | PsConnected | PsAttaching | PsLaunching | PsStopped | PsRunning
  | PsStepping | PsCrashed | PsDetached | PsExited | PsSuspended

fun is_alive :: "process_state \<Rightarrow> bool" where
  "is_alive st \<longleftrightarrow> st \<in> {PsConnected, PsAttaching, PsLaunching, PsStopped, PsRunning, PsStepping, PsCrashed, PsSuspended}"

fun is_running :: "process_state \<Rightarrow> bool" where
  "is_running st \<longleftrightarrow> st \<in> {PsAttaching, PsLaunching, PsRunning, PsStepping}"

datatype stop_reason =
    SrInvalid | SrNone | SrTrace | SrBreakpoint | SrWatchpoint | SrSignal | SrException | SrExec
  | SrPlanComplete | SrThreadExiting | SrInstrumentation

text \<open>\<^verbatim>\<open>{:?}\<close> of a stop reason.\<close>

fun stop_reason_debug :: "stop_reason \<Rightarrow> string" where
  "stop_reason_debug SrInvalid = ''Invalid''"
| "stop_reason_debug SrNone = ''None''"
| "stop_reason_debug SrTrace = ''Trace''"
| "stop_reason_debug SrBreakpoint = ''Breakpoint''"
| "stop_reason_debug SrWatchpoint = ''Watchpoint''"
| "stop_reason_debug SrSignal = ''Signal''"
| "stop_reason_debug SrException = ''Exception''"
| "stop_reason_debug SrExec = ''Exec''"
| "stop_reason_debug SrPlanComplete = ''PlanComplete''"
| "stop_reason_debug SrThreadExiting = ''ThreadExiting''"
| "stop_reason_debug SrInstrumentation = ''Instrumentation''"

datatype run_mode = OnlyThisThread | AllThreads | OnlyDuringStepping

datatype value_type =
    VtInvalid | VtVariableGlobal | VtVariableStatic | VtVariableArgument | VtVariableLocal
  | VtRegister | VtRegisterSet | VtConstResult | VtVariableThreadLocal

datatype basic_type =
    BtInvalid | BtVoid | BtChar | BtSignedChar | BtUnsignedChar | BtWChar | BtSignedWChar
  | BtUnsignedWChar | BtChar16 | BtChar32 | BtShort | BtUnsignedShort | BtInt | BtUnsignedInt
  | BtLong | BtUnsignedLong | BtLongLong | BtUnsignedLongLong | BtInt128 | BtUnsignedInt128
  | BtBool | BtHalf | BtFloat | BtDouble | BtLongDouble | BtFloatComplex | BtDoubleComplex
  | BtLongDoubleComplex | BtObjCID | BtObjCClass | BtObjCSel | BtNullPtr | BtOther

datatype language_type = C_plus_plus | Swift

datatype control_flow_kind = CfUnknown | CfOther | CfCall | CfReturn | CfJump | CfCondJump | CfFarCall | CfFarReturn | CfFarJump

datatype eval_context = StatementsContext | PythonExpressionContext | SimpleExpressionContext

text \<open>Flags of a type class that the adapter looks at, and of breakpoint events.\<close>

definition TypeClass_Array :: u32 where "TypeClass_Array = 1"
definition TypeClass_Pointer :: u32 where "TypeClass_Pointer = 4096"
definition TypeClass_Reference :: u32 where "TypeClass_Reference = 8192"

definition BreakpointEvent_Added :: u32 where "BreakpointEvent_Added = 2"
definition BreakpointEvent_Removed :: u32 where "BreakpointEvent_Removed = 4"
definition BreakpointEvent_LocationsAdded :: u32 where "BreakpointEvent_LocationsAdded = 8"
definition BreakpointEvent_LocationsResolved :: u32 where "BreakpointEvent_LocationsResolved = 32"

definition Process_StateChanged :: u32 where "Process_StateChanged = 1"
definition Process_STDOUT :: u32 where "Process_STDOUT = 4"
definition Process_STDERR :: u32 where "Process_STDERR = 8"
definition Target_ModulesLoaded :: u32 where "Target_ModulesLoaded = 2"
definition Target_ModulesUnloaded :: u32 where "Target_ModulesUnloaded = 4"
definition Target_SymbolsLoaded :: u32 where "Target_SymbolsLoaded = 16"
definition Thread_SelectedFrameChanged :: u32 where "Thread_SelectedFrameChanged = 8"

unbundle bit_operations_syntax

definition intersects :: "u32 \<Rightarrow> u32 \<Rightarrow> bool" where
  "intersects a b \<longleftrightarrow> a AND b \<noteq> 0"

section \<open>Objects\<close>

datatype sbtype = SBType nat
datatype sbfunction = SBFunction nat
datatype sbcompileunit = SBCompileUnit nat
datatype sbsection = SBSection nat
datatype sbtarget = SBTarget nat
datatype sblaunchinfo = SBLaunchInfo nat
datatype sbattachinfo = SBAttachInfo nat
datatype sbenvironment = SBEnvironment nat
datatype pyobject = PyObject nat

type_synonym 'l op = "'l \<Rightarrow> (string + unit) \<times> 'l"

record memory_region =
  region_readable :: bool
  region_writable :: bool
  region_end :: address

record command_result =
  cmd_succeeded :: bool
  cmd_output :: string
  cmd_error :: string

section \<open>Processes and threads\<close>

record 'l process_api =
  process_is_valid :: "'l \<Rightarrow> bool"
  process_get_state :: "'l \<Rightarrow> process_state"
  process_stop :: "'l op"
  process_resume :: "'l op"
  process_kill :: "'l op"
  process_detach :: "bool \<Rightarrow> 'l op"
  process_signal :: "int \<Rightarrow> 'l op"
  signals_are_valid :: "'l \<Rightarrow> bool"
  signal_number_from_name :: "'l \<Rightarrow> string \<Rightarrow> int option"
  signal_set_should_suppress :: "'l \<Rightarrow> int \<Rightarrow> bool \<Rightarrow> 'l"
  signal_set_should_stop :: "'l \<Rightarrow> int \<Rightarrow> bool \<Rightarrow> 'l"
  signal_set_should_notify :: "'l \<Rightarrow> int \<Rightarrow> bool \<Rightarrow> 'l"
  sleep_100ms :: "'l \<Rightarrow> 'l"
  process_exit_status :: "'l \<Rightarrow> int"
  process_id :: "'l \<Rightarrow> u64"
  process_threads :: "'l \<Rightarrow> sbthread list"
  process_thread_at_index :: "'l \<Rightarrow> u32 \<Rightarrow> sbthread"
  process_thread_by_id :: "'l \<Rightarrow> u64 \<Rightarrow> sbthread option"
  process_selected_thread :: "'l \<Rightarrow> sbthread"
  process_set_selected_thread :: "'l \<Rightarrow> sbthread \<Rightarrow> 'l"
  process_read_stdout :: "'l \<Rightarrow> nat \<Rightarrow> string \<times> 'l"
  process_read_stderr :: "'l \<Rightarrow> nat \<Rightarrow> string \<times> 'l"
  process_memory_region :: "'l \<Rightarrow> address \<Rightarrow> string + memory_region"
  process_write_memory :: "'l \<Rightarrow> address \<Rightarrow> u8 list \<Rightarrow> (string + nat) \<times> 'l"
  process_stop_restarted :: "'l \<Rightarrow> bool option"

record 'l thread_api =
  thread_index_id :: "'l \<Rightarrow> sbthread \<Rightarrow> u32"
  thread_get_id :: "'l \<Rightarrow> sbthread \<Rightarrow> u64"
  thread_name :: "'l \<Rightarrow> sbthread \<Rightarrow> string option"
  thread_stop_reason :: "'l \<Rightarrow> sbthread \<Rightarrow> stop_reason"
  thread_stop_description :: "'l \<Rightarrow> sbthread \<Rightarrow> string"
  thread_stop_reason_data :: "'l \<Rightarrow> sbthread \<Rightarrow> u32 \<Rightarrow> u64"
  thread_frame_at_index :: "'l \<Rightarrow> sbthread \<Rightarrow> u32 \<Rightarrow> sbframe"
  thread_frames :: "'l \<Rightarrow> sbthread \<Rightarrow> sbframe list"
  thread_selected_frame :: "'l \<Rightarrow> sbthread \<Rightarrow> sbframe"
  thread_stop_return_value :: "'l \<Rightarrow> sbthread \<Rightarrow> sbvalue option"
  thread_step_instruction :: "sbthread \<Rightarrow> bool \<Rightarrow> 'l op"
  thread_step_over :: "sbthread \<Rightarrow> run_mode \<Rightarrow> 'l op"
  thread_step_into :: "sbthread \<Rightarrow> run_mode \<Rightarrow> 'l op"
  thread_step_out :: "sbthread \<Rightarrow> 'l op"
  thread_jump_to_line :: "sbthread \<Rightarrow> string \<Rightarrow> u32 \<Rightarrow> 'l op"
  thread_return_from_frame :: "sbthread \<Rightarrow> sbframe \<Rightarrow> 'l op"

section \<open>Stack frames\<close>

record variable_options =
  vo_arguments :: bool
  vo_locals :: bool
  vo_statics :: bool
  vo_in_scope_only :: bool

record 'l frame_api =
  frame_is_valid :: "'l \<Rightarrow> sbframe \<Rightarrow> bool"
  frame_pc :: "'l \<Rightarrow> sbframe \<Rightarrow> address"
  frame_pc_address :: "'l \<Rightarrow> sbframe \<Rightarrow> sbaddress"
  frame_set_pc :: "'l \<Rightarrow> sbframe \<Rightarrow> address \<Rightarrow> bool \<times> 'l"
  frame_function_name :: "'l \<Rightarrow> sbframe \<Rightarrow> string option"
  frame_function :: "'l \<Rightarrow> sbframe \<Rightarrow> sbfunction"
  frame_module :: "'l \<Rightarrow> sbframe \<Rightarrow> sbmodule"
  frame_line_entry :: "'l \<Rightarrow> sbframe \<Rightarrow> sblineentry option"
  frame_compile_unit :: "'l \<Rightarrow> sbframe \<Rightarrow> sbcompileunit option"
  frame_thread :: "'l \<Rightarrow> sbframe \<Rightarrow> sbthread"
  frame_find_variable :: "'l \<Rightarrow> sbframe \<Rightarrow> string \<Rightarrow> sbvalue option"
  frame_find_value :: "'l \<Rightarrow> sbframe \<Rightarrow> string \<Rightarrow> value_type \<Rightarrow> sbvalue option"
  frame_variables :: "'l \<Rightarrow> sbframe \<Rightarrow> variable_options \<Rightarrow> sbvalue list"
  frame_registers :: "'l \<Rightarrow> sbframe \<Rightarrow> sbvalue list"
  frame_evaluate_expression :: "'l \<Rightarrow> sbframe \<Rightarrow> string \<Rightarrow> sbvalue \<times> 'l"
  target_evaluate_expression :: "'l \<Rightarrow> string \<Rightarrow> sbvalue \<times> 'l"
  function_is_valid :: "'l \<Rightarrow> sbfunction \<Rightarrow> bool"
  function_start_address :: "'l \<Rightarrow> sbfunction \<Rightarrow> sbaddress"
  function_display_name :: "'l \<Rightarrow> sbfunction \<Rightarrow> string"
  unit_line_entries :: "'l \<Rightarrow> sbcompileunit \<Rightarrow> sblineentry list"
  line_entry_start_address :: "'l \<Rightarrow> sblineentry \<Rightarrow> sbaddress"
  line_entry_end_address :: "'l \<Rightarrow> sblineentry \<Rightarrow> sbaddress"
  instr_control_flow_kind :: "'l \<Rightarrow> sbinstruction \<Rightarrow> control_flow_kind"
  instr_is_valid :: "'l \<Rightarrow> sbinstruction \<Rightarrow> bool"
  no_instruction :: sbinstruction
  addr_function :: "'l \<Rightarrow> sbaddress \<Rightarrow> sbfunction option"
  addr_add_offset :: "'l \<Rightarrow> sbaddress \<Rightarrow> u64 \<Rightarrow> sbaddress"
  target_read_memory :: "'l \<Rightarrow> sbaddress \<Rightarrow> nat \<Rightarrow> string + u8 list"

section \<open>Values\<close>

record 'l value_api =
  value_is_valid :: "'l \<Rightarrow> sbvalue \<Rightarrow> bool"
  value_error :: "'l \<Rightarrow> sbvalue \<Rightarrow> string option"
  value_name :: "'l \<Rightarrow> sbvalue \<Rightarrow> string option"
  value_type_name :: "'l \<Rightarrow> sbvalue \<Rightarrow> string option"
  value_display_type_name :: "'l \<Rightarrow> sbvalue \<Rightarrow> string option"
  value_get_type :: "'l \<Rightarrow> sbvalue \<Rightarrow> sbtype"
  value_value_type :: "'l \<Rightarrow> sbvalue \<Rightarrow> value_type"
  value_format :: "'l \<Rightarrow> sbvalue \<Rightarrow> format"
  value_set_format :: "'l \<Rightarrow> sbvalue \<Rightarrow> format \<Rightarrow> 'l"
  value_summary :: "'l \<Rightarrow> sbvalue \<Rightarrow> string option"
  value_value :: "'l \<Rightarrow> sbvalue \<Rightarrow> string option"
  value_might_have_children :: "'l \<Rightarrow> sbvalue \<Rightarrow> bool"
  value_num_children :: "'l \<Rightarrow> sbvalue \<Rightarrow> u32"
  value_children :: "'l \<Rightarrow> sbvalue \<Rightarrow> sbvalue list"
  value_is_synthetic :: "'l \<Rightarrow> sbvalue \<Rightarrow> bool"
  value_prefer_synthetic :: "'l \<Rightarrow> sbvalue \<Rightarrow> bool"
  value_non_synthetic :: "'l \<Rightarrow> sbvalue \<Rightarrow> sbvalue"
  value_expression_path :: "'l \<Rightarrow> sbvalue \<Rightarrow> string option"
  value_load_address :: "'l \<Rightarrow> sbvalue \<Rightarrow> address"
  value_address :: "'l \<Rightarrow> sbvalue \<Rightarrow> sbaddress option"
  value_byte_size :: "'l \<Rightarrow> sbvalue \<Rightarrow> nat"
  value_data_size :: "'l \<Rightarrow> sbvalue \<Rightarrow> nat"
  value_as_unsigned :: "'l \<Rightarrow> sbvalue \<Rightarrow> u64 \<Rightarrow> u64"
  value_dereference :: "'l \<Rightarrow> sbvalue \<Rightarrow> sbvalue"
  value_child_with_name :: "'l \<Rightarrow> sbvalue \<Rightarrow> string \<Rightarrow> sbvalue option"
  value_set_value :: "sbvalue \<Rightarrow> string \<Rightarrow> 'l op"
  create_value_from_address :: "'l \<Rightarrow> string \<Rightarrow> sbaddress \<Rightarrow> sbtype \<Rightarrow> sbvalue \<times> 'l"

record 'l type_api =
  type_basic_type :: "'l \<Rightarrow> sbtype \<Rightarrow> basic_type"
  type_class_flags :: "'l \<Rightarrow> sbtype \<Rightarrow> u32"
  type_is_pointer :: "'l \<Rightarrow> sbtype \<Rightarrow> bool"
  type_pointee :: "'l \<Rightarrow> sbtype \<Rightarrow> sbtype"
  type_array_element :: "'l \<Rightarrow> sbtype \<Rightarrow> sbtype"
  type_array_of :: "'l \<Rightarrow> sbtype \<Rightarrow> u64 \<Rightarrow> sbtype"

section \<open>Modules\<close>

record 'l module_api =
  target_modules :: "'l \<Rightarrow> sbmodule list"
  target_num_modules :: "'l \<Rightarrow> u32"
  target_module_at_index :: "'l \<Rightarrow> u32 \<Rightarrow> sbmodule"
  target_address_byte_size :: "'l \<Rightarrow> nat"
  module_is_valid :: "'l \<Rightarrow> sbmodule \<Rightarrow> bool"
  module_object_header_address :: "'l \<Rightarrow> sbmodule \<Rightarrow> sbaddress"
  module_file_spec :: "'l \<Rightarrow> sbmodule \<Rightarrow> sbfilespec"
  module_symbol_file_spec :: "'l \<Rightarrow> sbmodule \<Rightarrow> sbfilespec"
  module_get_version :: "'l \<Rightarrow> sbmodule \<Rightarrow> u32 list"
  module_sections :: "'l \<Rightarrow> sbmodule \<Rightarrow> sbsection list"
  module_num_compile_units :: "'l \<Rightarrow> sbmodule \<Rightarrow> u32"
  module_num_symbols :: "'l \<Rightarrow> sbmodule \<Rightarrow> u32"
  module_symbols :: "'l \<Rightarrow> sbmodule \<Rightarrow> sbsymbol list"
  section_load_address :: "'l \<Rightarrow> sbsection \<Rightarrow> address"
  section_byte_size :: "'l \<Rightarrow> sbsection \<Rightarrow> nat"
  symbol_type_debug :: "'l \<Rightarrow> sbsymbol \<Rightarrow> string"
  symbol_size :: "'l \<Rightarrow> sbsymbol \<Rightarrow> u64"
  addr_is_valid :: "'l \<Rightarrow> sbaddress \<Rightarrow> bool"
  addr_module :: "'l \<Rightarrow> sbaddress \<Rightarrow> sbmodule option"
  addr_file_address :: "'l \<Rightarrow> sbaddress \<Rightarrow> address"

section \<open>Breakpoints\<close>

record 'l breakpoint_api =
  find_breakpoint_by_id :: "'l \<Rightarrow> u32 \<Rightarrow> sbbreakpoint option"
  breakpoint_create_by_location :: "'l \<Rightarrow> string \<Rightarrow> u32 \<Rightarrow> u32 option \<Rightarrow> sbbreakpoint \<times> 'l"
  breakpoint_create_by_load_address :: "'l \<Rightarrow> address \<Rightarrow> sbbreakpoint \<times> 'l"
  breakpoint_create_by_name :: "'l \<Rightarrow> string \<Rightarrow> sbbreakpoint \<times> 'l"
  breakpoint_create_by_regex :: "'l \<Rightarrow> string \<Rightarrow> sbbreakpoint \<times> 'l"
  breakpoint_create_for_exception :: "'l \<Rightarrow> language_type \<Rightarrow> bool \<Rightarrow> bool \<Rightarrow> sbbreakpoint \<times> 'l"
  breakpoint_delete :: "'l \<Rightarrow> u32 \<Rightarrow> 'l"
  sbbp_id :: "'l \<Rightarrow> sbbreakpoint \<Rightarrow> u32"
  sbbp_is_valid :: "'l \<Rightarrow> sbbreakpoint \<Rightarrow> bool"
  sbbp_num_locations :: "'l \<Rightarrow> sbbreakpoint \<Rightarrow> u32"
  sbbp_num_resolved_locations :: "'l \<Rightarrow> sbbreakpoint \<Rightarrow> u32"
  sbbp_location_address :: "'l \<Rightarrow> sbbreakpoint \<Rightarrow> u32 \<Rightarrow> sbaddress"
  sbbp_location_addresses :: "'l \<Rightarrow> sbbreakpoint \<Rightarrow> sbaddress list"
  sbbp_add_name :: "'l \<Rightarrow> sbbreakpoint \<Rightarrow> string \<Rightarrow> 'l"
  sbbp_set_condition :: "'l \<Rightarrow> sbbreakpoint \<Rightarrow> string \<Rightarrow> 'l"
  sbbp_set_callback :: "'l \<Rightarrow> sbbreakpoint \<Rightarrow> bool \<Rightarrow> 'l"
  watch_address :: "'l \<Rightarrow> address \<Rightarrow> nat \<Rightarrow> bool \<Rightarrow> bool \<Rightarrow> (string + u32) \<times> 'l"
  delete_all_watchpoints :: "'l \<Rightarrow> 'l"

section \<open>The interpreters, and other libraries\<close>

record 'l command_api =
  handle_command :: "'l \<Rightarrow> string \<Rightarrow> command_result \<times> 'l"
  handle_command_with_context :: "'l \<Rightarrow> string \<Rightarrow> sbframe \<Rightarrow> command_result \<times> 'l"
  set_immediate_output_file :: "'l op"
  interpreter_completions :: "'l \<Rightarrow> string \<Rightarrow> u32 \<Rightarrow> string list option"
  set_async_mode :: "'l \<Rightarrow> bool \<Rightarrow> 'l"
  lldb_has_v15 :: bool
  resolve_v16 :: "string + unit"

record 'l python_api =
  compile_code :: "'l \<Rightarrow> string \<Rightarrow> string \<Rightarrow> (string + pyobject) \<times> 'l"
  py_evaluate :: "'l \<Rightarrow> pyobject \<Rightarrow> sbframe option \<Rightarrow> eval_context \<Rightarrow> (string + sbvalue) \<times> 'l"
  py_evaluate_as_bool :: "'l \<Rightarrow> pyobject \<Rightarrow> sbframe \<Rightarrow> eval_context \<Rightarrow> (string + bool) \<times> 'l"
  py_handle_message :: "'l \<Rightarrow> json \<Rightarrow> 'l"
  py_update_adapter_settings :: "'l \<Rightarrow> adapter_settings \<Rightarrow> 'l"
  py_init_lang_support :: "'l \<Rightarrow> 'l"

text \<open>
  \<^verbatim>\<open>parse_int::parse\<close> reads decimal, hexadecimal, octal and binary numbers; \<^verbatim>\<open>BASE64_STANDARD\<close> is the codec
  of the \<^verbatim>\<open>base64\<close> crate; the fuzzy matcher is \<^verbatim>\<open>ClangdMatcher\<close>; the last three are what \<^verbatim>\<open>serde_json\<close> has to say
  against a value as the arguments of a launch, an attach and a restart.
\<close>

record libraries =
  parse_int_u64 :: "string \<Rightarrow> string + u64"
  parse_int_i64 :: "string \<Rightarrow> string + int"
  base64_encode :: "u8 list \<Rightarrow> string"
  base64_decode :: "string \<Rightarrow> string + u8 list"
  fuzzy_match :: "string \<Rightarrow> string \<Rightarrow> bool"
  char_is_alphabetic :: "string \<Rightarrow> bool"
  adapter_data_from_json :: "json \<Rightarrow> string + adapter_data"
  adapter_data_to_json :: "adapter_data \<Rightarrow> json"
  launch_args_error :: "json \<Rightarrow> string option"
  attach_args_error :: "json \<Rightarrow> string option"
  restart_args_error :: "json \<Rightarrow> string option"

text \<open>
  Targets, and launching and attaching.  The session's own target is part of the debugger's state.
  Environments, launch and attach information are plain values.  The last group is the operating
  system: the file named by \<^verbatim>\<open>envFile\<close> as the \<^verbatim>\<open>dotenvy\<close> crate reads it, the current directory, the path of
  the running executable, the address of a fresh listening socket, what the terminal agent that
  connects to it reports, and whether \<^verbatim>\<open>personality\<close> refuses to disable address space randomization.
\<close>

record 'l launch_api =
  debugger_set_variable :: "string \<Rightarrow> string \<Rightarrow> 'l op"
  debugger_get_variable :: "'l \<Rightarrow> string \<Rightarrow> string option"
  debugger_create_target :: "string option \<Rightarrow> 'l \<Rightarrow> (string + sbtarget) \<times> 'l"
  debugger_selected_target :: "'l \<Rightarrow> sbtarget"
  sbtarget_is_valid :: "'l \<Rightarrow> sbtarget \<Rightarrow> bool"
  session_target :: "'l \<Rightarrow> sbtarget"
  set_session_target :: "'l \<Rightarrow> sbtarget \<Rightarrow> 'l"
  listen_to_target :: "'l \<Rightarrow> bool \<Rightarrow> 'l"
  target_executable :: "'l \<Rightarrow> sbfilespec"
  filespec_debug :: "'l \<Rightarrow> sbfilespec \<Rightarrow> string"
  platform_triple :: "'l \<Rightarrow> string"
  platform_name :: "'l \<Rightarrow> string"
  platform_environment :: "'l \<Rightarrow> sbenvironment"
  platform_file_permissions :: "'l \<Rightarrow> string \<Rightarrow> u32"
  environment_new :: sbenvironment
  environment_set :: "sbenvironment \<Rightarrow> string \<Rightarrow> string \<Rightarrow> sbenvironment"
  target_launch_info :: "'l \<Rightarrow> sblaunchinfo"
  target_set_launch_info :: "'l \<Rightarrow> sblaunchinfo \<Rightarrow> 'l"
  info_set_environment :: "sblaunchinfo \<Rightarrow> sbenvironment \<Rightarrow> sblaunchinfo"
  info_set_arguments :: "sblaunchinfo \<Rightarrow> string list \<Rightarrow> sblaunchinfo"
  info_arguments :: "sblaunchinfo \<Rightarrow> string list"
  info_set_working_directory :: "sblaunchinfo \<Rightarrow> string \<Rightarrow> sblaunchinfo"
  info_working_directory :: "sblaunchinfo \<Rightarrow> string option"
  info_flags :: "sblaunchinfo \<Rightarrow> u32"
  info_set_flags :: "sblaunchinfo \<Rightarrow> u32 \<Rightarrow> sblaunchinfo"
  info_add_open_file_action :: "sblaunchinfo \<Rightarrow> nat \<Rightarrow> string \<Rightarrow> bool \<Rightarrow> bool \<Rightarrow> sblaunchinfo"
  target_launch :: "sblaunchinfo \<Rightarrow> 'l op"
  attach_info_new :: sbattachinfo
  attach_set_process_id :: "sbattachinfo \<Rightarrow> u64 \<Rightarrow> sbattachinfo"
  attach_set_executable :: "sbattachinfo \<Rightarrow> string \<Rightarrow> sbattachinfo"
  attach_set_wait_for_launch :: "sbattachinfo \<Rightarrow> bool \<Rightarrow> bool \<Rightarrow> sbattachinfo"
  attach_set_ignore_existing :: "sbattachinfo \<Rightarrow> bool \<Rightarrow> sbattachinfo"
  target_attach :: "sbattachinfo \<Rightarrow> 'l op"
  use_debugger_terminal :: "string \<Rightarrow> 'l \<Rightarrow> 'l exec"
  read_env_file :: "string \<Rightarrow> string + (string + (string \<times> string)) list"
  current_dir :: "string + string"
  current_exe :: "string + string"
  path_exists :: "string \<Rightarrow> bool"
  bind_listener :: "string + string"
  terminal_agent :: "string \<Rightarrow> string + terminal_id option"
  to_uppercase :: "string \<Rightarrow> string"
  aslr_restricted :: "'l \<Rightarrow> bool"

record 'l env =
  dasm :: "'l dasm_api"
  files :: "'l file_api"
  proc :: "'l process_api"
  thr :: "'l thread_api"
  frm :: "'l frame_api"
  val :: "'l value_api"
  typs :: "'l type_api"
  mods :: "'l module_api"
  bps :: "'l breakpoint_api"
  cmds :: "'l command_api"
  pyt :: "'l python_api"
  noms :: nom
  libs :: libraries
  lnch :: "'l launch_api"

end
