(* ===== verification/Rust_Text.thy ===== *)
theory Rust_Text
  imports Rust_Str Fsutil
begin

text \<open>
  Texts as Rust sees them beyond bytes: lossy decoding (\<^verbatim>\<open>String::from_utf8_lossy\<close>), characters of a
  UTF-8 string and their byte offsets, splitting, and the text of a path.
\<close>

section \<open>Lossy decoding\<close>

text \<open>
  The first character of a byte sequence: its length and whether it is well-formed.  If it is not,
  the length is that of the longest part that could begin a well-formed character, at least one byte.
\<close>

definition second_ok :: "char \<Rightarrow> char \<Rightarrow> bool" where
  "second_ok a b =
     (if byte a = 0xE0 then byte_in 0xA0 0xBF b
      else if byte a = 0xED then byte_in 0x80 0x9F b
      else if byte a = 0xF0 then byte_in 0x90 0xBF b
      else if byte a = 0xF4 then byte_in 0x80 0x8F b
      else is_cont b)"

fun utf8_first :: "string \<Rightarrow> nat \<times> bool" where
  "utf8_first [] = (0, True)"
| "utf8_first (a # s) =
    (if byte a < 128 then (1, True)
     else case s of
       [] \<Rightarrow> (1, False)
     | b # s2 \<Rightarrow>
       if byte_in 0xC2 0xDF a then (if is_cont b then (2, True) else (1, False))
       else if \<not> (byte_in 0xE0 0xF4 a \<and> second_ok a b) then (1, False)
       else (case s2 of
         [] \<Rightarrow> (2, False)
       | c # s3 \<Rightarrow>
         if \<not> is_cont c then (2, False)
         else if byte_in 0xE0 0xEF a then (3, True)
         else (case s3 of
           [] \<Rightarrow> (3, False)
         | d # s4 \<Rightarrow> if is_cont d then (4, True) else (3, False))))"

definition replacement_character :: string where
  "replacement_character = [CHR 0xEF, CHR 0xBF, CHR 0xBD]"

lemma utf8_first_pos: "0 < fst (utf8_first (a # s))"
  by (auto split: list.splits)

function utf8_lossy :: "string \<Rightarrow> string" where
  "utf8_lossy s =
     (if s = [] then []
      else let (n, ok) = utf8_first s
           in (if ok then take n s else replacement_character) @ utf8_lossy (drop n s))"
  by pat_completeness auto
termination
proof (relation "measure length", goal_cases)
  case (2 s x n ok)
  then have "0 < n" using utf8_first_pos by (metis fst_conv neq_Nil_conv)
  with 2 show ?case by simp
qed simp

declare utf8_lossy.simps [simp del]

lemma utf8_lossy_Nil [simp]: "utf8_lossy [] = []"
  by (simp add: utf8_lossy.simps)

lemma utf8_valid_first:
  assumes "utf8_valid s" "s \<noteq> []"
  shows "snd (utf8_first s) \<and> utf8_valid (drop (fst (utf8_first s)) s)"
proof -
  obtain a t where s: "s = a # t" using assms(2) by (cases s) auto
  have v: "utf8_valid (a # t)" using assms(1) s by simp
  have three: "byte_in 0xE0 0xF4 a" "second_ok a x \<longleftrightarrow>
      (if byte a = 0xE0 then byte_in 0xA0 0xBF x else if byte a = 0xED then byte_in 0x80 0x9F x else is_cont x)"
    if "byte_in 0xE0 0xEF a" for x
    using that by (auto simp: byte_in_def second_ok_def)
  have four: "byte_in 0xE0 0xF4 a" "second_ok a x \<longleftrightarrow>
      (if byte a = 0xF0 then byte_in 0x90 0xBF x else if byte a = 0xF4 then byte_in 0x80 0x8F x else is_cont x)"
    if "byte_in 0xF0 0xF4 a" for x
    using that by (auto simp: byte_in_def second_ok_def)
  consider (ascii) "byte a < 128" | (two) "\<not> byte a < 128" "byte_in 0xC2 0xDF a"
    | (e) "\<not> byte a < 128" "\<not> byte_in 0xC2 0xDF a" "byte_in 0xE0 0xEF a"
    | (f) "\<not> byte a < 128" "\<not> byte_in 0xC2 0xDF a" "\<not> byte_in 0xE0 0xEF a" by blast
  then show ?thesis
  proof cases
    case ascii
    then show ?thesis using v by (simp add: s)
  next
    case two
    then show ?thesis using v by (cases t) (simp_all add: s)
  next
    case e
    obtain x t2 where t: "t = x # t2" using v e by (cases t) auto
    obtain y t3 where t2: "t2 = y # t3" using v e t by (cases t2) auto
    show ?thesis using v e by (simp add: s t t2 three [OF e(3)])
  next
    case f
    obtain x t2 where t: "t = x # t2" using v f by (cases t) auto
    obtain y t3 where t2: "t2 = y # t3" using v f t by (cases t2) auto
    obtain z t4 where t3: "t3 = z # t4" using v f t t2 by (cases t3) auto
    have F: "byte_in 0xF0 0xF4 a" using v f by (simp add: t t2 t3)
    show ?thesis using v f F by (simp add: s t t2 t3 four [OF F])
  qed
qed

text \<open>Well-formed text is decoded as it is.\<close>

lemma utf8_lossy_valid: "utf8_valid s \<Longrightarrow> utf8_lossy s = s"
proof (induction s rule: length_induct)
  case (1 s)
  show ?case
  proof (cases s)
    case (Cons a t)
    note first = utf8_valid_first [OF 1(2)]
    have "utf8_lossy (drop (fst (utf8_first s)) s) = drop (fst (utf8_first s)) s"
      using first Cons utf8_first_pos [of a t] 1(1) by auto
    then show ?thesis
      using first Cons by (subst utf8_lossy.simps) (auto split: prod.splits)
  qed simp
qed

section \<open>Characters\<close>

definition char_offsets :: "string \<Rightarrow> nat list" where
  "char_offsets s = filter (\<lambda>i. \<not> is_cont (s ! i)) [0..<length s]"

definition chars_count :: "string \<Rightarrow> nat" where
  "chars_count s = length (filter (\<lambda>c. \<not> is_cont c) s)"

text \<open>The bytes of the first character.\<close>

fun first_char :: "string \<Rightarrow> string option" where
  "first_char [] = None"
| "first_char (c # s) = Some (c # takeWhile is_cont s)"

section \<open>Splitting\<close>

fun split_char :: "char \<Rightarrow> string \<Rightarrow> string list" where
  "split_char d [] = [[]]"
| "split_char d (c # s) =
     (if c = d then [] # split_char d s
      else case split_char d s of part # parts \<Rightarrow> (c # part) # parts | [] \<Rightarrow> [[c]])"

lemma split_char_not_Nil [simp]: "split_char d s \<noteq> []"
  by (induction s) (auto split: list.splits)

lemma split_char_none: "d \<notin> set s \<Longrightarrow> split_char d s = [s]"
  by (induction s) (auto split: list.splits)

lemma split_char_append: "d \<notin> set s \<Longrightarrow> split_char d (s @ d # t) = s # split_char d t"
  by (induction s) (auto split: list.splits)

section \<open>The text of a path\<close>

fun component_str :: "path_component \<Rightarrow> string" where
  "component_str (Prefix s) = s"
| "component_str RootDir = ''/''"
| "component_str CurDir = ''.''"
| "component_str ParentDir = ''..''"
| "component_str (Normal s) = s"

fun join_slash :: "string list \<Rightarrow> string" where
  "join_slash [] = []"
| "join_slash [s] = s"
| "join_slash (s # t # ts) = s @ ''/'' @ join_slash (t # ts)"

fun path_str :: "path \<Rightarrow> string" where
  "path_str (RootDir # p) = ''/'' @ join_slash (map component_str p)"
| "path_str (Prefix s # RootDir # p) = s @ ''/'' @ join_slash (map component_str p)"
| "path_str p = join_slash (map component_str p)"

definition file_name :: "path \<Rightarrow> string option" where
  "file_name p = (if p = [] then None else case last p of Normal s \<Rightarrow> Some s | _ \<Rightarrow> None)"

end
