(* ===== verification/Session_State.thy ===== *)
theory Session_State
  imports Debugger_Api Rust_Text Handles Errors Event_Listener
begin

text \<open>
  The state of a debug session, \<^verbatim>\<open>struct DebugSession\<close> of \<^verbatim>\<open>debug_session.rs\<close>, and the small operations
  that every request handler uses: sending events, console messages, looking up threads, mapping
  file names to local paths.

  A handler is an action on the session (type \<open>act\<close> of \<open>Errors\<close>).  The debugger is the unknown
  state \<open>dbg\<close>, which changes only through the functions of the parameter \<open>env\<close>.  What the session hands
  to the DAP session is recorded in \<open>outgoing\<close>, in order, each message with what it found in the queue of the
  dispatcher: how many messages were waiting there, or \<^const>\<open>None\<close> when the dispatcher had ended.  Three things
  happen outside the session's control while a handler runs: the cancellation of the current request, the
  passing of time, and the filling and emptying of the queue by the dispatcher and by other tasks.  The
  fields \<open>cancel_answers\<close>, \<open>clock_answers\<close> and \<open>queue_answers\<close> hold what the next queries of \<^verbatim>\<open>is_cancelled\<close> and
  \<^verbatim>\<open>elapsed\<close> (in nanoseconds) will return and what the next messages will find.
\<close>

section \<open>Asynchronous responses\<close>

text \<open>
  The futures that handlers return in place of a result, each by the point where it waits.  A launch
  and an attach wait for a configuration-done message sent after they subscribed; the number is how many
  had been sent by then.  A launch then may ask for a terminal and wait for its agent to connect to the
  given address, before it completes.  \<^verbatim>\<open>configurationDone\<close> waits until no launch or attach is left.  A result
  that is ready is sent by a task of its own.  The two tasks for the debugger's own terminal are
  spawned with no response to send.
\<close>

datatype (plugins only: size) task =
    AwaitConfigurationDone
  | LaunchTask nat launch_request_arguments
  | CreateTerminal run_in_terminal_kind string launch_request_arguments
  | AwaitTerminal string launch_request_arguments
  | CompleteLaunch launch_request_arguments
  | AttachTask nat attach_request_arguments
  | Ready "task error + response_body"
  | DebuggerTerminalTask string
  | AwaitDebuggerTerminal string

section \<open>State\<close>

datatype container =
    StackFrame sbframe
  | Locals sbframe
  | Statics sbframe
  | Globals sbframe
  | Registers sbframe
  | SBVal sbvalue

datatype breakpoint_kind = KSource | KDisassembly | KInstruction | KFunction | KException string

record breakpoint_info =
  bi_id :: u32
  bi_breakpoint :: sbbreakpoint
  bi_kind :: breakpoint_kind
  bi_condition :: "string option"
  bi_log_message :: "string option"
  bi_hit_condition :: "hit_condition option"
  bi_hit_count :: u32
  bi_exclusions :: "string list"

record breakpoints =
  breakpoint_infos :: "(u32 \<times> breakpoint_info) list"
  source_bps :: "(path \<times> (int \<times> u32) list) list"
  assembly_bps :: "(handle \<times> (int \<times> u32) list) list"
  instruction_bps :: "(address \<times> u32) list"
  function_bps :: "(string \<times> u32) list"

definition breakpoints_new :: breakpoints where
  "breakpoints_new = \<lparr>breakpoint_infos = [], source_bps = [], assembly_bps = [], instruction_bps = [],
     function_bps = []\<rparr>"

record step_in_target_internal =
  target_fn :: sbfunction
  stmt_range :: "address \<times> address"

type_synonym py_condition = "(pyobject \<times> eval_context) option"

text \<open>\<^verbatim>\<open>struct Terminal\<close> of \<^verbatim>\<open>terminal.rs\<close>: whether it is connected to a terminal agent, and the terminal's name.\<close>

record terminal =
  terminal_connection :: bool
  terminal_name :: "terminal_id option"

datatype outgoing =
    OutEvent event_body
  | OutResponse response
  | OutRequest request_arguments

record 'l session =
  dbg :: 'l
  outgoing :: "(outgoing \<times> nat option) list"
  queue_answers :: "nat option list"
  terminal_replies :: "launch_response list"
  cancel_answers :: "bool list"
  clock_answers :: "nat list"
  has_python :: bool
  event_listener :: "unit listener"
  config_done_sent :: nat
  config_done_receivers :: nat
  spawned :: "task list"
  bp_callbacks :: "(u32 \<times> py_condition) list"
  terminate_on_disconnect :: bool
  no_debug :: bool
  bpts :: breakpoints
  var_refs :: "container handle_tree"
  disasm_ranges :: dasm_ranges
  source_map_cache :: "(path \<times> path option) list"
  relative_path_base :: "path must_initialize"
  pre_terminate_commands :: "string list option"
  exit_commands :: "string list option"
  debugger_terminal :: bool
  debuggee_terminal :: "terminal option"
  selected_frame_changed :: bool
  last_goto_request :: "goto_targets_arguments option"
  step_in_targets :: "step_in_target_internal list"
  client_caps :: "initialize_request_arguments must_initialize"
  default_expr_type :: expressions
  global_format :: format
  show_disassembly :: show_disassembly
  deref_pointers :: bool
  console_mode :: console_mode
  suppress_missing_files :: bool
  evaluate_for_hovers :: bool
  command_completions :: bool
  evaluation_timeout :: u64
  source_languages :: "string list"
  breakpoint_mode :: breakpoint_mode
  graceful_shutdown :: "(string, string list) either option"
  summary_timeout :: u64
  max_summary_length :: nat
  max_instr_bytes :: nat

type_synonym ('l, 'a) sact = "('l session, task, 'a) act"

definition session_new :: "'l \<Rightarrow> bool \<Rightarrow> 'l session" where
  "session_new l python = \<lparr>dbg = l, outgoing = [], queue_answers = [], terminal_replies = [], cancel_answers = [], clock_answers = [],
     has_python = python, event_listener = listener_new, config_done_sent = 0,
     config_done_receivers = 0, spawned = [], bp_callbacks = [],
     terminate_on_disconnect = False, no_debug = False, bpts = breakpoints_new, var_refs = ht_new,
     disasm_ranges = ranges_new, source_map_cache = [], relative_path_base = NotInitialized,
     pre_terminate_commands = None, exit_commands = None, debugger_terminal = False, debuggee_terminal = None,
     selected_frame_changed = False, last_goto_request = None, step_in_targets = [],
     client_caps = NotInitialized, default_expr_type = Simple, global_format = FDefault,
     show_disassembly = SdAuto, deref_pointers = True, console_mode = Commands,
     suppress_missing_files = True, evaluate_for_hovers = True, command_completions = True,
     evaluation_timeout = 5000, source_languages = [''cpp''], breakpoint_mode = ModePath,
     graceful_shutdown = None, summary_timeout = 10, max_summary_length = 32, max_instr_bytes = 9\<rparr>"

section \<open>Talking to the debugger and to the client\<close>

definition ask :: "('l \<Rightarrow> 'a) \<Rightarrow> ('l, 'a) sact" where
  "ask q = reads (\<lambda>s. q (dbg s))"

definition run :: "('l \<Rightarrow> 'a \<times> 'l) \<Rightarrow> ('l, 'a) sact" where
  "run f s = (case f (dbg s) of (x, l) \<Rightarrow> Done (Inr x, s\<lparr>dbg := l\<rparr>))"

definition tell :: "('l \<Rightarrow> 'l) \<Rightarrow> ('l, unit) sact" where
  "tell f = modifies (\<lambda>s. s\<lparr>dbg := f (dbg s)\<rparr>)"

text \<open>An operation of LLDB that may fail: \<^verbatim>\<open>op()?\<close> turns the error into a boxed one.\<close>

definition attempt :: "('l \<Rightarrow> (string + 'a) \<times> 'l) \<Rightarrow> ('l, string + 'a) sact" where
  "attempt f = run f"

definition try_op :: "('l \<Rightarrow> (string + 'a) \<times> 'l) \<Rightarrow> ('l, 'a) sact" where
  "try_op f = andThen (run f) (\<lambda>r. case r of Inl e \<Rightarrow> bail (StrError e) | Inr x \<Rightarrow> ret x)"

definition is_cancelled_now :: "('l, bool) sact" where
  "is_cancelled_now s =
     (case cancel_answers s of
        [] \<Rightarrow> Done (Inr False, s)
      | b # bs \<Rightarrow> Done (Inr b, s\<lparr>cancel_answers := bs\<rparr>))"

definition elapsed :: "('l, nat) sact" where
  "elapsed s =
     (case clock_answers s of
        [] \<Rightarrow> Done (Inr 0, s)
      | t # ts \<Rightarrow> Done (Inr t, s\<lparr>clock_answers := ts\<rparr>))"

text \<open>
  The queue of the dispatcher has room for 1000 messages.  \<^verbatim>\<open>try_send\<close> does not wait: a message that finds the queue full,
  or the dispatcher gone, is dropped, and \<^verbatim>\<open>log_errors!\<close> only logs that.  \<^verbatim>\<open>send\<close> waits until there is room.
\<close>

definition queue_capacity :: nat where
  "queue_capacity = 1000"

fun queue_accepts :: "nat option \<Rightarrow> bool" where
  "queue_accepts (Some waiting) \<longleftrightarrow> waiting < queue_capacity"
| "queue_accepts None \<longleftrightarrow> False"

definition next_found :: "nat option list \<Rightarrow> nat option" where
  "next_found answers = (case answers of [] \<Rightarrow> Some 0 | found # _ \<Rightarrow> found)"

definition hand_over :: "outgoing \<Rightarrow> 'l session \<Rightarrow> 'l session" where
  "hand_over m s = s\<lparr>outgoing := outgoing s @ [(m, next_found (queue_answers s))], queue_answers := tl (queue_answers s)\<rparr>"

definition hand_over_waiting :: "outgoing \<Rightarrow> 'l session \<Rightarrow> 'l session" where
  "hand_over_waiting m s = s\<lparr>outgoing := outgoing s @ [(m, map_option (min (queue_capacity - 1)) (next_found (queue_answers s)))],
     queue_answers := tl (queue_answers s)\<rparr>"

text \<open>What was handed over, and what of it got into the queue.\<close>

abbreviation handed_over :: "'l session \<Rightarrow> outgoing list" where
  "handed_over s \<equiv> map fst (outgoing s)"

definition queued_messages :: "(outgoing \<times> nat option) list \<Rightarrow> outgoing list" where
  "queued_messages log = map fst (filter (\<lambda>(_, found). queue_accepts found) log)"

definition send_event :: "event_body \<Rightarrow> ('l, unit) sact" where
  "send_event ev = modifies (hand_over (OutEvent ev))"

definition console_message_impl :: "string option \<Rightarrow> string \<Rightarrow> ('l, unit) sact" where
  "console_message_impl category out =
     send_event (Ev_output (default_output_event_body\<lparr>oe_output := out @ [LF], oe_category := category\<rparr>))"

definition console_message :: "string \<Rightarrow> ('l, unit) sact" where
  "console_message out = console_message_impl (Some ''console'') out"

definition console_error :: "string \<Rightarrow> ('l, unit) sact" where
  "console_error out = console_message_impl (Some ''stderr'') out"

text \<open>\<^verbatim>\<open>log_errors!\<close>: an error is logged and dropped.\<close>

definition log_errors :: "('l, 'a) sact \<Rightarrow> ('l, unit) sact" where
  "log_errors m = onResult m (\<lambda>_. ret ())"

definition with_sync_mode :: "'l env \<Rightarrow> ('l, 'a) sact \<Rightarrow> ('l, 'a) sact" where
  "with_sync_mode E func =
     andThen (tell (\<lambda>l. set_async_mode (cmds E) l False)) (\<lambda>_.
       onResult func (\<lambda>result.
         andThen (tell (\<lambda>l. set_async_mode (cmds E) l True)) (\<lambda>_. lift_result result)))"

section \<open>Shared helpers\<close>

definition thread_by_id :: "'l env \<Rightarrow> int \<Rightarrow> ('l, sbthread) sact" where
  "thread_by_id E thread_id =
     andThen (ask (\<lambda>l. process_thread_by_id (proc E) l (as_u64 thread_id))) (\<lambda>found. case found of
       Some thread \<Rightarrow> ret thread
     | None \<Rightarrow>
         andThen (ask (process_get_state (proc E))) (\<lambda>st.
           if is_running st then bail (blame_nobody (str_error ''Not available while the process is running.''))
           else bail (str_error ''Invalid thread_id.'')))"

definition before_resume :: "('l, unit) sact" where
  "before_resume = modifies (\<lambda>s. s\<lparr>var_refs := reset (var_refs s), selected_frame_changed := False,
     last_goto_request := None, step_in_targets := []\<rparr>)"

definition ensure_absolute_path :: "path \<Rightarrow> ('l, path) sact" where
  "ensure_absolute_path p =
     (if path_is_relative p then
        andThen (reads relative_path_base) (\<lambda>base.
          andThen (lift_exec (mi_deref base)) (\<lambda>b. ret (path_join b p)))
      else ret p)"

definition map_filespec_to_local :: "'l env \<Rightarrow> sbfilespec \<Rightarrow> ('l, path option) sact" where
  "map_filespec_to_local E filespec =
     andThen (ask (\<lambda>l. filespec_is_valid (files E) l filespec)) (\<lambda>valid.
     if \<not> valid then ret None
     else
       andThen (ask (\<lambda>l. filespec_path (files E) l filespec)) (\<lambda>text.
       let source_path = components text in
       andThen (reads (\<lambda>s. hm_get (source_map_cache s) source_path)) (\<lambda>cached. case cached of
         Some mapped_path \<Rightarrow> ret mapped_path
       | None \<Rightarrow>
           andThen (ensure_absolute_path source_path) (\<lambda>absolute.
           let p = normalize_path absolute in
           andThen (reads suppress_missing_files) (\<lambda>suppress.
           let mapped_path =
             (case get_fs_path_case (files E) (path_str p) of
                Some q \<Rightarrow> if path_is_file (files E) q then Some (components q)
                          else if suppress then None else Some p
              | None \<Rightarrow> if suppress then None else Some p) in
           andThen (modifies (\<lambda>s. s\<lparr>source_map_cache := hm_insert source_path mapped_path (source_map_cache s)\<rparr>)) (\<lambda>_.
             ret mapped_path))))))"

definition in_disassembly :: "'l env \<Rightarrow> sbframe \<Rightarrow> ('l, bool) sact" where
  "in_disassembly E frame =
     andThen (reads show_disassembly) (\<lambda>mode. case mode of
       SdAlways \<Rightarrow> ret True
     | SdNever \<Rightarrow> ret False
     | SdAuto \<Rightarrow>
         andThen (ask (\<lambda>l. frame_line_entry (frm E) l frame)) (\<lambda>le. case le of
           Some entry \<Rightarrow>
             andThen (ask (\<lambda>l. line_entry_file_spec (dasm E) l entry)) (\<lambda>fs.
               andThen (map_filespec_to_local E fs) (\<lambda>local. ret (local = None)))
         | None \<Rightarrow> ret True))"

definition create_ref :: "handle option \<Rightarrow> string \<Rightarrow> container \<Rightarrow> ('l, handle) sact" where
  "create_ref parent key c s =
     (case create (var_refs s) parent key c of
        Panic \<Rightarrow> Panic
      | Done (h, t) \<Rightarrow> Done (Inr h, s\<lparr>var_refs := t\<rparr>))"

definition dasm_from_address :: "'l env \<Rightarrow> address \<Rightarrow> ('l, string + dasm_range) sact" where
  "dasm_from_address E addr s =
     (case from_address (dasm E) (dbg s) (disasm_ranges s) addr of
        (r, rs) \<Rightarrow> Done (Inr r, s\<lparr>disasm_ranges := rs\<rparr>))"

section \<open>The outgoing queue\<close>

primrec found_answers :: "nat \<Rightarrow> nat option list \<Rightarrow> nat option list" where
  "found_answers 0 answers = []"
| "found_answers (Suc n) answers = next_found answers # found_answers n (tl answers)"

lemma length_found_answers [simp]: "length (found_answers n answers) = n"
  by (induction n arbitrary: answers) simp_all

lemma queued_messages_append [simp]: "queued_messages (log @ log') = queued_messages log @ queued_messages log'"
  by (simp add: queued_messages_def)

lemma queued_messages_all: "list_all queue_accepts (map snd log) \<Longrightarrow> queued_messages log = map fst log"
  by (induction log) (auto simp: queued_messages_def)

lemma fold_hand_over:
  "fold hand_over ms s = s\<lparr>outgoing := outgoing s @ zip ms (found_answers (length ms) (queue_answers s)),
     queue_answers := drop (length ms) (queue_answers s)\<rparr>"
  by (induction ms arbitrary: s) (simp_all add: hand_over_def drop_Suc)

section \<open>Evaluating actions\<close>

text \<open>How the basic actions continue; these equations run a handler symbolically.\<close>

named_theorems act_step \<open>unconditional evaluation of handlers\<close>

lemma andThen_step [act_step]:
  "andThen (ret x1) f1 s = f1 x1 s"
  "andThen (bail e) f2 s = Done (Inl e, s)"
  "andThen panic f3 s = Panic"
  "andThen (reads g) f4 s = f4 (g s) s"
  "andThen (modifies u) f5 s = f5 () (u s)"
  "andThen (lift_result (Inr x6)) f6 s = f6 x6 s"
  "andThen (lift_result (Inl e)) f7 s = Done (Inl e, s)"
  "andThen (lift_exec (Done x8)) f8 s = f8 x8 s"
  "andThen (lift_exec Panic) f9 s = Panic"
  "andThen (ok_or e10 (Some x10)) f10 s = f10 x10 s"
  "andThen (ok_or e None) f11 s = Done (Inl e, s)"
  by (simp_all add: andThen_def act_eval lift_exec_def ok_or_def)

lemma basic_step [act_step]:
  "ask q s = Done (Inr (q (dbg s)), s)"
  "tell u s = Done (Inr (), s\<lparr>dbg := u (dbg s)\<rparr>)"
  "send_event ev s = Done (Inr (), s\<lparr>outgoing := outgoing s @ [(OutEvent ev, next_found (queue_answers s))],
     queue_answers := tl (queue_answers s)\<rparr>)"
  "before_resume s = Done (Inr (), s\<lparr>var_refs := reset (var_refs s), selected_frame_changed := False,
     last_goto_request := None, step_in_targets := []\<rparr>)"
  by (simp_all add: ask_def tell_def send_event_def hand_over_def before_resume_def act_eval)

lemma andThen_session_step [act_step]:
  "andThen (ask q) f1 s = f1 (q (dbg s)) s"
  "andThen (run g2) f2 s = (case g2 (dbg s) of (x, l) \<Rightarrow> f2 x (s\<lparr>dbg := l\<rparr>))"
  "andThen (tell u) f3 s = f3 () (s\<lparr>dbg := u (dbg s)\<rparr>)"
  "andThen (send_event ev) f4 s = f4 () (s\<lparr>outgoing := outgoing s @ [(OutEvent ev, next_found (queue_answers s))],
     queue_answers := tl (queue_answers s)\<rparr>)"
  "andThen before_resume f5 s = f5 () (s\<lparr>var_refs := reset (var_refs s), selected_frame_changed := False,
     last_goto_request := None, step_in_targets := []\<rparr>)"
  "andThen (try_op g6) f6 s = (case g6 (dbg s) of
     (Inl e, l) \<Rightarrow> Done (Inl (StrError e), s\<lparr>dbg := l\<rparr>) | (Inr x, l) \<Rightarrow> f6 x (s\<lparr>dbg := l\<rparr>))"
  by (simp_all add: andThen_def try_op_def run_def act_simps act_step split: prod.splits sum.splits)

lemma andThen_store_step [act_step]:
  "andThen (dasm_from_address E a) f1 s =
     (case from_address (dasm E) (dbg s) (disasm_ranges s) a of (r, rs) \<Rightarrow> f1 r (s\<lparr>disasm_ranges := rs\<rparr>))"
  "andThen (create_ref p k c) f2 s =
     (case create (var_refs s) p k c of Panic \<Rightarrow> Panic | Done (h, t) \<Rightarrow> f2 h (s\<lparr>var_refs := t\<rparr>))"
  by (simp_all add: andThen_def dasm_from_address_def create_ref_def split: prod.splits exec.splits)

lemma andThen_assoc [act_step]: "andThen (andThen m f) g s = andThen m (\<lambda>x. andThen (f x) g) s"
  by (auto simp: andThen_def split: exec.splits sum.splits prod.splits)

lemma andThen_if [act_step]: "andThen (if b then m else n) f s = (if b then andThen m f s else andThen n f s)"
  by simp

lemma andThen_case [act_step]:
  "andThen (case x of None \<Rightarrow> m | Some y \<Rightarrow> n y) f s = (case x of None \<Rightarrow> andThen m f s | Some y \<Rightarrow> andThen (n y) f s)"
  "andThen (case z of Inl a \<Rightarrow> p a | Inr b \<Rightarrow> q b) f s = (case z of Inl a \<Rightarrow> andThen (p a) f s | Inr b \<Rightarrow> andThen (q b) f s)"
  by (simp_all split: option.splits sum.splits)

lemma onResult_step [act_step]:
  "onResult (ret x) h s = h (Inr x) s"
  "onResult (bail e) h s = h (Inl e) s"
  by (simp_all add: onResult_def act_eval)

lemmas console_defs = console_message_def console_error_def console_message_impl_def

section \<open>What actions keep\<close>

lemma keeps_reads [inv_intros]: "keeps P (ask q)" "keeps P (reads g)"
  by (simp_all add: ask_def keeps_basic)

lemma keeps_oracle:
  "(\<And>s bs. P s \<Longrightarrow> P (s\<lparr>cancel_answers := bs\<rparr>)) \<Longrightarrow> keeps P is_cancelled_now"
  "(\<And>s ts. P s \<Longrightarrow> P (s\<lparr>clock_answers := ts\<rparr>)) \<Longrightarrow> keeps P elapsed"
  by (auto simp: keeps_def is_cancelled_now_def elapsed_def split: list.splits)

lemma keeps_run: "(\<And>s l. P s \<Longrightarrow> P (s\<lparr>dbg := l\<rparr>)) \<Longrightarrow> keeps P (run f)"
  by (auto simp: keeps_def run_def split: prod.splits)

lemma keeps_tell: "(\<And>s l. P s \<Longrightarrow> P (s\<lparr>dbg := l\<rparr>)) \<Longrightarrow> keeps P (tell f)"
  by (simp add: tell_def keeps_modifies)

lemma keeps_try_op: "(\<And>s l. P s \<Longrightarrow> P (s\<lparr>dbg := l\<rparr>)) \<Longrightarrow> keeps P (try_op f)"
  unfolding try_op_def by (intro keeps_andThen keeps_run) (auto split: sum.split intro: keeps_basic)

lemma keeps_send_event: "(\<And>s os qs. P s \<Longrightarrow> P (s\<lparr>outgoing := os, queue_answers := qs\<rparr>)) \<Longrightarrow> keeps P (send_event ev)"
  by (simp add: send_event_def hand_over_def keeps_modifies)

lemma keeps_if [inv_intros]: "(b \<Longrightarrow> keeps P m) \<Longrightarrow> (\<not> b \<Longrightarrow> keeps P n) \<Longrightarrow> keeps P (if b then m else n)"
  by simp

lemma keeps_option [inv_intros]:
  "(x = None \<Longrightarrow> keeps P m) \<Longrightarrow> (\<And>y. x = Some y \<Longrightarrow> keeps P (n y)) \<Longrightarrow> keeps P (case x of None \<Rightarrow> m | Some y \<Rightarrow> n y)"
  by (simp split: option.split)

lemma keeps_sum [inv_intros]:
  "(\<And>a. x = Inl a \<Longrightarrow> keeps P (m a)) \<Longrightarrow> (\<And>b. x = Inr b \<Longrightarrow> keeps P (n b)) \<Longrightarrow>
     keeps P (case x of Inl a \<Rightarrow> m a | Inr b \<Rightarrow> n b)"
  by (simp split: sum.split)

lemma keeps_prod [inv_intros]: "(\<And>a b. x = (a, b) \<Longrightarrow> keeps P (m a b)) \<Longrightarrow> keeps P (case x of (a, b) \<Rightarrow> m a b)"
  by (simp split: prod.split)

lemma keeps_let [inv_intros]: "keeps P (f x) \<Longrightarrow> keeps P (let y = x in f y)"
  by simp

end
