(* ===== verification/Stub_Env.thy ===== *)
theory Stub_Env
  imports Session_State
begin

text \<open>
  A debugger that knows nothing: every query has a fixed answer and every operation succeeds without an
  effect.  Concrete examples start from it and replace the functions they need.
\<close>

definition stub_dasm :: "'l dasm_api" where
  "stub_dasm = \<lparr>
     from_load_address = (\<lambda>l _. (SBAddress 0)), load_address = (\<lambda>l _. 0),
     addr_symbol = (\<lambda>l _. None), addr_line_entry = (\<lambda>l _. None),
     symbol_start_address = (\<lambda>l _. (SBAddress 0)),
     symbol_end_address = (\<lambda>l _. (SBAddress 0)), symbol_instructions = (\<lambda>l _. []),
     symbol_name = (\<lambda>l _. []), symbol_display_name = (\<lambda>l _. []),
     symbol_mangled_name = (\<lambda>l _. []), disassembly_flavor = (\<lambda>l. None),
     target_triple = (\<lambda>l. []), read_instructions = (\<lambda>l _ _ _. []),
     get_instructions = (\<lambda>l _ _ _. []), instr_address = (\<lambda>l _. (SBAddress 0)),
     instr_byte_size = (\<lambda>l _. 0), instr_mnemonic = (\<lambda>l _. []),
     instr_operands = (\<lambda>l _. []), instr_comment = (\<lambda>l _. []),
     instr_raw_data = (\<lambda>l _. None), process_read_memory = (\<lambda>l _ _. (Inr [])),
     line_entry_line = (\<lambda>l _. 0), line_entry_column = (\<lambda>l _. 0),
     line_entry_file_spec = (\<lambda>l _. (SBFileSpec 0))\<rparr>"

definition stub_file_api :: "'l file_api" where
  "stub_file_api = \<lparr>
     filespec_is_valid = (\<lambda>l _. True), filespec_path = (\<lambda>l _. []),
     filespec_filename = (\<lambda>l _. []), get_fs_path_case = (\<lambda>_. None),
     path_is_file = (\<lambda>_. True)\<rparr>"

definition stub_process_api :: "'l process_api" where
  "stub_process_api = \<lparr>
     process_is_valid = (\<lambda>l. True), process_get_state = (\<lambda>l. PsStopped),
     process_stop = (\<lambda>l. ((Inr ()), l)), process_resume = (\<lambda>l. ((Inr ()), l)),
     process_kill = (\<lambda>l. ((Inr ()), l)), process_detach = (\<lambda>_ l. ((Inr ()), l)),
     process_signal = (\<lambda>_ l. ((Inr ()), l)), signals_are_valid = (\<lambda>l. True),
     signal_number_from_name = (\<lambda>l _. None), signal_set_should_suppress = (\<lambda>l _ _. l),
     signal_set_should_stop = (\<lambda>l _ _. l), signal_set_should_notify = (\<lambda>l _ _. l), sleep_100ms = (\<lambda>l. l),
     process_exit_status = (\<lambda>l. 0),
     process_id = (\<lambda>l. 0), process_threads = (\<lambda>l. []),
     process_thread_at_index = (\<lambda>l _. (SBThread 0)), process_thread_by_id = (\<lambda>l _. None),
     process_selected_thread = (\<lambda>l. (SBThread 0)), process_set_selected_thread = (\<lambda>l _. l),
     process_read_stdout = (\<lambda>l _. ([], l)), process_read_stderr = (\<lambda>l _. ([], l)),
     process_memory_region = (\<lambda>l _. (Inl [])), process_write_memory = (\<lambda>l _ _. ((Inr 0), l)),
     process_stop_restarted = (\<lambda>l. None)\<rparr>"

definition stub_thread_api :: "'l thread_api" where
  "stub_thread_api = \<lparr>
     thread_index_id = (\<lambda>l _. 0), thread_get_id = (\<lambda>l _. 0),
     thread_name = (\<lambda>l _. None), thread_stop_reason = (\<lambda>l _. SrNone),
     thread_stop_description = (\<lambda>l _. []), thread_stop_reason_data = (\<lambda>l _ _. 0),
     thread_frame_at_index = (\<lambda>l t n. SBFrame (unat n)), thread_frames = (\<lambda>l _. []),
     thread_selected_frame = (\<lambda>l _. (SBFrame 0)), thread_stop_return_value = (\<lambda>l _. None),
     thread_step_instruction = (\<lambda>_ _ l. ((Inr ()), l)),
     thread_step_over = (\<lambda>_ _ l. ((Inr ()), l)), thread_step_into = (\<lambda>_ _ l. ((Inr ()), l)),
     thread_step_out = (\<lambda>_ l. ((Inr ()), l)),
     thread_jump_to_line = (\<lambda>_ _ _ l. ((Inr ()), l)),
     thread_return_from_frame = (\<lambda>_ _ l. ((Inr ()), l))\<rparr>"

definition stub_frame_api :: "'l frame_api" where
  "stub_frame_api = \<lparr>
     frame_is_valid = (\<lambda>l f. False), frame_pc = (\<lambda>l _. 0),
     frame_pc_address = (\<lambda>l _. (SBAddress 0)), frame_set_pc = (\<lambda>l _ _. (True, l)),
     frame_function_name = (\<lambda>l _. None), frame_function = (\<lambda>l _. (SBFunction 0)),
     frame_module = (\<lambda>l _. (SBModule 0)), frame_line_entry = (\<lambda>l _. None),
     frame_compile_unit = (\<lambda>l _. None), frame_thread = (\<lambda>l _. (SBThread 0)),
     frame_find_variable = (\<lambda>l _ _. None), frame_find_value = (\<lambda>l _ _ _. None),
     frame_variables = (\<lambda>l _ _. []), frame_registers = (\<lambda>l _. []),
     frame_evaluate_expression = (\<lambda>l _ _. ((SBValue 0), l)),
     target_evaluate_expression = (\<lambda>l _. ((SBValue 0), l)), function_is_valid = (\<lambda>l _. True),
     function_start_address = (\<lambda>l _. (SBAddress 0)), function_display_name = (\<lambda>l _. []),
     unit_line_entries = (\<lambda>l _. []), line_entry_start_address = (\<lambda>l _. (SBAddress 0)),
     line_entry_end_address = (\<lambda>l _. (SBAddress 0)),
     instr_control_flow_kind = (\<lambda>l _. CfOther), instr_is_valid = (\<lambda>l _. True),
     no_instruction = SBInstruction 0,
     addr_function = (\<lambda>l _. None), addr_add_offset = (\<lambda>l _ _. (SBAddress 0)),
     target_read_memory = (\<lambda>l _ _. (Inr []))\<rparr>"

definition stub_value_api :: "'l value_api" where
  "stub_value_api = \<lparr>
     value_is_valid = (\<lambda>l _. True), value_error = (\<lambda>l _. None),
     value_name = (\<lambda>l _. None), value_type_name = (\<lambda>l _. None),
     value_display_type_name = (\<lambda>l _. None), value_get_type = (\<lambda>l _. (SBType 0)),
     value_value_type = (\<lambda>l _. VtVariableLocal), value_format = (\<lambda>l _. FDefault),
     value_set_format = (\<lambda>l _ _. l), value_summary = (\<lambda>l _. None),
     value_value = (\<lambda>l _. None), value_might_have_children = (\<lambda>l _. True),
     value_num_children = (\<lambda>l _. 0), value_children = (\<lambda>l _. []),
     value_is_synthetic = (\<lambda>l _. True), value_prefer_synthetic = (\<lambda>l _. True),
     value_non_synthetic = (\<lambda>l _. (SBValue 0)), value_expression_path = (\<lambda>l _. None),
     value_load_address = (\<lambda>l _. 0), value_address = (\<lambda>l _. None),
     value_byte_size = (\<lambda>l _. 0), value_data_size = (\<lambda>l _. 0),
     value_as_unsigned = (\<lambda>l _ _. 0), value_dereference = (\<lambda>l _. (SBValue 0)),
     value_child_with_name = (\<lambda>l _ _. None), value_set_value = (\<lambda>_ _ l. ((Inr ()), l)),
     create_value_from_address = (\<lambda>l _ _ _. ((SBValue 0), l))\<rparr>"

definition stub_type_api :: "'l type_api" where
  "stub_type_api = \<lparr>
     type_basic_type = (\<lambda>l _. BtInt), type_class_flags = (\<lambda>l _. 0),
     type_is_pointer = (\<lambda>l _. True), type_pointee = (\<lambda>l _. (SBType 0)),
     type_array_element = (\<lambda>l _. (SBType 0)), type_array_of = (\<lambda>l _ _. (SBType 0))\<rparr>"

definition stub_module_api :: "'l module_api" where
  "stub_module_api = \<lparr>
     target_modules = (\<lambda>l. []), target_num_modules = (\<lambda>l. 0),
     target_module_at_index = (\<lambda>l _. (SBModule 0)), target_address_byte_size = (\<lambda>l. 0),
     module_is_valid = (\<lambda>l _. True), module_object_header_address = (\<lambda>l _. (SBAddress 0)),
     module_file_spec = (\<lambda>l _. (SBFileSpec 0)),
     module_symbol_file_spec = (\<lambda>l _. (SBFileSpec 0)), module_get_version = (\<lambda>l _. []),
     module_sections = (\<lambda>l _. []), module_num_compile_units = (\<lambda>l _. 0),
     module_num_symbols = (\<lambda>l _. 0), module_symbols = (\<lambda>l _. []),
     section_load_address = (\<lambda>l _. 0), section_byte_size = (\<lambda>l _. 0),
     symbol_type_debug = (\<lambda>l _. []), symbol_size = (\<lambda>l _. 0),
     addr_is_valid = (\<lambda>l _. True), addr_module = (\<lambda>l _. None),
     addr_file_address = (\<lambda>l _. 0)\<rparr>"

definition stub_breakpoint_api :: "'l breakpoint_api" where
  "stub_breakpoint_api = \<lparr>
     find_breakpoint_by_id = (\<lambda>l _. None),
     breakpoint_create_by_location = (\<lambda>l _ _ _. ((SBBreakpoint 0), l)),
     breakpoint_create_by_load_address = (\<lambda>l _. ((SBBreakpoint 0), l)),
     breakpoint_create_by_name = (\<lambda>l _. ((SBBreakpoint 0), l)),
     breakpoint_create_by_regex = (\<lambda>l _. ((SBBreakpoint 0), l)),
     breakpoint_create_for_exception = (\<lambda>l _ _ _. ((SBBreakpoint 0), l)),
     breakpoint_delete = (\<lambda>l _. l), sbbp_id = (\<lambda>l _. 0),
     sbbp_is_valid = (\<lambda>l _. True), sbbp_num_locations = (\<lambda>l _. 0),
     sbbp_num_resolved_locations = (\<lambda>l _. 0),
     sbbp_location_address = (\<lambda>l _ _. (SBAddress 0)), sbbp_location_addresses = (\<lambda>l _. []),
     sbbp_add_name = (\<lambda>l _ _. l), sbbp_set_condition = (\<lambda>l _ _. l),
     sbbp_set_callback = (\<lambda>l _ _. l), watch_address = (\<lambda>l _ _ _ _. ((Inr 0), l)),
     delete_all_watchpoints = (\<lambda>l. l)\<rparr>"

definition stub_command_api :: "'l command_api" where
  "stub_command_api = \<lparr>

     handle_command = (\<lambda>l _. (\<lparr>cmd_succeeded = True, cmd_output = [], cmd_error = []\<rparr>, l)),
     handle_command_with_context = (\<lambda>l _ _. (\<lparr>cmd_succeeded = True, cmd_output = [], cmd_error = []\<rparr>, l)),
     set_immediate_output_file = (\<lambda>l. ((Inr ()), l)),
     interpreter_completions = (\<lambda>l _ _. None), set_async_mode = (\<lambda>l _. l),
     lldb_has_v15 = True, resolve_v16 = Inr ()\<rparr>"

definition stub_python_api :: "'l python_api" where
  "stub_python_api = \<lparr>
     compile_code = (\<lambda>l _ _. ((Inr (PyObject 0)), l)),
     py_evaluate = (\<lambda>l _ _ _. ((Inr (SBValue 0)), l)),
     py_evaluate_as_bool = (\<lambda>l _ _ _. ((Inr True), l)), py_handle_message = (\<lambda>l _. l),
     py_update_adapter_settings = (\<lambda>l _. l), py_init_lang_support = (\<lambda>l. l)\<rparr>"

definition stub_libraries :: "libraries" where
  "stub_libraries = \<lparr>
     parse_int_u64 = (\<lambda>_. (Inr 0)), parse_int_i64 = (\<lambda>_. (Inr 0)),
     base64_encode = (\<lambda>_. []), base64_decode = (\<lambda>_. (Inr [])),
     fuzzy_match = (\<lambda>_ _. True), char_is_alphabetic = (\<lambda>_. True),
     adapter_data_from_json = (\<lambda>_. (Inr \<lparr>ad_start = 0, ad_end = 0, line_offsets = []\<rparr>)),
     adapter_data_to_json = (\<lambda>_. JNull), launch_args_error = (\<lambda>_. Some []),
     attach_args_error = (\<lambda>_. Some []), restart_args_error = (\<lambda>_. Some [])\<rparr>"

definition stub_launch_api :: "'l launch_api" where
  "stub_launch_api = \<lparr>
     debugger_set_variable = (\<lambda>_ _ l. (Inr (), l)), debugger_get_variable = (\<lambda>l _. None),
     debugger_create_target = (\<lambda>_ l. (Inr (SBTarget 0), l)), debugger_selected_target = (\<lambda>l. SBTarget 0),
     sbtarget_is_valid = (\<lambda>l _. True), session_target = (\<lambda>l. SBTarget 0), set_session_target = (\<lambda>l _. l),
     listen_to_target = (\<lambda>l _. l), target_executable = (\<lambda>l. SBFileSpec 0), filespec_debug = (\<lambda>l _. []),
     platform_triple = (\<lambda>l. []), platform_name = (\<lambda>l. ''host''), platform_environment = (\<lambda>l. SBEnvironment 0),
     platform_file_permissions = (\<lambda>l _. 0), environment_new = SBEnvironment 0, environment_set = (\<lambda>e _ _. e),
     target_launch_info = (\<lambda>l. SBLaunchInfo 0), target_set_launch_info = (\<lambda>l _. l),
     info_set_environment = (\<lambda>i _. i), info_set_arguments = (\<lambda>i _. i), info_arguments = (\<lambda>i. []),
     info_set_working_directory = (\<lambda>i _. i), info_working_directory = (\<lambda>i. None), info_flags = (\<lambda>i. 0),
     info_set_flags = (\<lambda>i _. i), info_add_open_file_action = (\<lambda>i _ _ _ _. i),
     target_launch = (\<lambda>_ l. (Inr (), l)), attach_info_new = SBAttachInfo 0, attach_set_process_id = (\<lambda>i _. i),
     attach_set_executable = (\<lambda>i _. i), attach_set_wait_for_launch = (\<lambda>i _ _. i),
     attach_set_ignore_existing = (\<lambda>i _. i), target_attach = (\<lambda>_ l. (Inr (), l)),
     use_debugger_terminal = (\<lambda>_ l. Done l), read_env_file = (\<lambda>_. Inr []), current_dir = Inr ''/'',
     current_exe = Inr ''/codelldb'', path_exists = (\<lambda>_. True), bind_listener = Inr [],
     terminal_agent = (\<lambda>_. Inr None), to_uppercase = id, aslr_restricted = (\<lambda>l. False)\<rparr>"

definition stub_env :: "'l env" where
  "stub_env = \<lparr>dasm = stub_dasm, files = stub_file_api, proc = stub_process_api, thr = stub_thread_api,
     frm = stub_frame_api, val = stub_value_api, typs = stub_type_api, mods = stub_module_api,
     bps = stub_breakpoint_api, cmds = stub_command_api, pyt = stub_python_api, noms = ascii_nom,
     libs = stub_libraries, lnch = stub_launch_api\<rparr>"

lemmas stub_defs = stub_dasm_def stub_file_api_def stub_process_api_def stub_thread_api_def stub_frame_api_def stub_value_api_def stub_type_api_def stub_module_api_def stub_breakpoint_api_def stub_command_api_def stub_python_api_def stub_libraries_def stub_launch_api_def stub_env_def

end
