(* ===== verification/Session_Settings.thy ===== *)
theory Session_Settings
  imports Stub_Env
begin

text \<open>
  Capabilities, settings and the command interpreter: what the adapter tells the client it can do,
  how settings change the session (and which capabilities that changes), executing the command
  lists of a launch configuration, and completions in the debug console.
\<close>

section \<open>Capabilities\<close>

definition CPP_THROW :: string where "CPP_THROW = ''cpp_throw''"
definition CPP_CATCH :: string where "CPP_CATCH = ''cpp_catch''"
definition RUST_PANIC :: string where "RUST_PANIC = ''rust_panic''"
definition SWIFT_THROW :: string where "SWIFT_THROW = ''swift_throw''"

definition get_exception_filters :: "exception_breakpoints_filter list" where
  "get_exception_filters =
     [default_exception_breakpoints_filter\<lparr>ef_filter := CPP_THROW, ef_label := ''C++: on throw'',
        ef_default := Some True, ef_supports_condition := Some True\<rparr>,
      default_exception_breakpoints_filter\<lparr>ef_filter := CPP_CATCH, ef_label := ''C++: on catch'',
        ef_default := Some False, ef_supports_condition := Some True\<rparr>,
      default_exception_breakpoints_filter\<lparr>ef_filter := RUST_PANIC, ef_label := ''Rust: on panic'',
        ef_default := Some True, ef_supports_condition := Some True\<rparr>,
      default_exception_breakpoints_filter\<lparr>ef_filter := SWIFT_THROW, ef_label := ''Swift: on throw'',
        ef_default := Some False, ef_supports_condition := Some True\<rparr>]"

definition get_exception_filters_for :: "string list \<Rightarrow> exception_breakpoints_filter list" where
  "get_exception_filters_for source_langs =
     filter (\<lambda>exc_filter. let filter_lang = hd (split_char (CHR ''_'') (ef_filter exc_filter))
                          in list_ex (\<lambda>l. l = filter_lang) source_langs)
       get_exception_filters"

definition make_capabilities :: "'l env \<Rightarrow> 'l session \<Rightarrow> capabilities" where
  "make_capabilities E s = default_capabilities\<lparr>
     cap_exception_breakpoint_filters := get_exception_filters_for (source_languages s),
     cap_support_terminate_debuggee := Some True,
     cap_supports_cancel_request := Some True,
     cap_supports_clipboard_context := Some True,
     cap_supports_completions_request := Some (command_completions s),
     cap_supports_conditional_breakpoints := Some True,
     cap_supports_configuration_done_request := Some True,
     cap_supports_data_breakpoints := Some True,
     cap_supports_data_breakpoint_bytes := Some True,
     cap_supports_delayed_stack_trace_loading := Some True,
     cap_supports_disassemble_request := Some True,
     cap_supports_evaluate_for_hovers := Some (evaluate_for_hovers s),
     cap_supports_exception_filter_options := Some True,
     cap_supports_exception_info_request := Some True,
     cap_supports_function_breakpoints := Some True,
     cap_supports_goto_targets_request := Some True,
     cap_supports_hit_conditional_breakpoints := Some True,
     cap_supports_instruction_breakpoints := Some True,
     cap_supports_log_points := Some True,
     cap_supports_modules_request := Some True,
     cap_supports_read_memory_request := Some True,
     cap_supports_restart_request := Some True,
     cap_supports_set_variable := Some True,
     cap_supports_step_in_targets_request := Some (\<not> isl (resolve_v16 (cmds E))),
     cap_supports_stepping_granularity := Some True,
     cap_supports_write_memory_request := Some True\<rparr>"

definition handle_initialize :: "'l env \<Rightarrow> initialize_request_arguments \<Rightarrow> ('l, capabilities) sact" where
  "handle_initialize E args =
     andThen (modifies (\<lambda>s. s\<lparr>client_caps := Initialized args\<rparr>)) (\<lambda>_. reads (make_capabilities E))"

section \<open>Commands\<close>

fun exec_loop :: "'l env \<Rightarrow> string list \<Rightarrow> ('l, unit) sact" where
  "exec_loop E [] = ret ()"
| "exec_loop E (command # commands) =
     andThen (run (\<lambda>l. handle_command (cmds E) l command)) (\<lambda>res.
     let out = utf8_lossy (cmd_output res) in
     andThen (if out \<noteq> [] then console_message out else ret ()) (\<lambda>_.
     if \<not> cmd_succeeded res then
       let err_msg = utf8_lossy (cmd_error res) in
       andThen (console_error err_msg) (\<lambda>_. bail (blame_user (str_error err_msg)))
     else exec_loop E commands))"

definition exec_commands :: "'l env \<Rightarrow> string \<Rightarrow> string list \<Rightarrow> ('l, unit) sact" where
  "exec_commands E script_name commands =
     andThen (console_message (''Executing script: '' @ script_name)) (\<lambda>_.
       onResult (exec_loop E commands) (\<lambda>res.
         andThen (tell (\<lambda>l. set_async_mode (cmds E) l True)) (\<lambda>_. lift_result res)))"

fun reverse_exec :: "'l env \<Rightarrow> string list \<Rightarrow> ('l, unit) sact" where
  "reverse_exec E [] = ret ()"
| "reverse_exec E (command # commands) =
     andThen (run (\<lambda>l. handle_command (cmds E) l command)) (\<lambda>res.
     if \<not> cmd_succeeded res then
       let error = utf8_lossy (cmd_error res) in
       andThen (console_error error) (\<lambda>_. bail (StrError error))
     else reverse_exec E commands)"

section \<open>Settings\<close>

definition print_console_mode :: "('l, unit) sact" where
  "print_console_mode = andThen (reads console_mode) (\<lambda>mode. console_message (case mode of
      Commands \<Rightarrow> ''Console is in 'commands' mode, prefix expressions with '?'.''
    | _ \<Rightarrow> ''Console is in 'evaluation' mode, prefix commands with '/cmd ' or '`'.''))"

definition format_for :: "display_format option \<Rightarrow> format \<Rightarrow> format" where
  "format_for df old = (case df of
      None \<Rightarrow> old
    | Some DfAuto \<Rightarrow> FDefault
    | Some DfDecimal \<Rightarrow> FDecimal
    | Some DfHex \<Rightarrow> FHex
    | Some DfBinary \<Rightarrow> FBinary)"

definition unwrap_or :: "'a option \<Rightarrow> 'a \<Rightarrow> 'a" where
  "unwrap_or x d = (case x of None \<Rightarrow> d | Some y \<Rightarrow> y)"

text \<open>The part of \<^verbatim>\<open>update_adapter_settings\<close> before the capabilities.\<close>

definition apply_settings :: "adapter_settings \<Rightarrow> 'l session \<Rightarrow> 'l session" where
  "apply_settings st s = s\<lparr>
     global_format := format_for (as_display_format st) (global_format s),
     show_disassembly := unwrap_or (as_show_disassembly st) (show_disassembly s),
     deref_pointers := unwrap_or (as_dereference_pointers st) (deref_pointers s),
     suppress_missing_files := unwrap_or (as_suppress_missing_source_files st) (suppress_missing_files s),
     evaluation_timeout := unwrap_or (as_evaluation_timeout st) (evaluation_timeout s),
     summary_timeout := unwrap_or (as_summary_timeout st) (summary_timeout s),
     console_mode := unwrap_or (as_console_mode st) (console_mode s)\<rparr>"

text \<open>The capabilities that change: each step returns them, whether any changed, and the new state.\<close>

definition update_hovers :: "adapter_settings \<Rightarrow> capabilities \<times> bool \<times> 'l session \<Rightarrow> capabilities \<times> bool \<times> 'l session" where
  "update_hovers st = (\<lambda>(caps, modified, s). case as_evaluate_for_hovers st of
      None \<Rightarrow> (caps, modified, s)
    | Some hovers \<Rightarrow>
        if evaluate_for_hovers s \<noteq> hovers
        then (caps\<lparr>cap_supports_evaluate_for_hovers := Some hovers\<rparr>, True, s\<lparr>evaluate_for_hovers := hovers\<rparr>)
        else (caps, modified, s))"

definition update_completions :: "adapter_settings \<Rightarrow> capabilities \<times> bool \<times> 'l session \<Rightarrow> capabilities \<times> bool \<times> 'l session" where
  "update_completions st = (\<lambda>(caps, modified, s). case as_command_completions st of
      None \<Rightarrow> (caps, modified, s)
    | Some completions \<Rightarrow>
        if command_completions s \<noteq> completions
        then (caps\<lparr>cap_supports_completions_request := Some completions\<rparr>, True, s\<lparr>command_completions := completions\<rparr>)
        else (caps, modified, s))"

definition update_languages :: "adapter_settings \<Rightarrow> capabilities \<times> bool \<times> 'l session \<Rightarrow> capabilities \<times> bool \<times> 'l session" where
  "update_languages st = (\<lambda>(caps, modified, s). case as_source_languages st of
      None \<Rightarrow> (caps, modified, s)
    | Some languages \<Rightarrow>
        if source_languages s \<noteq> languages
        then (caps\<lparr>cap_exception_breakpoint_filters := get_exception_filters_for languages\<rparr>, True,
              s\<lparr>source_languages := languages\<rparr>)
        else (caps, modified, s))"

definition update_adapter_settings :: "'l env \<Rightarrow> adapter_settings \<Rightarrow> ('l, capabilities option) sact" where
  "update_adapter_settings E st s =
     (case update_languages st (update_completions st (update_hovers st (default_capabilities, False, apply_settings st s))) of
        (caps, modified, s') \<Rightarrow>
          Done (Inr (if modified then Some caps else None),
            if has_python s' then s'\<lparr>dbg := py_update_adapter_settings (pyt E) (dbg s') st\<rparr> else s'))"

definition update_adapter_settings_and_caps :: "'l env \<Rightarrow> adapter_settings \<Rightarrow> ('l, unit) sact" where
  "update_adapter_settings_and_caps E st =
     andThen (update_adapter_settings E st) (\<lambda>caps. case caps of
       Some new_caps \<Rightarrow> send_event (Ev_capabilities new_caps)
     | None \<Rightarrow> ret ())"

text \<open>A fake stop event makes the client refresh its display; \<^verbatim>\<open>client_caps\<close> must be initialized.\<close>

definition refresh_client_display :: "'l env \<Rightarrow> u64 option \<Rightarrow> ('l, unit) sact" where
  "refresh_client_display E thread_id =
     andThen (case thread_id of
         Some tid \<Rightarrow> ret tid
       | None \<Rightarrow> ask (\<lambda>l. thread_get_id (thr E) l (process_selected_thread (proc E) l))) (\<lambda>tid.
     andThen (reads client_caps) (\<lambda>caps.
     andThen (lift_exec (mi_deref caps)) (\<lambda>c.
     andThen (if unwrap_or (ia_supports_invalidated_event c) False
              then send_event (Ev_invalidated (Some (u64_as_i64 tid))) else ret ()) (\<lambda>_.
     send_event (Ev_stopped (default_stopped_event_body\<lparr>st_thread_id := Some (u64_as_i64 tid),
       st_all_threads_stopped := Some True\<rparr>))))))"

definition handle_adapter_settings :: "'l env \<Rightarrow> adapter_settings \<Rightarrow> ('l, unit) sact" where
  "handle_adapter_settings E args =
     andThen (reads console_mode) (\<lambda>old_console_mode.
     andThen (update_adapter_settings_and_caps E args) (\<lambda>_.
     andThen (reads console_mode) (\<lambda>mode.
     andThen (if mode \<noteq> old_console_mode then print_console_mode else ret ()) (\<lambda>_.
     andThen (ask (process_get_state (proc E))) (\<lambda>st.
     if \<not> is_running st then refresh_client_display E None else ret ())))))"

section \<open>Completions\<close>

text \<open>The console text that is completed and the cursor column in it; \<^verbatim>\<open>None\<close> if it is an expression.\<close>

definition completion_text :: "console_mode \<Rightarrow> completions_arguments \<Rightarrow> (string \<times> int) option" where
  "completion_text mode args = (case mode of
      Commands \<Rightarrow> Some (cpa_text args, wrap_i64 (cpa_column args - 1))
    | _ \<Rightarrow>
        if starts_with (cpa_text args) ''`'' then Some (drop 1 (cpa_text args), wrap_i64 (cpa_column args - 2))
        else if starts_with (cpa_text args) ''/cmd '' then Some (drop 5 (cpa_text args), wrap_i64 (cpa_column args - 6))
        else None)"

definition cursor_index :: "string \<Rightarrow> int \<Rightarrow> nat" where
  "cursor_index text cursor_column =
     (case drop (unat (as_u64 cursor_column)) (char_offsets text) of
        offset # _ \<Rightarrow> offset
      | [] \<Rightarrow> length text)"

text \<open>The loop that looks for the longest prefix of the completion which the text ends with.\<close>

definition prefix_len :: "string \<Rightarrow> string \<Rightarrow> nat" where
  "prefix_len text completion =
     fold (\<lambda>(idx, offset) n. if ends_with text (take offset completion) then idx else n)
       (List.enumerate 0 (char_offsets completion)) 0"

definition completion_target :: "string \<Rightarrow> string \<Rightarrow> completion_item option" where
  "completion_target text completion =
     (if ends_with text completion then None
      else Some (default_completion_item\<lparr>
        ci_text := Some completion, ci_label := completion,
        ci_start := Some (int (chars_count text) - int (prefix_len text completion)),
        ci_length := Some (int (prefix_len text completion))\<rparr>))"

definition handle_completions :: "'l env \<Rightarrow> completions_arguments \<Rightarrow> ('l, completion_item list) sact" where
  "handle_completions E args =
     andThen (reads command_completions) (\<lambda>enabled.
     if \<not> enabled then bail (StrError ''Completions are disabled'')
     else andThen (reads console_mode) (\<lambda>mode. case completion_text mode args of
       None \<Rightarrow> ret []
     | Some (text, cursor_column) \<Rightarrow>
         (case first_char text of
            Some c \<Rightarrow>
              if \<not> char_is_alphabetic (libs E) c then ret []
              else andThen (ask (\<lambda>l. interpreter_completions (cmds E) l text (of_nat (cursor_index text cursor_column))))
                (\<lambda>found. case found of
                   None \<Rightarrow> ret []
                 | Some completions \<Rightarrow> ret (List.map_filter (completion_target text) completions))
          | None \<Rightarrow>
              andThen (ask (\<lambda>l. interpreter_completions (cmds E) l text (of_nat (cursor_index text cursor_column))))
                (\<lambda>found. case found of
                   None \<Rightarrow> ret []
                 | Some completions \<Rightarrow> ret (List.map_filter (completion_target text) completions)))))"

section \<open>Completions replace the longest overlap\<close>

lemma fold_last_index:
  "fold (\<lambda>(idx, x) n. if P x then idx else n) (List.enumerate k xs) n0 =
     (if \<exists>i < length xs. P (xs ! i) then k + Max {i. i < length xs \<and> P (xs ! i)} else n0)"
proof (induction xs rule: rev_induct)
  case (snoc x xs)
  let ?B = "{i. i < length (xs @ [x]) \<and> P ((xs @ [x]) ! i)}"
  show ?case
  proof (cases "P x")
    case True
    have "Max ?B = length xs"
      using True by (intro Max_eqI) (auto simp: nth_append)
    moreover have "\<exists>i < length (xs @ [x]). P ((xs @ [x]) ! i)"
      using True by (intro exI [of _ "length xs"]) simp
    ultimately show ?thesis using True by (simp add: enumerate_append_eq)
  next
    case False
    then have "?B = {i. i < length xs \<and> P (xs ! i)}"
      by (auto simp: nth_append less_Suc_eq)
    moreover from False have "(\<exists>i < length (xs @ [x]). P ((xs @ [x]) ! i)) \<longleftrightarrow> (\<exists>i < length xs. P (xs ! i))"
      by (auto simp: nth_append less_Suc_eq)
    ultimately show ?thesis using False snoc.IH by (auto simp: enumerate_append_eq simp del: length_append)
  qed
qed simp

lemma utf8_valid_head: "utf8_valid (a # s) \<Longrightarrow> \<not> is_cont a"
proof
  assume v: "utf8_valid (a # s)" and "is_cont a"
  then have "\<not> byte a < 128" "\<not> byte_in 0xC2 0xDF a" "\<not> byte_in 0xE0 0xEF a" "\<not> byte_in 0xF0 0xF4 a"
    by (auto simp: is_cont_def byte_in_def)
  with v show False by (simp split: list.splits)
qed

text \<open>
  Property C22.  Every completion offered for a text is inserted over its longest overlap with the
  text: the replaced part has as many characters as the longest prefix of the completion (short of
  the whole) with which the text ends, and it is the end of the text.  A completion that the text
  already ends with is not offered.
\<close>

theorem completion_overlap:
  assumes "completion_target text completion = Some item" "completion \<noteq> []" "utf8_valid completion"
  shows "\<not> ends_with text completion \<and> ci_text item = Some completion \<and>
    (\<exists>n. ci_length item = Some (int n) \<and> ci_start item = Some (int (chars_count text) - int n) \<and>
       n = Max {i. i < length (char_offsets completion) \<and> ends_with text (take (char_offsets completion ! i) completion)})"
proof -
  have "\<not> is_cont (completion ! 0)"
    using assms(2,3) utf8_valid_head by (cases completion) (auto simp del: utf8_valid.simps)
  moreover have "[0..<length completion] = 0 # [Suc 0..<length completion]"
    using assms(2) by (simp add: upt_conv_Cons)
  ultimately have "char_offsets completion \<noteq> [] \<and> char_offsets completion ! 0 = 0"
    by (simp add: char_offsets_def)
  then have "\<exists>i < length (char_offsets completion). ends_with text (take (char_offsets completion ! i) completion)"
    by (intro exI [of _ 0]) (simp add: ends_with_def starts_with_def)
  then show ?thesis
    using assms(1) fold_last_index [of "\<lambda>off. ends_with text (take off completion)" 0 "char_offsets completion" 0]
    by (auto simp: completion_target_def prefix_len_def split: if_splits)
qed

theorem completion_overlap_witness:
  "ci_start (the (completion_target ''target cre'' ''create'')) = Some 7 \<and>
   3 = Max {i. i < length (char_offsets ''create'') \<and> ends_with ''target cre'' (take (char_offsets ''create'' ! i) ''create'')}"
proof -
  have t: "completion_target ''target cre'' ''create'' = Some (default_completion_item\<lparr>
      ci_text := Some ''create'', ci_label := ''create'', ci_start := Some 7, ci_length := Some 3\<rparr>)"
    by code_simp
  have "utf8_valid ''create''" by code_simp
  from completion_overlap [OF t _ this] show ?thesis by (simp add: t)
qed

section \<open>Settings and capabilities agree\<close>

lemmas update_defs = update_hovers_def update_completions_def update_languages_def apply_settings_def unwrap_or_def

lemma update_adapter_settings_total:
  "\<exists>caps s'. update_adapter_settings E st s = Done (Inr caps, s')"
  by (simp add: update_adapter_settings_def split: prod.splits)

text \<open>
  Changing the settings never fails, and the capabilities it reports are exactly the
  change: a capability is set in the report if and only if its value changed, nothing is reported if
  none changed, and then the capabilities the adapter would announce are what they were.
\<close>

theorem settings_report_changes:
  "case update_adapter_settings E st s of
     Panic \<Rightarrow> False
   | Done (Inl _, _) \<Rightarrow> False
   | Done (Inr None, s') \<Rightarrow> make_capabilities E s' = make_capabilities E s
   | Done (Inr (Some c), s') \<Rightarrow>
       \<not> (evaluate_for_hovers s' = evaluate_for_hovers s \<and> command_completions s' = command_completions s \<and>
          source_languages s' = source_languages s) \<and>
       c = default_capabilities\<lparr>
         cap_supports_evaluate_for_hovers :=
           (if evaluate_for_hovers s' \<noteq> evaluate_for_hovers s then Some (evaluate_for_hovers s') else None),
         cap_supports_completions_request :=
           (if command_completions s' \<noteq> command_completions s then Some (command_completions s') else None),
         cap_exception_breakpoint_filters :=
           (if source_languages s' \<noteq> source_languages s then get_exception_filters_for (source_languages s') else [])\<rparr>"
  by (cases "as_evaluate_for_hovers st"; cases "as_command_completions st"; cases "as_source_languages st")
    (auto simp: update_adapter_settings_def update_defs make_capabilities_def default_capabilities_def)

section \<open>Local paths are remembered\<close>

lemma ensure_absolute_path_state:
  "ensure_absolute_path p s = Done (r, s') \<Longrightarrow> s' = s"
  by (cases "relative_path_base s") (auto simp: ensure_absolute_path_def act_step act_eval split: if_splits)

lemma map_filespec_valid_cached:
  assumes "map_filespec_to_local E fs s = Done (Inr r, s1)" "filespec_is_valid (files E) (dbg s) fs"
  shows "hm_get (source_map_cache s1) (components (filespec_path (files E) (dbg s) fs)) = Some r \<and> dbg s1 = dbg s"
proof (cases "hm_get (source_map_cache s) (components (filespec_path (files E) (dbg s) fs))")
  case None
  with assms show ?thesis
    by (auto simp: map_filespec_to_local_def act_step act_eval Let_def andThen_ok update_conv'
        dest!: ensure_absolute_path_state)
next
  case (Some m)
  with assms show ?thesis by (simp add: map_filespec_to_local_def act_step act_eval Let_def)
qed

text \<open>
  The local path of a source file is determined once: whatever happens to the
  settings afterwards, in particular to \<^verbatim>\<open>suppress_missing_files\<close> and to the base of relative paths, the
  file keeps the path (or the absence of one) that it got first.
\<close>

theorem local_path_remembered:
  assumes "filespec_is_valid (files E) (dbg s) fs" "map_filespec_to_local E fs s = Done (Inr r, s1)"
    and "dbg s2 = dbg s1" "source_map_cache s2 = source_map_cache s1"
  shows "map_filespec_to_local E fs s2 = Done (Inr r, s2)"
  using map_filespec_valid_cached [OF assms(2,1)] assms
  by (simp add: map_filespec_to_local_def act_step act_eval Let_def)

definition sample_files_env :: "unit env" where
  "sample_files_env = stub_env\<lparr>files := stub_file_api\<lparr>filespec_path := \<lambda>_ _. ''/src/a.c''\<rparr>\<rparr>"

definition sample_lookup :: "(unit, path option) sact" where
  "sample_lookup = map_filespec_to_local sample_files_env (SBFileSpec 0)"

theorem local_path_remembered_witness:
  "\<exists>s1. sample_lookup (session_new () False) = Done (Inr None, s1) \<and>
     sample_lookup (s1\<lparr>suppress_missing_files := False\<rparr>) =
       Done (Inr None, s1\<lparr>suppress_missing_files := False\<rparr>)"
proof -
  have c: "components ''/src/a.c'' = [RootDir, Normal ''src'', Normal ''a.c'']" by code_simp
  have "\<exists>s1. sample_lookup (session_new () False) = Done (Inr None, s1)"
    by (simp add: sample_lookup_def sample_files_env_def stub_defs map_filespec_to_local_def ensure_absolute_path_def act_step act_eval
        Let_def session_new_def c path_is_relative_def)
  then obtain s1 where s1: "sample_lookup (session_new () False) = Done (Inr None, s1)"
    by blast
  have valid: "filespec_is_valid (files sample_files_env) (dbg (session_new () False)) (SBFileSpec 0)"
    by (simp add: sample_lookup_def sample_files_env_def stub_defs)
  have "sample_lookup (s1\<lparr>suppress_missing_files := False\<rparr>) =
      Done (Inr None, s1\<lparr>suppress_missing_files := False\<rparr>)"
    unfolding sample_lookup_def by (rule local_path_remembered [OF valid s1 [unfolded sample_lookup_def]]) simp_all
  with s1 show ?thesis by blast
qed

end
