(* ===== verification/Session_Run.thy ===== *)
theory Session_Run
  imports Session_Settings
begin

text \<open>
  Controlling the debuggee (\<^verbatim>\<open>debug_session.rs\<close>): pausing, resuming and stepping, jumping to another
  line, and what the client is told when the process stops, runs on or ends.
\<close>

section \<open>Notifying the client\<close>

definition wpid_to_bpid :: "u32 \<Rightarrow> int" where
  "wpid_to_bpid wid = u32_as_i64 wid + 1000000"

definition is_valid_reason :: "stop_reason \<Rightarrow> bool" where
  "is_valid_reason r \<longleftrightarrow> r \<noteq> SrInvalid \<and> r \<noteq> SrNone"

definition notify_process_running :: "'l env \<Rightarrow> ('l, unit) sact" where
  "notify_process_running E =
     andThen (ask (\<lambda>l. thread_get_id (thr E) l (process_thread_at_index (proc E) l 0))) (\<lambda>tid.
       send_event (Ev_continued (Some True) (u64_as_i64 tid)))"

text \<open>The selected thread if it has a reason to be stopped, otherwise the first that has one.\<close>

definition select_stopped_thread :: "'l env \<Rightarrow> ('l, sbthread) sact" where
  "select_stopped_thread E =
     andThen (ask (process_selected_thread (proc E))) (\<lambda>selected.
     andThen (ask (\<lambda>l. thread_stop_reason (thr E) l selected)) (\<lambda>r.
     if is_valid_reason r then ret selected
     else
       andThen (ask (\<lambda>l. List.find (\<lambda>t. is_valid_reason (thread_stop_reason (thr E) l t)) (process_threads (proc E) l)))
         (\<lambda>found. case found of
            None \<Rightarrow> ret selected
          | Some thread \<Rightarrow>
              andThen (tell (\<lambda>l. process_set_selected_thread (proc E) l thread)) (\<lambda>_. ret thread))))"

definition analyze_stop :: "'l env \<Rightarrow> 'l \<Rightarrow> sbthread \<Rightarrow> string \<times> string option \<times> int list" where
  "analyze_stop E l thread = (case thread_stop_reason (thr E) l thread of
      SrBreakpoint \<Rightarrow> (''breakpoint'', None, [u64_as_i64 (thread_stop_reason_data (thr E) l thread 0)])
    | SrWatchpoint \<Rightarrow>
        (''data breakpoint'', None, [wpid_to_bpid (ucast (thread_stop_reason_data (thr E) l thread 0))])
    | SrTrace \<Rightarrow> (''step'', None, [])
    | SrPlanComplete \<Rightarrow> (''step'', None, [])
    | SrSignal \<Rightarrow> (''exception'', Some (thread_stop_description (thr E) l thread), [])
    | SrException \<Rightarrow> (''exception'', Some (thread_stop_description (thr E) l thread), [])
    | _ \<Rightarrow> (''unknown'', Some (thread_stop_description (thr E) l thread), []))"

definition notify_process_stopped :: "'l env \<Rightarrow> ('l, unit) sact" where
  "notify_process_stopped E =
     andThen (select_stopped_thread E) (\<lambda>thread.
     andThen (ask (\<lambda>l. analyze_stop E l thread)) (\<lambda>(reason, descr, hit_breakpoint).
     let description = (case descr of Some d \<Rightarrow> if d = [] then None else Some d | None \<Rightarrow> None) in
     andThen (case description of Some d \<Rightarrow> console_error (''Stop reason: '' @ d) | None \<Rightarrow> ret ()) (\<lambda>_.
     andThen (ask (\<lambda>l. thread_get_id (thr E) l thread)) (\<lambda>tid.
     send_event (Ev_stopped (default_stopped_event_body\<lparr>st_all_threads_stopped := Some True,
       st_thread_id := Some (u64_as_i64 tid), st_reason := reason, st_description := description,
       st_hit_breakpoint_ids := hit_breakpoint\<rparr>))))))"

definition notify_process_terminated :: "'l env \<Rightarrow> ('l, unit) sact" where
  "notify_process_terminated E =
     andThen (ask (process_get_state (proc E))) (\<lambda>st. case st of
       PsExited \<Rightarrow>
         andThen (ask (process_exit_status (proc E))) (\<lambda>exit_code.
         andThen (console_message (''Process exited with code '' @ show_int exit_code @ ''.'')) (\<lambda>_.
         andThen (send_event (Ev_exited exit_code)) (\<lambda>_.
         send_event (Ev_terminated None))))
     | PsDetached \<Rightarrow>
         andThen (console_message ''Detached from debuggee.'') (\<lambda>_. send_event (Ev_terminated None))
     | _ \<Rightarrow> ret ())"

section \<open>Running\<close>

definition handle_pause :: "'l env \<Rightarrow> ('l, unit) sact" where
  "handle_pause E =
     andThen (attempt (process_stop (proc E))) (\<lambda>r. case r of
       Inr _ \<Rightarrow> ret ()
     | Inl err \<Rightarrow>
         andThen (ask (process_get_state (proc E))) (\<lambda>st.
           if \<not> is_running st then notify_process_stopped E
           else bail (blame_user (StrError err))))"

definition handle_continue :: "'l env \<Rightarrow> ('l, bool option) sact" where
  "handle_continue E =
     andThen before_resume (\<lambda>_.
     andThen (attempt (process_resume (proc E))) (\<lambda>r. case r of
       Inr _ \<Rightarrow> ret (Some True)
     | Inl err \<Rightarrow>
         andThen (ask (process_get_state (proc E))) (\<lambda>st.
           if is_running st then andThen (notify_process_running E) (\<lambda>_. ret (Some True))
           else bail (blame_user (StrError err)))))"

definition steps_instruction :: "'l env \<Rightarrow> stepping_granularity option \<Rightarrow> sbframe \<Rightarrow> ('l, bool) sact" where
  "steps_instruction E granularity frame = (case granularity of
      Some GrInstruction \<Rightarrow> ret True
    | Some _ \<Rightarrow> ret False
    | None \<Rightarrow> in_disassembly E frame)"

definition handle_next :: "'l env \<Rightarrow> next_arguments \<Rightarrow> ('l, unit) sact" where
  "handle_next E args =
     andThen (thread_by_id E (na_thread_id args)) (\<lambda>thread.
     andThen before_resume (\<lambda>_.
     andThen (ask (\<lambda>l. thread_frame_at_index (thr E) l thread 0)) (\<lambda>frame.
     andThen (steps_instruction E (na_granularity args) frame) (\<lambda>step_instruction.
     if step_instruction then try_op (thread_step_instruction (thr E) thread True)
     else try_op (thread_step_over (thr E) thread OnlyDuringStepping)))))"

definition handle_step_out :: "'l env \<Rightarrow> step_out_arguments \<Rightarrow> ('l, unit) sact" where
  "handle_step_out E args =
     andThen before_resume (\<lambda>_.
     andThen (thread_by_id E (soa_thread_id args)) (\<lambda>thread.
     try_op (thread_step_out (thr E) thread)))"

definition select_thread_command :: "int \<Rightarrow> string" where
  "select_thread_command tid = ''process plugin packet send Hc'' @ show_hex (unat (as_u64 tid))"

definition handle_step_back :: "'l env \<Rightarrow> step_back_arguments \<Rightarrow> ('l, unit) sact" where
  "handle_step_back E args =
     andThen before_resume (\<lambda>_.
     andThen (modifies (\<lambda>s. s\<lparr>show_disassembly := SdAlways\<rparr>)) (\<lambda>_.
     reverse_exec E [select_thread_command (sbk_thread_id args), ''process plugin packet send bs'',
       ''process plugin packet send bs'', ''stepi'']))"

definition handle_reverse_continue :: "'l env \<Rightarrow> reverse_continue_arguments \<Rightarrow> ('l, unit) sact" where
  "handle_reverse_continue E args =
     andThen before_resume (\<lambda>_.
     reverse_exec E [select_thread_command (rca_thread_id args), ''process plugin packet send bc'',
       ''process plugin packet send bs'', ''stepi''])"

section \<open>Jumping\<close>

definition handle_goto_targets :: "goto_targets_arguments \<Rightarrow> ('l, goto_target list) sact" where
  "handle_goto_targets args =
     andThen (modifies (\<lambda>s. s\<lparr>last_goto_request := Some args\<rparr>)) (\<lambda>_.
       ret [\<lparr>gt_id = 1, gt_label = ''line '' @ show_int (gta_line args), gt_line = gta_line args\<rparr>])"

definition goto_disassembly :: "'l env \<Rightarrow> goto_arguments \<Rightarrow> goto_targets_arguments \<Rightarrow> sbthread \<Rightarrow> handle \<Rightarrow> ('l, unit) sact" where
  "goto_disassembly E args goto_args thread source_ref =
     andThen (reads (\<lambda>s. find_by_handle (disasm_ranges s) source_ref)) (\<lambda>found.
     andThen (ok_or (StrError ''source_ref'') found) (\<lambda>d.
     andThen (lift_exec (address_by_line_num d (as_u32 (gta_line goto_args)))) (\<lambda>addr.
     andThen (ask (\<lambda>l. thread_frame_at_index (thr E) l thread 0)) (\<lambda>frame.
     andThen (ask (\<lambda>l. frame_is_valid (frm E) l frame)) (\<lambda>valid.
     if \<not> valid then bail (StrError ''frame 0'')
     else
       andThen (run (\<lambda>l. frame_set_pc (frm E) l frame addr)) (\<lambda>ok.
         if ok then refresh_client_display E (Some (as_u64 (ga_thread_id args)))
         else bail (blame_user (str_error ''Failed to set the instruction pointer.''))))))))"

definition goto_source :: "'l env \<Rightarrow> goto_arguments \<Rightarrow> goto_targets_arguments \<Rightarrow> sbthread \<Rightarrow> ('l, unit) sact" where
  "goto_source E args goto_args thread =
     andThen (ok_or (StrError ''source.path'') (src_path (gta_source goto_args))) (\<lambda>p.
     andThen (attempt (thread_jump_to_line (thr E) thread p (as_u32 (gta_line goto_args)))) (\<lambda>r. case r of
       Inr _ \<Rightarrow>
         andThen (modifies (\<lambda>s. s\<lparr>last_goto_request := None\<rparr>)) (\<lambda>_.
           refresh_client_display E (Some (as_u64 (ga_thread_id args))))
     | Inl err \<Rightarrow> bail (blame_user (StrError err))))"

definition handle_goto :: "'l env \<Rightarrow> goto_arguments \<Rightarrow> ('l, unit) sact" where
  "handle_goto E args =
     andThen (reads last_goto_request) (\<lambda>last. case last of
       None \<Rightarrow> bail (StrError ''Unexpected goto message.'')
     | Some goto_args \<Rightarrow>
         andThen (thread_by_id E (ga_thread_id args)) (\<lambda>thread.
         case src_source_reference (gta_source goto_args) of
           Some source_ref \<Rightarrow> goto_disassembly E args goto_args thread source_ref
         | None \<Rightarrow> goto_source E args goto_args thread))"

definition handle_restart_frame :: "'l env \<Rightarrow> restart_frame_arguments \<Rightarrow> ('l, unit) sact" where
  "handle_restart_frame E args =
     andThen (reads (\<lambda>s. get (var_refs s) (rfa_frame_id args))) (\<lambda>found. case found of
       Some (StackFrame frame) \<Rightarrow>
         andThen (ask (\<lambda>l. frame_thread (frm E) l frame)) (\<lambda>thread.
         andThen (try_op (thread_return_from_frame (thr E) thread frame)) (\<lambda>_.
         andThen (ask (\<lambda>l. thread_get_id (thr E) l thread)) (\<lambda>tid.
         send_event (Ev_stopped (default_stopped_event_body\<lparr>st_thread_id := Some (u64_as_i64 tid),
           st_all_threads_stopped := Some True, st_reason := ''restart''\<rparr>)))))
     | _ \<Rightarrow> bail (StrError ''Invalid frameId''))"

end
