(* ===== verification/Session_Inspect.thy ===== *)
theory Session_Inspect
  imports Session_Run
begin

text \<open>
  Looking at the debuggee: threads, stack traces, modules, symbols, the virtual sources of
  disassembled ranges, and the stop reason of a thread.
\<close>

section \<open>Threads\<close>

definition thread_description :: "'l env \<Rightarrow> 'l \<Rightarrow> sbthread \<Rightarrow> dap_thread" where
  "thread_description E l thread =
     \<lparr>th_id = u64_as_i64 (thread_get_id (thr E) l thread),
      th_name = show_nat (unat (thread_index_id (thr E) l thread)) @ '': tid='' @
        show_nat (unat (thread_get_id (thr E) l thread)) @
        (case thread_name (thr E) l thread of Some name \<Rightarrow> '' \"'' @ name @ ''\"'' | None \<Rightarrow> [])\<rparr>"

definition handle_threads :: "'l env \<Rightarrow> ('l, dap_thread list) sact" where
  "handle_threads E =
     andThen (ask (\<lambda>l. map (thread_description E l) (process_threads (proc E) l))) (\<lambda>threads.
     andThen (ask (process_get_state (proc E))) (\<lambda>st.
     ret (if length threads = 0 \<and> is_running st then threads @ [\<lparr>th_id = 0, th_name = []\<rparr>] else threads)))"

definition handle_execption_info :: "'l env \<Rightarrow> exception_info_arguments \<Rightarrow> ('l, exception_info_response_body) sact" where
  "handle_execption_info E args =
     andThen (thread_by_id E (xia_thread_id args)) (\<lambda>thread.
     ask (\<lambda>l. \<lparr>xr_exception_id = stop_reason_debug (thread_stop_reason (thr E) l thread),
        xr_description = Some (thread_stop_description (thr E) l thread), xr_break_mode = ''always''\<rparr>))"

section \<open>Modules\<close>

definition module_id_of :: "'l env \<Rightarrow> 'l \<Rightarrow> sbmodule \<Rightarrow> string" where
  "module_id_of E l m =
     (let header_addr = module_object_header_address (mods E) l m
      in if addr_is_valid (mods E) l header_addr then show_HEX (unat (load_address (dasm E) l header_addr))
         else filespec_path (files E) l (module_file_spec (mods E) l m))"

fun join_with :: "string \<Rightarrow> string list \<Rightarrow> string" where
  "join_with sep [] = []"
| "join_with sep [s] = s"
| "join_with sep (s # t # ts) = s @ sep @ join_with sep (t # ts)"

text \<open>The end of a module: the largest end of a loaded section, on 64 bits.\<close>

definition module_range_end :: "'l env \<Rightarrow> 'l \<Rightarrow> address \<Rightarrow> sbsection list \<Rightarrow> address" where
  "module_range_end E l mod_start sections =
     fold (\<lambda>section mod_end.
        let sec_start = section_load_address (mods E) l section
        in if sec_start \<noteq> INVALID_ADDRESS then max mod_end (sec_start + of_nat (section_byte_size (mods E) l section))
           else mod_end) sections mod_start"

definition make_module_detail :: "'l env \<Rightarrow> 'l \<Rightarrow> sbmodule \<Rightarrow> dap_module" where
  "make_module_detail E l m =
     (let fs = module_file_spec (mods E) l m;
          version = module_get_version (mods E) l m;
          mod_start = load_address (dasm E) l (module_object_header_address (mods E) l m);
          mod_end = module_range_end E l mod_start (module_sections (mods E) l m);
          symbol_status = (if module_num_compile_units (mods E) l m > 0 then ''Source debug info''
                           else if module_num_symbols (mods E) l m > 0 then ''Public symbols only''
                           else ''No symbols'');
          symbol_file = module_symbol_file_spec (mods E) l m
      in default_module\<lparr>
        mod_id := ModuleString (module_id_of E l m),
        mod_name := filespec_filename (files E) l fs,
        mod_path := Some (filespec_path (files E) l fs),
        mod_version := (if version \<noteq> [] then Some (join_with ''.'' (map (\<lambda>v. show_nat (unat v)) version)) else None),
        mod_address_range := Some (show_HEX (unat mod_start) @ '' - '' @ show_HEX (unat mod_end)),
        mod_symbol_status := Some symbol_status,
        mod_symbol_file_path :=
          (if filespec_is_valid (files E) l symbol_file then Some (filespec_path (files E) l symbol_file) else None)\<rparr>)"

text \<open>The loop \<^verbatim>\<open>for i in start..start + count\<close>, which ends early at the first invalid module.\<close>

function modules_from :: "'l env \<Rightarrow> 'l \<Rightarrow> int \<Rightarrow> int \<Rightarrow> dap_module list" where
  "modules_from E l i stop =
     (if i < stop then
        let m = target_module_at_index (mods E) l (as_u32 i)
        in if module_is_valid (mods E) l m then make_module_detail E l m # modules_from E l (i + 1) stop else []
      else [])"
  by pat_completeness auto
termination by (relation "measure (\<lambda>(E, l, i, stop). nat (stop - i))") auto

declare modules_from.simps [simp del]

definition handle_modules :: "'l env \<Rightarrow> modules_arguments \<Rightarrow> ('l, modules_response_body) sact" where
  "handle_modules E args =
     (let start = unwrap_or (ma_start_module args) 0;
          count = unwrap_or (ma_module_count args) i64_max
      in ask (\<lambda>l. \<lparr>mrb_modules = modules_from E l start (wrap_i64 (start + count)),
           mrb_total_modules = Some (u32_as_i64 (target_num_modules (mods E) l))\<rparr>))"

section \<open>Stack traces\<close>

definition source_position :: "'l env \<Rightarrow> sbframe \<Rightarrow> stack_frame \<Rightarrow> ('l, stack_frame) sact" where
  "source_position E frame sf =
     andThen (ask (\<lambda>l. frame_line_entry (frm E) l frame)) (\<lambda>le. case le of
       None \<Rightarrow> ret sf
     | Some entry \<Rightarrow>
         andThen (ask (\<lambda>l. line_entry_file_spec (dasm E) l entry)) (\<lambda>fs.
         andThen (map_filespec_to_local E fs) (\<lambda>local. case local of
           None \<Rightarrow> ret sf
         | Some local_path \<Rightarrow>
             andThen (lift_exec (the_exec (file_name local_path))) (\<lambda>name.
             ask (\<lambda>l. sf\<lparr>sf_line := u32_as_i64 (line_entry_line (dasm E) l entry),
                sf_column := u32_as_i64 (line_entry_column (dasm E) l entry),
                sf_source := Some (default_source\<lparr>src_name := Some name, src_path := Some (path_str local_path)\<rparr>)\<rparr>)))))"

definition disassembly_position :: "'l env \<Rightarrow> sbframe \<Rightarrow> int \<Rightarrow> stack_frame \<Rightarrow> ('l, stack_frame) sact" where
  "disassembly_position E frame i sf =
     andThen (ask (\<lambda>l. frame_pc (frm E) l frame)) (\<lambda>pc_addr.
     andThen (dasm_from_address E pc_addr) (\<lambda>r.
     andThen (reads show_disassembly) (\<lambda>mode.
     let sf = (case r of
           Inl _ \<Rightarrow> sf
         | Inr d \<Rightarrow> sf\<lparr>sf_line := u32_as_i64 (line_num_by_address d pc_addr),
             sf_source := Some (default_source\<lparr>src_name := Some (dr_source_name d),
               src_source_reference := Some (dr_handle d), src_origin := Some ''disassembly''\<rparr>)\<rparr>);
         sf = sf\<lparr>sf_column := 0\<rparr>
     in ret (if i > 0 \<and> mode \<noteq> SdAlways then sf\<lparr>sf_presentation_hint := Some FhSubtle\<rparr> else sf))))"

definition base_stack_frame :: "'l env \<Rightarrow> 'l \<Rightarrow> handle \<Rightarrow> sbframe \<Rightarrow> stack_frame" where
  "base_stack_frame E l h frame =
     (let pc_address = frame_pc_address (frm E) l frame; m = frame_module (frm E) l frame
      in default_stack_frame\<lparr>sf_id := h,
           sf_instruction_pointer_reference := Some (''0x'' @ show_HEX (unat (load_address (dasm E) l pc_address))),
           sf_name := (case frame_function_name (frm E) l frame of
                         Some name \<Rightarrow> name | None \<Rightarrow> show_HEX (unat (addr_file_address (mods E) l pc_address))),
           sf_module_id := (if module_is_valid (mods E) l m then Some (ModuleString (module_id_of E l m)) else None)\<rparr>)"

definition make_stack_frame :: "'l env \<Rightarrow> sbthread \<Rightarrow> int \<Rightarrow> sbframe \<Rightarrow> ('l, stack_frame) sact" where
  "make_stack_frame E thread i frame =
     andThen (ask (\<lambda>l. ''['' @ show_nat (unat (thread_index_id (thr E) l thread)) @ '','' @ show_int i @ '']'')) (\<lambda>key.
     andThen (create_ref None key (StackFrame frame)) (\<lambda>h.
     andThen (ask (\<lambda>l. base_stack_frame E l h frame)) (\<lambda>sf.
     andThen (in_disassembly E frame) (\<lambda>dis.
     if \<not> dis then source_position E frame sf else disassembly_position E frame i sf))))"

function stack_frames_from :: "'l env \<Rightarrow> sbthread \<Rightarrow> int \<Rightarrow> int \<Rightarrow> ('l, stack_frame list) sact" where
  "stack_frames_from E thread i stop =
     (if i < stop then
        andThen (ask (\<lambda>l. thread_frame_at_index (thr E) l thread (as_u32 i))) (\<lambda>frame.
        andThen (ask (\<lambda>l. frame_is_valid (frm E) l frame)) (\<lambda>valid.
        if \<not> valid then ret []
        else
          andThen (make_stack_frame E thread i frame) (\<lambda>sf.
          andThen (stack_frames_from E thread (i + 1) stop) (\<lambda>sfs. ret (sf # sfs)))))
      else ret [])"
  by pat_completeness auto
termination by (relation "measure (\<lambda>(E, thread, i, stop). nat (stop - i))") auto

declare stack_frames_from.simps [simp del]

definition handle_stack_trace :: "'l env \<Rightarrow> stack_trace_arguments \<Rightarrow> ('l, stack_trace_response_body) sact" where
  "handle_stack_trace E args =
     andThen (thread_by_id E (stk_thread_id args)) (\<lambda>thread.
     let start_frame = unwrap_or (stk_start_frame args) 0;
         levels = unwrap_or (stk_levels args) i64_max
     in andThen (stack_frames_from E thread start_frame (wrap_i64 (start_frame + levels))) (\<lambda>sfs.
        ret \<lparr>str_stack_frames = sfs, str_total_frames = None\<rparr>))"

section \<open>Sources and symbols\<close>

definition handle_source :: "'l env \<Rightarrow> source_arguments \<Rightarrow> ('l, source_response_body) sact" where
  "handle_source E args =
     andThen (reads (\<lambda>s. find_by_handle (disasm_ranges s) (soua_source_reference args))) (\<lambda>found.
     andThen (ok_or (str_error ''Invalid source reference'') found) (\<lambda>d.
     reads (\<lambda>s. \<lparr>srb_content = get_source_text (dasm E) (files E) (dbg s) d (max_instr_bytes s),
        srb_mime_type = Some ''text/x-lldb.disassembly''\<rparr>)))"

text \<open>One symbol of a module; \<^verbatim>\<open>None\<close> if it has no address or its name does not match the filter.\<close>

definition symbol_match :: "'l env \<Rightarrow> string \<Rightarrow> sbsymbol \<Rightarrow> ('l, symbol option) sact" where
  "symbol_match E sfilter sbsym =
     andThen (ask (\<lambda>l. symbol_start_address (dasm E) l sbsym)) (\<lambda>start_addr.
     andThen (ask (\<lambda>l. addr_is_valid (mods E) l start_addr)) (\<lambda>valid.
     andThen (ask (\<lambda>l. symbol_display_name (dasm E) l sbsym)) (\<lambda>name.
     if \<not> valid \<or> \<not> fuzzy_match (libs E) name sfilter then ret None
     else
       andThen (ask (\<lambda>l. map_option (\<lambda>m. filespec_path (files E) l (module_file_spec (mods E) l m))
                           (addr_module (mods E) l start_addr))) (\<lambda>m.
       andThen (ask (\<lambda>l. addr_line_entry (dasm E) l start_addr)) (\<lambda>le.
       andThen (case le of
           None \<Rightarrow> ret None
         | Some entry \<Rightarrow>
             andThen (ask (\<lambda>l. line_entry_file_spec (dasm E) l entry)) (\<lambda>fs.
             andThen (map_filespec_to_local E fs) (\<lambda>local. case local of
               None \<Rightarrow> ret None
             | Some local_path \<Rightarrow>
                 ask (\<lambda>l. Some (\<lparr>ts_path = path_str local_path\<rparr>, line_entry_line (dasm E) l entry))))) (\<lambda>location.
       ask (\<lambda>l. Some \<lparr>sym_name = name, sym_type = symbol_type_debug (mods E) l sbsym,
          sym_address = ''0x'' @ show_HEX (unat (load_address (dasm E) l start_addr)),
          sym_size = symbol_size (mods E) l sbsym, sym_module = m, sym_location = location\<rparr>)))))))"

text \<open>
  The two nested loops run over the symbols of all modules in order; the check of the limit comes
  after each symbol.
\<close>

fun collect_symbols :: "'l env \<Rightarrow> symbols_request \<Rightarrow> sbsymbol list \<Rightarrow> symbol list \<Rightarrow> ('l, symbol list) sact" where
  "collect_symbols E args [] symbols = ret symbols"
| "collect_symbols E args (sbsym # syms) symbols =
     andThen (symbol_match E (sr_filter args) sbsym) (\<lambda>found.
     let symbols = (case found of Some x \<Rightarrow> symbols @ [x] | None \<Rightarrow> symbols)
     in if length symbols \<ge> unat (sr_max_results args) then ret symbols
        else collect_symbols E args syms symbols)"

definition handle_symbols :: "'l env \<Rightarrow> symbols_request \<Rightarrow> ('l, symbols_response) sact" where
  "handle_symbols E args =
     andThen (ask (\<lambda>l. concat (map (module_symbols (mods E) l) (target_modules (mods E) l)))) (\<lambda>syms.
     andThen (collect_symbols E args syms []) (\<lambda>symbols. ret \<lparr>sr_symbols = symbols\<rparr>))"

section \<open>A page of the stack\<close>

text \<open>Finding out where a frame is leaves the debugger and the references alone.\<close>

lemma keeps_ensure_absolute_path: "keeps P (ensure_absolute_path p)"
  unfolding ensure_absolute_path_def by (intro inv_intros)

lemma keeps_map_filespec:
  assumes "\<And>s c. P s \<Longrightarrow> P (s\<lparr>source_map_cache := c\<rparr>)"
  shows "keeps P (map_filespec_to_local E fs)"
  unfolding map_filespec_to_local_def by (intro inv_intros assms keeps_ensure_absolute_path)

lemma keeps_in_disassembly:
  assumes "\<And>s c. P s \<Longrightarrow> P (s\<lparr>source_map_cache := c\<rparr>)"
  shows "keeps P (in_disassembly E frame)"
  unfolding in_disassembly_def
  by (intro inv_intros) (auto split: show_disassembly.split intro!: inv_intros keeps_map_filespec assms)

lemma keeps_dasm_from_address:
  assumes "\<And>s rs. P s \<Longrightarrow> P (s\<lparr>disasm_ranges := rs\<rparr>)"
  shows "keeps P (dasm_from_address E a)"
  using assms by (auto simp: keeps_def dasm_from_address_def split: prod.splits)

lemma keeps_source_position:
  assumes "\<And>s c. P s \<Longrightarrow> P (s\<lparr>source_map_cache := c\<rparr>)"
  shows "keeps P (source_position E frame sf)"
  unfolding source_position_def by (intro inv_intros keeps_map_filespec assms)

lemma keeps_disassembly_position:
  assumes "\<And>s rs. P s \<Longrightarrow> P (s\<lparr>disasm_ranges := rs\<rparr>)"
  shows "keeps P (disassembly_position E frame i sf)"
  unfolding disassembly_position_def by (intro inv_intros keeps_dasm_from_address assms)

lemma source_position_id: "source_position E frame sf s = Done (Inr sf', s') \<Longrightarrow> sf_id sf' = sf_id sf"
  by (auto simp: source_position_def act_step act_eval andThen_ok split: option.splits)

lemma disassembly_position_id: "disassembly_position E frame i sf s = Done (Inr sf', s') \<Longrightarrow> sf_id sf' = sf_id sf"
  by (auto simp: disassembly_position_def act_step act_eval Let_def split: prod.splits sum.splits if_splits)

lemma base_stack_frame_id [simp]: "sf_id (base_stack_frame E l h frame) = h"
  by (simp add: base_stack_frame_def Let_def)

lemma make_stack_frame_effect:
  assumes "make_stack_frame E thread i frame s = Done (Inr sf, s')"
  shows "\<exists>k. create (var_refs s) None k (StackFrame frame) = Done (sf_id sf, var_refs s') \<and> dbg s' = dbg s"
proof -
  let ?key = "''['' @ show_nat (unat (thread_index_id (thr E) (dbg s) thread)) @ '','' @ show_int i @ '']''"
  obtain h t where c: "create (var_refs s) None ?key (StackFrame frame) = Done (h, t)"
    using assms by (auto simp: make_stack_frame_def act_step split: exec.splits)
  let ?s = "s\<lparr>var_refs := t\<rparr>"
  let ?P = "\<lambda>u. var_refs u = t \<and> dbg u = dbg s"
  let ?sf = "base_stack_frame E (dbg s) h frame"
  obtain s1 dis where dis: "in_disassembly E frame ?s = Done (Inr dis, s1)"
    and pos: "(if \<not> dis then source_position E frame ?sf else disassembly_position E frame i ?sf) s1 = Done (Inr sf, s')"
    using assms c by (auto simp: make_stack_frame_def act_step andThen_ok cong: if_cong)
  have "keeps ?P (in_disassembly E frame)" by (rule keeps_in_disassembly) simp
  from keepsD [OF this _ dis] have "?P s1" by simp
  have "?P s' \<and> sf_id sf = h"
  proof (cases dis)
    case True
    then have d: "disassembly_position E frame i ?sf s1 = Done (Inr sf, s')" using pos by simp
    have "keeps ?P (disassembly_position E frame i ?sf)" by (rule keeps_disassembly_position) simp
    from keepsD [OF this \<open>?P s1\<close> d] disassembly_position_id [OF d] show ?thesis by simp
  next
    case False
    then have d: "source_position E frame ?sf s1 = Done (Inr sf, s')" using pos by simp
    have "keeps ?P (source_position E frame ?sf)" by (rule keeps_source_position) simp
    from keepsD [OF this \<open>?P s1\<close> d] source_position_id [OF d] show ?thesis by simp
  qed
  then show ?thesis using c by auto
qed

text \<open>The indices the loop visits before it meets the end of the range or an invalid frame.\<close>

definition valid_indices :: "'l env \<Rightarrow> 'l \<Rightarrow> sbthread \<Rightarrow> int \<Rightarrow> int \<Rightarrow> int list" where
  "valid_indices E l thread i stop =
     takeWhile (\<lambda>j. frame_is_valid (frm E) l (thread_frame_at_index (thr E) l thread (as_u32 j))) [i..stop - 1]"

lemma valid_indices_step:
  "i < stop \<Longrightarrow> valid_indices E l thread i stop =
     (if frame_is_valid (frm E) l (thread_frame_at_index (thr E) l thread (as_u32 i))
      then i # valid_indices E l thread (i + 1) stop else [])"
  by (simp add: valid_indices_def upto.simps [of i "stop - 1"])

lemma create_keeps_live:
  assumes "ht_inv t" "next_handle_value t < i64_max" "create t p k v = Done (h, t')" "get t h' = Some v'"
  shows "get t' h' = Some v'"
  using create_outcome(1,2) [OF assms(1-3)] assms(4) by (auto simp: get_def split: option.splits)

lemma stack_frames_from_effect:
  assumes "stack_frames_from E thread i stop s = Done (Inr sfs, s')" "ht_inv (var_refs s)"
    and "next_handle_value (var_refs s) + int (length sfs) < i64_max"
  shows "length sfs = length (valid_indices E (dbg s) thread i stop) \<and> ht_inv (var_refs s') \<and>
    (\<forall>h v. get (var_refs s) h = Some v \<longrightarrow> get (var_refs s') h = Some v) \<and>
    list_all2 (\<lambda>sf j. get (var_refs s') (sf_id sf) =
        Some (StackFrame (thread_frame_at_index (thr E) (dbg s) thread (as_u32 j))))
      sfs (valid_indices E (dbg s) thread i stop)"
  using assms
proof (induction "nat (stop - i)" arbitrary: i s sfs)
  case 0
  then show ?case by (simp add: stack_frames_from.simps valid_indices_def act_eval)
next
  case (Suc n)
  let ?frame = "thread_frame_at_index (thr E) (dbg s) thread (as_u32 i)"
  have i: "i < stop" using Suc.hyps(2) by simp
  show ?case
  proof (cases "frame_is_valid (frm E) (dbg s) ?frame")
    case False
    then show ?thesis using Suc.prems i
      by (subst (asm) stack_frames_from.simps) (simp add: act_step act_eval valid_indices_step)
  next
    case True
    then obtain sf s1 rest where m: "make_stack_frame E thread i ?frame s = Done (Inr sf, s1)"
      and r: "stack_frames_from E thread (i + 1) stop s1 = Done (Inr rest, s')" and sfs: "sfs = sf # rest"
      using Suc.prems(1) i by (subst (asm) stack_frames_from.simps) (auto simp: act_step act_eval andThen_ok)
    obtain k where c: "create (var_refs s) None k (StackFrame ?frame) = Done (sf_id sf, var_refs s1)" and d: "dbg s1 = dbg s"
      using make_stack_frame_effect [OF m] by blast
    have room: "next_handle_value (var_refs s) < i64_max" using Suc.prems(3) by simp
    note inv1 = create_inv [OF Suc.prems(2) room c]
    have "next_handle_value (var_refs s1) + int (length rest) < i64_max"
      using create_next(2) [OF Suc.prems(2) room c] Suc.prems(3) sfs by simp
    note IH = Suc.hyps(1) [OF _ r inv1 this]
    have new: "get (var_refs s1) (sf_id sf) = Some (StackFrame ?frame)"
      using create_outcome(1) [OF Suc.prems(2) room c] by (simp add: get_def)
    show ?thesis
      using IH Suc.hyps(2) i True new create_keeps_live [OF Suc.prems(2) room c] sfs d
      by (auto simp: valid_indices_step)
  qed
qed

text \<open>
  Property C25.  The page of the stack that is returned is the one asked for: of the frames
  \<open>start, start + 1, \<dots>, start + n - 1\<close>, where \<open>n\<close> is the positive number of levels, it has those before the first
  invalid one, in order; each of them gets a reference that stands for that very frame, and no earlier
  reference is lost.  Without a number of levels this is the whole stack, for a page that starts at the first frame.
  (The other requests without a number of levels, and those for 0 levels, are not covered: for them see C26.)
\<close>

theorem stack_trace_page:
  assumes "handle_stack_trace E args s = Done (Inr r, s')" "ht_inv (var_refs s)"
    and "next_handle_value (var_refs s) + int (length (str_stack_frames r)) < i64_max"
    and "start = unwrap_or (stk_start_frame args) 0" "0 \<le> start"
    and "n = unwrap_or (stk_levels args) i64_max" "0 < n" "start + n \<le> i64_max"
  shows "\<exists>thread. process_thread_by_id (proc E) (dbg s) (as_u64 (stk_thread_id args)) = Some thread \<and>
    list_all2 (\<lambda>sf j. get (var_refs s') (sf_id sf) =
        Some (StackFrame (thread_frame_at_index (thr E) (dbg s) thread (as_u32 j)))) (str_stack_frames r)
      (takeWhile (\<lambda>j. frame_is_valid (frm E) (dbg s) (thread_frame_at_index (thr E) (dbg s) thread (as_u32 j)))
        [start..start + n - 1]) \<and>
    (\<forall>h v. get (var_refs s) h = Some v \<longrightarrow> get (var_refs s') h = Some v)"
proof -
  obtain thread where t: "process_thread_by_id (proc E) (dbg s) (as_u64 (stk_thread_id args)) = Some thread"
    using assms(1) by (auto simp: handle_stack_trace_def thread_by_id_def act_step split: option.splits if_splits)
  have "is_i64 (start + n)" using assms(5,7,8) by (simp add: is_i64_def i64_max_def)
  then have stop: "wrap_i64 (start + n) = start + n" by simp
  have "stack_frames_from E thread start (start + n) s = Done (Inr (str_stack_frames r), s')"
    using assms(1) t stop unfolding assms(4,6)
    by (auto simp: handle_stack_trace_def thread_by_id_def act_step act_eval andThen_ok Let_def)
  from stack_frames_from_effect [OF this assms(2,3)] t show ?thesis
    by (auto simp: valid_indices_def)
qed

text \<open>A thread with two frames, and a session that never shows disassembly.\<close>

definition sample_stack_env :: "unit env" where
  "sample_stack_env = stub_env\<lparr>
     proc := stub_process_api\<lparr>process_thread_by_id := \<lambda>_ tid. if tid = 7 then Some (SBThread 7) else None\<rparr>,
     frm := stub_frame_api\<lparr>frame_is_valid := \<lambda>_ f. f \<in> {SBFrame 0, SBFrame 1}\<rparr>\<rparr>"

definition sample_stack_session :: "unit session" where
  "sample_stack_session = (session_new () False)\<lparr>show_disassembly := SdNever\<rparr>"

lemma sample_stack_trace:
  "\<exists>r s'. handle_stack_trace sample_stack_env \<lparr>stk_thread_id = 7, stk_start_frame = None, stk_levels = Some 20\<rparr>
     sample_stack_session = Done (Inr r, s') \<and> map sf_id (str_stack_frames r) = [1001, 1002]"
proof -
  have keys: "show_nat 0 = ''0''" "show_int 0 = ''0''" "show_int 1 = ''1''" by code_simp+
  show ?thesis
    by (simp add: handle_stack_trace_def thread_by_id_def sample_stack_env_def sample_stack_session_def stub_defs
        session_new_def stack_frames_from.simps [of _ _ 0] stack_frames_from.simps [of _ _ 1] stack_frames_from.simps [of _ _ 2]
        make_stack_frame_def in_disassembly_def source_position_def act_step act_eval Let_def unwrap_or_def as_u64_def as_u32_def
        keys create_def ht_new_def create_new_handle_def wrap_i64_def base_stack_frame_def)
qed

theorem stack_trace_page_witness:
  "\<exists>r s'. handle_stack_trace sample_stack_env \<lparr>stk_thread_id = 7, stk_start_frame = None, stk_levels = Some 20\<rparr>
     sample_stack_session = Done (Inr r, s') \<and> map sf_id (str_stack_frames r) = [1001, 1002] \<and>
     length (str_stack_frames r) =
       length (takeWhile (\<lambda>j. SBFrame (unat (as_u32 j)) \<in> {SBFrame 0, SBFrame 1}) [0..19])"
proof -
  obtain r s' where h: "handle_stack_trace sample_stack_env \<lparr>stk_thread_id = 7, stk_start_frame = None, stk_levels = Some 20\<rparr>
     sample_stack_session = Done (Inr r, s')" and ids: "map sf_id (str_stack_frames r) = [1001, 1002]"
    using sample_stack_trace by auto
  have len: "length (str_stack_frames r) = 2" using arg_cong [OF ids, of length] by simp
  have inv: "ht_inv (var_refs sample_stack_session)"
    by (simp add: sample_stack_session_def session_new_def ht_inv_new)
  have room: "next_handle_value (var_refs sample_stack_session) + int (length (str_stack_frames r)) < i64_max"
    by (simp add: len sample_stack_session_def session_new_def ht_new_def i64_max_def)
  from stack_trace_page [OF h inv room refl _ refl] h ids show ?thesis
    by (auto simp: sample_stack_env_def stub_defs unwrap_or_def i64_max_def dest: list_all2_lengthD)
qed

text \<open>
  Property C26.  A page that starts after the first frame and has no limit is empty, because the end
  of its range overflows; so is a page whose limit is 0.  (For both the protocol asks for all the
  remaining frames.)
\<close>

theorem open_ended_page_empty:
  assumes "process_thread_by_id (proc E) (dbg s) (as_u64 tid) = Some thread" "0 < k" "k \<le> i64_max"
  shows "handle_stack_trace E \<lparr>stk_thread_id = tid, stk_start_frame = Some k, stk_levels = None\<rparr> s =
      Done (Inr \<lparr>str_stack_frames = [], str_total_frames = None\<rparr>, s) \<and>
    handle_stack_trace E \<lparr>stk_thread_id = tid, stk_start_frame = None, stk_levels = Some 0\<rparr> s =
      Done (Inr \<lparr>str_stack_frames = [], str_total_frames = None\<rparr>, s)"
proof -
  have e: "k + i64_max + 2 ^ 63 = (k - 1) + 2 ^ 64" by (simp add: i64_max_def)
  have "wrap_i64 (k + i64_max) = (k - 1) mod 2 ^ 64 - 2 ^ 63"
    unfolding wrap_i64_def e by (simp only: mod_add_self2)
  moreover have "(k - 1) mod 2 ^ 64 = k - 1"
    using assms(2,3) by (intro mod_pos_pos_trivial) (simp_all add: i64_max_def)
  ultimately have "\<not> k < wrap_i64 (k + i64_max)" by simp
  moreover have "wrap_i64 0 = 0" by (simp add: wrap_i64_def)
  ultimately show ?thesis
    using assms(1)
    by (simp add: handle_stack_trace_def thread_by_id_def act_step act_eval Let_def unwrap_or_def stack_frames_from.simps)
qed

theorem open_ended_page_empty_witness:
  "handle_stack_trace sample_stack_env \<lparr>stk_thread_id = 7, stk_start_frame = Some 1, stk_levels = None\<rparr> sample_stack_session =
     Done (Inr \<lparr>str_stack_frames = [], str_total_frames = None\<rparr>, sample_stack_session)"
  using open_ended_page_empty [of sample_stack_env sample_stack_session 7 "SBThread 7" 1]
  by (simp add: sample_stack_env_def stub_defs as_u64_def i64_max_def)

end
