(* ===== verification/Session_Events.thy ===== *)
theory Session_Events
  imports Session_Inspect "HOL-Library.While_Combinator"
begin

text \<open>
  Events of the debugger (\<^verbatim>\<open>debug_session.rs\<close>): changes of the process state, output of the debuggee,
  modules coming and going, the selection of another frame, and diagnostics; and the events that the
  Python side sends.

  The loop that forwards the debuggee's output ends only when the debuggee has no more of it.  The
  result of a handler that contains it is an option, \<^const>\<open>None\<close> meaning that it does not return.
\<close>

section \<open>Events\<close>

text \<open>What the \<^verbatim>\<open>as_..._event\<close> functions of an \<^verbatim>\<open>SBEvent\<close> return.\<close>

record process_event =
  pe_state :: process_state
  pe_restarted :: bool
  pe_reasons :: "string list"

record sbevent =
  event_type :: u32
  as_process_event :: "process_event option"
  as_target_event :: "sbmodule list option"
  as_breakpoint_event :: "(sbbreakpoint \<times> u32) option"
  as_thread_event :: bool
  as_diagnostic_event :: "(string \<times> string) option"

section \<open>Process events\<close>

definition handle_state_change :: "'l env \<Rightarrow> process_event \<Rightarrow> ('l, unit) sact" where
  "handle_state_change E ev = (case pe_state ev of
      PsRunning \<Rightarrow> notify_process_running E
    | PsStepping \<Rightarrow> notify_process_running E
    | PsAttaching \<Rightarrow> notify_process_running E
    | PsLaunching \<Rightarrow> notify_process_running E
    | PsStopped \<Rightarrow>
        if pe_restarted ev then for_each (pe_reasons ev) console_message
        else notify_process_stopped E
    | PsCrashed \<Rightarrow> notify_process_stopped E
    | PsSuspended \<Rightarrow> notify_process_stopped E
    | PsExited \<Rightarrow> notify_process_terminated E
    | PsDetached \<Rightarrow> notify_process_terminated E
    | PsInvalid \<Rightarrow> ret ()
    | PsUnloaded \<Rightarrow> ret ()
    | PsConnected \<Rightarrow> ret ())"

datatype output_stream = Stdout | Stderr

fun read_stream :: "'l env \<Rightarrow> output_stream \<Rightarrow> 'l \<Rightarrow> string \<times> 'l" where
  "read_stream E Stdout l = process_read_stdout (proc E) l 1024"
| "read_stream E Stderr l = process_read_stderr (proc E) l 1024"

fun stream_category :: "output_stream \<Rightarrow> string" where
  "stream_category Stdout = ''stdout''"
| "stream_category Stderr = ''stderr''"

definition output_event :: "output_stream \<Rightarrow> string \<Rightarrow> outgoing" where
  "output_event st buffer =
     OutEvent (Ev_output (default_output_event_body\<lparr>oe_category := Some (stream_category st), oe_output := utf8_lossy buffer\<rparr>))"

definition next_read :: "'l env \<Rightarrow> output_stream \<Rightarrow> 'l session \<Rightarrow> string \<times> 'l session" where
  "next_read E st s = (case read_stream E st (dbg s) of (buffer, l) \<Rightarrow> (buffer, s\<lparr>dbg := l\<rparr>))"

definition forward_output :: "'l env \<Rightarrow> output_stream \<Rightarrow> 'l session \<Rightarrow> 'l session option" where
  "forward_output E st s =
     map_option snd
       (while_option (\<lambda>(buffer, s). buffer \<noteq> [])
          (\<lambda>(buffer, s). next_read E st (hand_over (output_event st buffer) s))
          (next_read E st s))"

definition handle_process_event :: "'l env \<Rightarrow> u32 \<Rightarrow> process_event \<Rightarrow> 'l session \<Rightarrow> 'l session exec option" where
  "handle_process_event E etype ev s =
     (case (if intersects etype Process_StateChanged then handle_state_change E ev else ret ()) s of
        Panic \<Rightarrow> Some Panic
      | Done (_, s) \<Rightarrow>
          if intersects etype (Process_STDOUT OR Process_STDERR) then
            map_option Done (forward_output E (if intersects etype Process_STDOUT then Stdout else Stderr) s)
          else Some (Done s))"

section \<open>Other events\<close>

definition module_events :: "module_reason \<Rightarrow> (sbmodule \<Rightarrow> dap_module) \<Rightarrow> sbmodule list \<Rightarrow> ('l, unit) sact" where
  "module_events reason detail ms = for_each ms (\<lambda>m. send_event (Ev_module reason (detail m)))"

definition handle_target_event :: "'l env \<Rightarrow> u32 \<Rightarrow> sbmodule list \<Rightarrow> ('l, unit) sact" where
  "handle_target_event E etype ms =
     andThen (reads dbg) (\<lambda>l.
     if intersects etype Target_ModulesLoaded then module_events ModuleNew (make_module_detail E l) ms
     else if intersects etype Target_SymbolsLoaded then module_events ModuleChanged (make_module_detail E l) ms
     else if intersects etype Target_ModulesUnloaded then
       module_events ModuleRemoved (\<lambda>m. default_module\<lparr>mod_id := ModuleString (module_id_of E l m)\<rparr>) ms
     else ret ())"

definition handle_thread_event :: "u32 \<Rightarrow> ('l, unit) sact" where
  "handle_thread_event etype =
     (if intersects etype Thread_SelectedFrameChanged then modifies (\<lambda>s. s\<lparr>selected_frame_changed := True\<rparr>)
      else ret ())"

definition handle_diagnostic_event :: "string \<Rightarrow> string \<Rightarrow> ('l, unit) sact" where
  "handle_diagnostic_event diag_type message = console_message (diag_type @ '': '' @ message)"

datatype python_event =
    SendDapEvent event_body
  | StartDebugging string "(string \<times> json) list"
  | DebuggerMessage string string

fun handle_python_event :: "python_event \<Rightarrow> ('l, unit) sact" where
  "handle_python_event (SendDapEvent ev) = send_event ev"
| "handle_python_event (StartDebugging req config) =
     modifies (hand_over_waiting (OutRequest (Req_startDebugging \<lparr>sda_configuration = config, sda_request = req\<rparr>)))"
| "handle_python_event (DebuggerMessage out category) = console_message_impl (Some category) out"

definition handle_python_message :: "'l env \<Rightarrow> json \<Rightarrow> ('l, unit) sact" where
  "handle_python_message E args =
     andThen (reads has_python) (\<lambda>python.
       if python then tell (\<lambda>l. py_handle_message (pyt E) l args) else ret ())"

section \<open>Output of the debuggee is forwarded completely and in order\<close>

text \<open>The stream yields the chunks \<open>bs\<close>, none of them empty, and has nothing more then.\<close>

fun stream_yields :: "'l env \<Rightarrow> output_stream \<Rightarrow> 'l \<Rightarrow> string list \<Rightarrow> 'l \<Rightarrow> bool" where
  "stream_yields E st l [] l' \<longleftrightarrow> read_stream E st l = ([], l')"
| "stream_yields E st l (b # bs) l' \<longleftrightarrow>
     (case read_stream E st l of (c, l1) \<Rightarrow> c = b \<and> b \<noteq> [] \<and> stream_yields E st l1 bs l')"

lemma forward_loop:
  "stream_yields E st (dbg s) bs l' \<Longrightarrow>
   while_option (\<lambda>(buffer, s). buffer \<noteq> [])
     (\<lambda>(buffer, s). next_read E st (hand_over (output_event st buffer) s)) (next_read E st s) =
   Some ([], (fold hand_over (map (output_event st) bs) s)\<lparr>dbg := l'\<rparr>)"
proof (induction bs arbitrary: s)
  case Nil
  then show ?case by (subst while_option_unfold) (simp add: next_read_def)
next
  case (Cons b bs)
  obtain l1 where r: "read_stream E st (dbg s) = (b, l1)" and b: "b \<noteq> []" and y: "stream_yields E st l1 bs l'"
    using Cons.prems by (cases "read_stream E st (dbg s)") auto
  let ?s = "hand_over (output_event st b) (s\<lparr>dbg := l1\<rparr>)"
  have "next_read E st s = (b, s\<lparr>dbg := l1\<rparr>)" using r by (simp add: next_read_def)
  moreover have "stream_yields E st (dbg ?s) bs l'" using y by (simp add: hand_over_def)
  note Cons.IH [OF this]
  moreover have "(fold hand_over (map (output_event st) bs) ?s)\<lparr>dbg := l'\<rparr> =
      (fold hand_over (map (output_event st) (b # bs)) s)\<lparr>dbg := l'\<rparr>"
    by (simp add: fold_hand_over hand_over_def)
  ultimately show ?case using b by (subst while_option_unfold) simp
qed

text \<open>
  Property C27.  When the debuggee writes and then has nothing more to read, the loop that forwards
  the output ends, and one output event per chunk has been handed to the outgoing queue, in order, under the
  category of the stream, decoded lossily; the rest of the session is unchanged.  Events that find the queue
  full or the dispatcher gone are dropped; when each finds fewer than 1000 messages waiting, all of them get into
  the queue.
\<close>

theorem output_forwarded:
  assumes "stream_yields E st (dbg s) bs l'" "etype = (case st of Stdout \<Rightarrow> Process_STDOUT | Stderr \<Rightarrow> Process_STDERR)"
    and "events = map (\<lambda>b. OutEvent (Ev_output (default_output_event_body\<lparr>
      oe_category := Some (stream_category st), oe_output := utf8_lossy b\<rparr>))) bs"
    and "founds = found_answers (length bs) (queue_answers s)"
  shows "\<exists>s'. handle_process_event E etype ev s = Some (Done s') \<and>
    s' = s\<lparr>dbg := l', outgoing := outgoing s @ zip events founds, queue_answers := drop (length bs) (queue_answers s)\<rparr> \<and>
    (list_all (\<lambda>found. \<exists>waiting < 1000. found = Some waiting) founds \<longrightarrow>
      queued_messages (outgoing s') = queued_messages (outgoing s) @ events)"
proof -
  have bits: "\<not> intersects etype Process_StateChanged" "intersects etype (Process_STDOUT OR Process_STDERR)"
    "intersects etype Process_STDOUT \<longleftrightarrow> st = Stdout"
    by (cases st; simp add: assms(2) intersects_def Process_StateChanged_def Process_STDOUT_def Process_STDERR_def)+
  have st: "(if intersects etype Process_STDOUT then Stdout else Stderr) = st"
    using bits(3) by (cases st) simp_all
  have ev: "map (output_event st) bs = events" by (simp add: assms(3) output_event_def)
  have len: "length events = length bs" "length founds = length bs" by (simp_all add: assms(3,4))
  let ?s = "s\<lparr>dbg := l', outgoing := outgoing s @ zip events founds, queue_answers := drop (length bs) (queue_answers s)\<rparr>"
  have "handle_process_event E etype ev s = Some (Done ?s)"
    using forward_loop [OF assms(1)] bits(1,2) ev len
    by (simp add: handle_process_event_def act_eval forward_output_def st fold_hand_over assms(4))
  moreover have "queued_messages (zip events founds) = events"
    if "list_all (\<lambda>found. \<exists>waiting < 1000. found = Some waiting) founds"
  proof -
    have "list_all queue_accepts (map snd (zip events founds))"
      using that len by (auto simp: list_all_iff queue_capacity_def)
    then show ?thesis using len by (simp add: queued_messages_all)
  qed
  ultimately show ?thesis by auto
qed

text \<open>A debuggee whose output is a list of chunks.\<close>

definition sample_output_env :: "string list env" where
  "sample_output_env = stub_env\<lparr>proc := stub_process_api\<lparr>
     process_read_stdout := \<lambda>l _. (case l of [] \<Rightarrow> ([], []) | b # bs \<Rightarrow> (b, bs))\<rparr>\<rparr>"

theorem output_forwarded_witness:
  "\<exists>s'. handle_process_event sample_output_env Process_STDOUT \<lparr>pe_state = PsRunning, pe_restarted = False, pe_reasons = []\<rparr>
     (session_new [''a'', ''b''] False) = Some (Done s') \<and>
   queued_messages (outgoing s') = map (\<lambda>b. OutEvent (Ev_output (default_output_event_body\<lparr>
      oe_category := Some ''stdout'', oe_output := utf8_lossy b\<rparr>))) [''a'', ''b'']"
  using output_forwarded [of sample_output_env Stdout "session_new [''a'', ''b''] False" "[''a'', ''b'']" "[]" Process_STDOUT
      "map (\<lambda>b. OutEvent (Ev_output (default_output_event_body\<lparr>oe_category := Some ''stdout'', oe_output := utf8_lossy b\<rparr>))) [''a'', ''b'']"]
  by (simp add: sample_output_env_def stub_defs session_new_def queued_messages_def queue_capacity_def numeral_2_eq_2 next_found_def)

end
