(* ===== verification/Variables.thy ===== *)
theory Variables
  imports Session_Events
begin

text \<open>
  Scopes, variables and the evaluation of expressions, \<^verbatim>\<open>debug_session/variables.rs\<close>.  Frames, scopes and
  structured values are containers in the tree of references; the name under which a child can be
  evaluated is composed from the keys on the path to it.

  Summaries and lists of children stop when the request is cancelled or its time is up; both are
  asked of the session's \<open>is_cancelled_now\<close> and \<open>elapsed\<close>.
\<close>

section \<open>Names and hints\<close>

definition compose_eval_name :: "string \<Rightarrow> string \<Rightarrow> string" where
  "compose_eval_name pre suf =
     (if pre = [] then suf
      else if suf = [] then pre
      else if starts_with suf ''['' then pre @ suf
      else pre @ ''.'' @ suf)"

definition presentation_hint :: "string list \<Rightarrow> variable_hint" where
  "presentation_hint attributes = VariableHint None attributes None"

text \<open>The walk from a container up to its scope.\<close>

partial_function (option) eval_name_loop ::
  "'l env \<Rightarrow> 'l \<Rightarrow> container handle_tree \<Rightarrow> handle option \<Rightarrow> string \<Rightarrow> string exec option" where
  "eval_name_loop E l t container_handle eval_name =
     (case container_handle of
        None \<Rightarrow> Some (Done eval_name)
      | Some h \<Rightarrow>
          (case get_full_info t h of
             None \<Rightarrow> Some Panic
           | Some info \<Rightarrow>
               (case snd (snd info) of
                  SBVal var \<Rightarrow>
                    if value_value_type (val E) l var \<noteq> VtRegisterSet
                    then eval_name_loop E l t (fst info) (compose_eval_name (fst (snd info)) eval_name)
                    else Some (Done eval_name)
                | _ \<Rightarrow> Some (Done eval_name))))"

text \<open>A handler cannot return a result if the walk does not; this too is \<^const>\<open>Panic\<close>.\<close>

definition compose_container_eval_name :: "'l env \<Rightarrow> handle \<Rightarrow> ('l, string) sact" where
  "compose_container_eval_name E h =
     andThen (reads (\<lambda>s. eval_name_loop E (dbg s) (var_refs s) (Some h) []))
       (\<lambda>r. lift_exec (case r of None \<Rightarrow> Panic | Some x \<Rightarrow> x))"

section \<open>Summaries\<close>

fun summary_loop :: "'l env \<Rightarrow> bool \<Rightarrow> sbvalue list \<Rightarrow> string \<Rightarrow> string \<Rightarrow> ('l, string) sact" where
  "summary_loop E unlimited [] summary sep = ret summary"
| "summary_loop E unlimited (child # children) summary sep =
     andThen is_cancelled_now (\<lambda>cancelled.
     andThen (reads max_summary_length) (\<lambda>max_len.
     andThen (reads summary_timeout) (\<lambda>timeout.
     andThen (if cancelled then ret True
              else if unlimited then ret False
              else if length summary > max_len then ret True
              else andThen elapsed (\<lambda>t. ret (t > unat timeout * 1000000))) (\<lambda>should_stop.
     if should_stop then ret (summary @ sep @ ''...'')
     else
       andThen (ask (\<lambda>l. (value_name (val E) l child,
                 case value_summary (val E) l child of Some t \<Rightarrow> Some t | None \<Rightarrow> value_value (val E) l child)))
         (\<lambda>(name, text). case (name, text) of
            (Some name, Some text) \<Rightarrow>
              if utf8_valid text then
                summary_loop E unlimited children
                  (summary @ sep @ (if starts_with name ''['' then text else name @ '':'' @ text)) '', ''
              else summary_loop E unlimited children summary sep
          | _ \<Rightarrow> summary_loop E unlimited children summary sep)))))"

definition get_container_summary :: "'l env \<Rightarrow> sbvalue \<Rightarrow> bool \<Rightarrow> ('l, string) sact" where
  "get_container_summary E var unlimited =
     andThen (ask (\<lambda>l. value_children (val E) l var)) (\<lambda>children.
     andThen (summary_loop E unlimited children ''{'' []) (\<lambda>summary.
     ret ((if length summary \<le> 1 then summary @ ''...'' else summary) @ ''}'')))"

definition pointer_like :: u32 where
  "pointer_like = (TypeClass_Pointer OR TypeClass_Reference)"

definition try_deref_pointer :: "'l env \<Rightarrow> 'l \<Rightarrow> sbvalue \<Rightarrow> (string, sbvalue option) either" where
  "try_deref_pointer E l ptr =
     (let pointee_type = type_pointee (typs E) l (value_get_type (val E) l ptr);
          own_summary = (if value_is_synthetic (val E) l ptr \<or> type_basic_type (typs E) l pointee_type \<noteq> BtInvalid
                         then value_summary (val E) l ptr else None)
      in case own_summary of
           Some text \<Rightarrow> First (utf8_lossy text)
         | None \<Rightarrow>
             if value_as_unsigned (val E) l ptr 0 = 0 then First ''<null>''
             else
               let pointee = value_dereference (val E) l ptr
               in if value_is_valid (val E) l pointee then
                    if value_data_size (val E) l pointee > 0 then
                      (case (if intersects (type_class_flags (typs E) l pointee_type) pointer_like
                             then value_value (val E) l pointee else None) of
                         Some text \<Rightarrow> First (''{'' @ utf8_lossy text @ ''}'')
                       | None \<Rightarrow> Second (Some pointee))
                    else First ''<invalid address>''
                  else
                    (case process_read_memory (dasm E) l (value_as_unsigned (val E) l ptr 0) 1 of
                       Inr buff \<Rightarrow> if length buff = 1 then Second None else First ''<invalid address>''
                     | Inl _ \<Rightarrow> First ''<invalid address>''))"

definition plain_summary :: "'l env \<Rightarrow> sbvalue \<Rightarrow> bool \<Rightarrow> ('l, string) sact" where
  "plain_summary E var unlimited =
     andThen (reads dbg) (\<lambda>l.
     case value_summary (val E) l var of
       Some text \<Rightarrow> ret (utf8_lossy text)
     | None \<Rightarrow>
         (case value_value (val E) l var of
            Some text \<Rightarrow> ret (utf8_lossy text)
          | None \<Rightarrow>
              if value_might_have_children (val E) l var \<and> value_num_children (val E) l var > 0
              then get_container_summary E var unlimited
              else ret ''<not available>''))"

definition get_var_summary :: "'l env \<Rightarrow> sbvalue \<Rightarrow> bool \<Rightarrow> ('l, string) sact" where
  "get_var_summary E var unlimited =
     andThen (reads dbg) (\<lambda>l.
     let var_type = value_get_type (val E) l var in
     if type_basic_type (typs E) l var_type = BtVoid then ret ''()''
     else case value_error (val E) l var of
       Some err \<Rightarrow> ret (''<'' @ err @ ''>'')
     | None \<Rightarrow>
         andThen (reads deref_pointers) (\<lambda>deref.
         if deref \<and> value_format (val E) l var = FDefault \<and>
            intersects (type_class_flags (typs E) l var_type) pointer_like
         then
           (case try_deref_pointer E l var of
              First summary \<Rightarrow> ret summary
            | Second (Some pointee) \<Rightarrow> plain_summary E pointee unlimited
            | Second None \<Rightarrow> plain_summary E var unlimited)
         else plain_summary E var unlimited))"

section \<open>Variables\<close>

definition get_var_handle :: "'l env \<Rightarrow> handle option \<Rightarrow> string \<Rightarrow> sbvalue \<Rightarrow> ('l, handle option) sact" where
  "get_var_handle E parent_handle key var =
     andThen (ask (\<lambda>l. value_num_children (val E) l var > 0 \<or> value_is_synthetic (val E) l var)) (\<lambda>structured.
       if structured then andThen (create_ref parent_handle key (SBVal var)) (\<lambda>h. ret (Some h)) else ret None)"

definition hex_ref :: "u64 \<Rightarrow> string" where
  "hex_ref a = ''0x'' @ show_HEX (unat a)"

definition get_mem_ref_for_var :: "'l env \<Rightarrow> sbvalue \<Rightarrow> ('l, string option) sact" where
  "get_mem_ref_for_var E var =
     andThen (reads client_caps) (\<lambda>caps.
     andThen (lift_exec (mi_deref caps)) (\<lambda>c.
     if ia_supports_memory_references c \<noteq> Some True then ret None
     else ask (\<lambda>l.
       if value_value_type (val E) l var = VtRegister \<or> type_is_pointer (typs E) l (value_get_type (val E) l var)
       then Some (hex_ref (value_as_unsigned (val E) l var 0))
       else let load_addr = value_load_address (val E) l var
            in if load_addr = INVALID_ADDRESS then None else Some (hex_ref load_addr))))"

definition is_settable :: "basic_type \<Rightarrow> bool" where
  "is_settable t \<longleftrightarrow> t \<in> {BtChar, BtSignedChar, BtUnsignedChar, BtWChar, BtSignedWChar, BtUnsignedWChar,
     BtChar16, BtChar32, BtShort, BtUnsignedShort, BtInt, BtUnsignedInt, BtLong, BtUnsignedLong,
     BtLongLong, BtUnsignedLongLong, BtInt128, BtUnsignedInt128, BtBool, BtHalf, BtFloat, BtDouble,
     BtLongDouble}"

definition var_to_variable :: "'l env \<Rightarrow> sbvalue \<Rightarrow> string \<Rightarrow> handle option \<Rightarrow> ('l, variable) sact" where
  "var_to_variable E var container_eval_name container_handle =
     andThen (ask (\<lambda>l. unwrap_or (value_name (val E) l var) [])) (\<lambda>name.
     andThen (ask (\<lambda>l. value_display_type_name (val E) l var)) (\<lambda>dtype.
     andThen (reads global_format) (\<lambda>fmt.
     andThen (if fmt \<noteq> FDefault then tell (\<lambda>l. value_set_format (val E) l var fmt) else ret ()) (\<lambda>_.
     andThen (get_var_summary E var False) (\<lambda>value.
     andThen (get_var_handle E container_handle name var) (\<lambda>h.
     andThen (ask (\<lambda>l. if value_prefer_synthetic (val E) l var
                        then Some (compose_eval_name container_eval_name name)
                        else map_option (\<lambda>p. ''/nat '' @ p) (value_expression_path (val E) l var))) (\<lambda>eval_name.
     andThen (get_mem_ref_for_var E var) (\<lambda>mem_ref.
     ask (\<lambda>l. default_variable\<lparr>var_name := name, var_value := value, var_type := dtype,
        var_variables_reference := unwrap_or h 0, var_evaluate_name := eval_name,
        var_memory_reference := mem_ref,
        var_presentation_hint :=
          (if is_settable (type_basic_type (typs E) l (value_get_type (val E) l var)) then None
           else Some (presentation_hint [''readOnly'']))\<rparr>)))))))))"

text \<open>With \<open>dedup\<close>, a variable replaces the earlier one of the same name.\<close>

definition push_variable :: "bool \<Rightarrow> variable \<Rightarrow> variable list \<times> (string \<times> nat) list \<Rightarrow> variable list \<times> (string \<times> nat) list" where
  "push_variable dedup v = (\<lambda>(vs, idx).
     if dedup then
       (case hm_get idx (var_name v) of
          Some i \<Rightarrow> (vs[i := v], idx)
        | None \<Rightarrow> (vs @ [v], hm_insert (var_name v) (length vs) idx))
     else (vs @ [v], idx))"

definition timed_out_variable :: variable where
  "timed_out_variable = default_variable\<lparr>var_name := ''[timed out]'',
     var_type := Some ''Expansion of this list has timed out.'',
     var_presentation_hint := Some (presentation_hint [''readOnly'', ''virtual''])\<rparr>"

fun convert_loop :: "'l env \<Rightarrow> sbvalue list \<Rightarrow> string \<Rightarrow> handle option \<Rightarrow> bool \<Rightarrow> variable list \<times> (string \<times> nat) list \<Rightarrow>
    ('l, variable list) sact" where
  "convert_loop E [] container_eval_name container_handle dedup acc = ret (fst acc)"
| "convert_loop E (var # vars) container_eval_name container_handle dedup acc =
     andThen (var_to_variable E var container_eval_name container_handle) (\<lambda>v.
     let acc = push_variable dedup v acc in
     andThen is_cancelled_now (\<lambda>cancelled.
     if cancelled then bail (blame_user (str_error ''<cancelled>''))
     else
       andThen elapsed (\<lambda>t.
       andThen (reads evaluation_timeout) (\<lambda>timeout.
       if t > unat timeout * 1000000 then
         andThen (console_error ''Child list expansion has timed out.'') (\<lambda>_. ret (fst acc @ [timed_out_variable]))
       else convert_loop E vars container_eval_name container_handle dedup acc))))"

definition convert_scope_values :: "'l env \<Rightarrow> sbvalue list \<Rightarrow> string \<Rightarrow> handle option \<Rightarrow> bool \<Rightarrow> ('l, variable list) sact" where
  "convert_scope_values E vars container_eval_name container_handle dedup =
     convert_loop E vars container_eval_name container_handle dedup ([], [])"

section \<open>Requests\<close>

definition make_scope :: "handle \<Rightarrow> string \<Rightarrow> string \<Rightarrow> container \<Rightarrow> ('l, scope) sact" where
  "make_scope frame_id key name c =
     andThen (create_ref (Some frame_id) key c) (\<lambda>h.
       ret (default_scope\<lparr>sc_name := name, sc_variables_reference := h, sc_expensive := False\<rparr>))"

definition handle_scopes :: "scopes_arguments \<Rightarrow> ('l, scope list) sact" where
  "handle_scopes args =
     andThen (reads (\<lambda>s. get (var_refs s) (sca_frame_id args))) (\<lambda>found. case found of
       Some (StackFrame frame) \<Rightarrow>
         andThen (make_scope (sca_frame_id args) ''[locs]'' ''Local'' (Locals frame)) (\<lambda>locals.
         andThen (make_scope (sca_frame_id args) ''[stat]'' ''Static'' (Statics frame)) (\<lambda>statics.
         andThen (make_scope (sca_frame_id args) ''[glob]'' ''Global'' (Globals frame)) (\<lambda>globals.
         andThen (make_scope (sca_frame_id args) ''[regs]'' ''Registers'' (Registers frame)) (\<lambda>registers.
         ret [locals, statics, globals, registers]))))
     | _ \<Rightarrow> bail (StrError (''Invalid frame reference: '' @ show_int (sca_frame_id args))))"

definition local_variables :: "'l env \<Rightarrow> handle \<Rightarrow> sbframe \<Rightarrow> ('l, variable list) sact" where
  "local_variables E h frame =
     andThen (ask (\<lambda>l. thread_stop_return_value (thr E) l (frame_thread (frm E) l frame))) (\<lambda>ret_val.
     andThen (ask (\<lambda>l. frame_variables (frm E) l frame
        \<lparr>vo_arguments = True, vo_locals = True, vo_statics = False, vo_in_scope_only = True\<rparr>)) (\<lambda>vars.
     andThen (convert_scope_values E vars [] (Some h) True) (\<lambda>variables. case ret_val of
       None \<Rightarrow> ret variables
     | Some rv \<Rightarrow>
         andThen (var_to_variable E rv [] (Some h)) (\<lambda>v.
           ret (v\<lparr>var_name := ''[return value]''\<rparr> # variables)))))"

definition static_variables :: "'l env \<Rightarrow> handle \<Rightarrow> sbframe \<Rightarrow> value_type \<Rightarrow> ('l, variable list) sact" where
  "static_variables E h frame vt =
     andThen (ask (\<lambda>l. filter (\<lambda>v. value_value_type (val E) l v = vt) (frame_variables (frm E) l frame
        \<lparr>vo_arguments = False, vo_locals = False, vo_statics = True, vo_in_scope_only = True\<rparr>))) (\<lambda>vars.
     convert_scope_values E vars [] (Some h) False)"

definition value_variables :: "'l env \<Rightarrow> handle \<Rightarrow> sbvalue \<Rightarrow> ('l, variable list) sact" where
  "value_variables E h var =
     andThen (compose_container_eval_name E h) (\<lambda>container_eval_name.
     andThen (ask (\<lambda>l. value_children (val E) l var)) (\<lambda>vars.
     andThen (convert_scope_values E vars container_eval_name (Some h) False) (\<lambda>variables.
     andThen (ask (\<lambda>l. value_is_synthetic (val E) l var)) (\<lambda>synthetic.
     if synthetic then
       andThen (ask (\<lambda>l. value_non_synthetic (val E) l var)) (\<lambda>raw_var.
       andThen (create_ref (Some h) ''[raw]'' (SBVal raw_var)) (\<lambda>rh.
       ask (\<lambda>l. variables @ [default_variable\<lparr>var_name := ''[raw]'',
          var_value := unwrap_or (value_type_name (val E) l var) [], var_variables_reference := rh,
          var_presentation_hint := Some (presentation_hint [''readOnly'', ''virtual''])\<rparr>])))
     else ret variables))))"

definition handle_variables :: "'l env \<Rightarrow> variables_arguments \<Rightarrow> ('l, variable list) sact" where
  "handle_variables E args =
     (let h = va_variables_reference args in
      andThen (reads (\<lambda>s. get (var_refs s) h)) (\<lambda>found.
      andThen (ok_or (str_error ''Invalid variabes reference'') found) (\<lambda>c. case c of
        Locals frame \<Rightarrow> local_variables E h frame
      | Statics frame \<Rightarrow> static_variables E h frame VtVariableStatic
      | Globals frame \<Rightarrow> static_variables E h frame VtVariableGlobal
      | Registers frame \<Rightarrow>
          andThen (ask (\<lambda>l. frame_registers (frm E) l frame)) (\<lambda>regs.
            convert_scope_values E regs [] (Some h) False)
      | SBVal var \<Rightarrow> value_variables E h var
      | StackFrame _ \<Rightarrow> ret [])))"

section \<open>Evaluation\<close>

text \<open>\<^verbatim>\<open>SBValue::into_result\<close>.\<close>

definition value_result :: "'l env \<Rightarrow> 'l \<Rightarrow> sbvalue \<Rightarrow> string + sbvalue" where
  "value_result E l v = (case value_error (val E) l v of Some e \<Rightarrow> Inl e | None \<Rightarrow> Inr v)"

definition evaluate_native :: "'l env \<Rightarrow> string \<Rightarrow> sbframe option \<Rightarrow> ('l, sbvalue) sact" where
  "evaluate_native E expr frame =
     andThen (run (\<lambda>l. case frame of
         Some f \<Rightarrow> frame_evaluate_expression (frm E) l f expr
       | None \<Rightarrow> target_evaluate_expression (frm E) l expr)) (\<lambda>v.
     andThen (ask (\<lambda>l. value_result E l v)) (\<lambda>r. case r of
       Inl err \<Rightarrow> bail (blame_user (StrError err))
     | Inr x \<Rightarrow> ret x))"

definition evaluate_python :: "'l env \<Rightarrow> string \<Rightarrow> eval_context \<Rightarrow> sbframe option \<Rightarrow> ('l, sbvalue) sact" where
  "evaluate_python E expr ctx frame =
     andThen (attempt (\<lambda>l. compile_code (pyt E) l expr ''<input>'')) (\<lambda>r. case r of
       Inl err \<Rightarrow> bail (blame_user (StrError err))
     | Inr pycode \<Rightarrow>
         andThen (attempt (\<lambda>l. py_evaluate (pyt E) l pycode frame ctx)) (\<lambda>r2. case r2 of
           Inl err \<Rightarrow> bail (blame_user (StrError err))
         | Inr x \<Rightarrow> ret x))"

definition evaluate_expr_in_frame :: "'l env \<Rightarrow> prepared_expression \<Rightarrow> sbframe option \<Rightarrow> ('l, sbvalue) sact" where
  "evaluate_expr_in_frame E expression frame =
     andThen (reads has_python) (\<lambda>python.
     case expression of
       PNative expr \<Rightarrow> evaluate_native E expr frame
     | PPython expr \<Rightarrow>
         if python then evaluate_python E expr PythonExpressionContext frame
         else bail (blame_user (StrError ''Python expressions are disabled.''))
     | PSimple expr \<Rightarrow>
         if python then evaluate_python E expr SimpleExpressionContext frame
         else bail (blame_user (StrError ''Python expressions are disabled.'')))"

text \<open>Reinterpreting a value as an array of \<open>count\<close> elements.\<close>

definition as_array :: "'l env \<Rightarrow> sbvalue \<Rightarrow> u32 \<Rightarrow> ('l, sbvalue) sact" where
  "as_array E v count =
     andThen (reads dbg) (\<lambda>l.
     let var_type = value_get_type (val E) l v;
         type_flags = type_class_flags (typs E) l var_type;
         element_type = (if intersects type_flags pointer_like then type_pointee (typs E) l var_type
                         else if intersects type_flags TypeClass_Array then type_array_element (typs E) l var_type
                         else var_type);
         array_type = type_array_of (typs E) l element_type (ucast count)
     in andThen (if intersects type_flags pointer_like
                 then lift_result (case value_result E l (value_dereference (val E) l v) of
                        Inl err \<Rightarrow> Inl (StrError err) | Inr pointee \<Rightarrow> Inr pointee)
                 else ret v) (\<lambda>target.
        andThen (ok_or (str_error ''No address'') (value_address (val E) l target)) (\<lambda>addr.
        run (\<lambda>l. create_value_from_address (val E) l ''(as array)'' addr array_type))))"

definition apply_format_spec :: "'l env \<Rightarrow> sbvalue \<Rightarrow> format_spec \<Rightarrow> ('l, sbvalue) sact" where
  "apply_format_spec E v spec =
     andThen (case fs_array spec of Some count \<Rightarrow> as_array E v count | None \<Rightarrow> ret v) (\<lambda>v.
     andThen (reads global_format) (\<lambda>fmt.
     andThen (tell (\<lambda>l. value_set_format (val E) l v (unwrap_or (fs_format spec) fmt))) (\<lambda>_. ret v)))"

text \<open>\<^verbatim>\<open>prepare_with_format(...)\<close>, whose error is a message.\<close>

definition prepared :: "'l env \<Rightarrow> string \<Rightarrow> ('l, string + (prepared_expression \<times> format_spec)) sact" where
  "prepared E expression =
     andThen (reads default_expr_type) (\<lambda>ty. lift_exec (prepare_with_format (noms E) expression ty))"

definition blaming_user :: "('l, 'a) sact \<Rightarrow> ('l, 'a) sact" where
  "blaming_user m = onResult m (\<lambda>r. lift_result (map_err blame_user r))"

definition handle_evaluate_expression :: "'l env \<Rightarrow> string \<Rightarrow> sbframe option \<Rightarrow> bool \<Rightarrow> ('l, evaluate_response_body) sact" where
  "handle_evaluate_expression E expression frame for_clipboard =
     andThen (prepared E expression) (\<lambda>p. case p of
       Inl err \<Rightarrow> bail (blame_user (StrError err))
     | Inr (pp_expr, spec) \<Rightarrow>
         andThen (evaluate_expr_in_frame E pp_expr frame) (\<lambda>v0.
         andThen (blaming_user (apply_format_spec E v0 spec)) (\<lambda>v.
         andThen (get_var_handle E None expression v) (\<lambda>h.
         andThen (get_var_summary E v for_clipboard) (\<lambda>summary.
         andThen (ask (\<lambda>l. value_display_type_name (val E) l v)) (\<lambda>dtype.
         andThen (get_mem_ref_for_var E v) (\<lambda>mem_ref.
         ret (default_evaluate_response_body\<lparr>er_result := summary, er_type := dtype,
           er_variables_reference := unwrap_or h 0, er_memory_reference := mem_ref\<rparr>))))))))"

definition handle_execute_command :: "'l env \<Rightarrow> string \<Rightarrow> sbframe option \<Rightarrow> bool \<Rightarrow> ('l, evaluate_response_body) sact" where
  "handle_execute_command E command frame return_output =
     andThen (try_op (set_immediate_output_file (cmds E))) (\<lambda>_.
     andThen (run (\<lambda>l. case frame of
         Some f \<Rightarrow> handle_command_with_context (cmds E) l command f
       | None \<Rightarrow> handle_command (cmds E) l command)) (\<lambda>res.
     if cmd_succeeded res then
       ret (default_evaluate_response_body\<lparr>er_result :=
         (if return_output then trim_end (utf8_lossy (cmd_output res)) else [])\<rparr>)
     else bail (blame_user (StrError (trim_end (utf8_lossy (cmd_error res)))))))"

text \<open>The frame of a request: after \<^verbatim>\<open>frame select\<close>, the selected frame of its thread.\<close>

definition request_frame :: "'l env \<Rightarrow> handle option \<Rightarrow> ('l, sbframe option) sact" where
  "request_frame E frame_id = (case frame_id of
      None \<Rightarrow> ret None
    | Some h \<Rightarrow>
        andThen (reads (\<lambda>s. get (var_refs s) h)) (\<lambda>found. case found of
          Some (StackFrame frame) \<Rightarrow>
            andThen (reads selected_frame_changed) (\<lambda>changed.
              if changed then ask (\<lambda>l. Some (thread_selected_frame (thr E) l (frame_thread (frm E) l frame)))
              else ret (Some frame))
        | _ \<Rightarrow> ret None))"

text \<open>Which evaluator a request goes to.\<close>

definition evaluate_repl :: "'l env \<Rightarrow> console_mode \<Rightarrow> string \<Rightarrow> sbframe option \<Rightarrow> ('l, evaluate_response_body) sact" where
  "evaluate_repl E mode expr frame = (case mode of
      Commands \<Rightarrow>
        if starts_with expr ''?'' then handle_evaluate_expression E (drop 1 expr) frame False
        else handle_execute_command E expr frame False
    | _ \<Rightarrow>
        if starts_with expr ''`'' then handle_execute_command E (drop 1 expr) frame False
        else if starts_with expr ''/cmd '' then handle_execute_command E (drop 5 expr) frame False
        else handle_evaluate_expression E expr frame False)"

definition evaluate_in_context :: "'l env \<Rightarrow> string option \<Rightarrow> string \<Rightarrow> sbframe option \<Rightarrow> ('l, evaluate_response_body) sact" where
  "evaluate_in_context E ctx expr frame =
     (if ctx = Some ''repl'' then andThen (reads console_mode) (\<lambda>mode. evaluate_repl E mode expr frame)
      else if ctx = Some ''clipboard'' then handle_evaluate_expression E expr frame True
      else if ctx = Some ''hover'' then
        onResult (handle_evaluate_expression E expr frame False) (\<lambda>r. lift_result (map_err blame_nobody r))
      else if ctx = Some ''_command'' then handle_execute_command E expr frame True
      else handle_evaluate_expression E expr frame False)"

definition handle_evaluate :: "'l env \<Rightarrow> evaluate_arguments \<Rightarrow> ('l, response_body) sact" where
  "handle_evaluate E args =
     andThen (request_frame E (ea_frame_id args)) (\<lambda>frame.
     andThen (reads evaluate_for_hovers) (\<lambda>hovers.
     if ea_context args = Some ''hover'' \<and> \<not> hovers then bail (StrError ''Hovers are disabled.'')
     else
       onResult (evaluate_in_context E (ea_context args) (ea_expression args) frame) (\<lambda>r.
         bail (AsyncResponse (Ready (map_sum id Resp_evaluate r))))))"

definition handle_set_variable :: "'l env \<Rightarrow> set_variable_arguments \<Rightarrow> ('l, set_variable_response_body) sact" where
  "handle_set_variable E args =
     (let ch = sva_variables_reference args in
      andThen (reads (\<lambda>s. get (var_refs s) ch)) (\<lambda>found.
      andThen (ok_or (str_error ''Invalid variables reference'') found) (\<lambda>c.
      andThen (ask (\<lambda>l. case c of
          SBVal container \<Rightarrow> value_child_with_name (val E) l container (sva_name args)
        | Locals frame \<Rightarrow> frame_find_variable (frm E) l frame (sva_name args)
        | Globals frame \<Rightarrow> frame_find_variable (frm E) l frame (sva_name args)
        | Statics frame \<Rightarrow> frame_find_variable (frm E) l frame (sva_name args)
        | _ \<Rightarrow> None)) (\<lambda>child. case child of
        None \<Rightarrow> bail (blame_user (str_error ''Could not set variable value.''))
      | Some child \<Rightarrow>
          andThen (attempt (value_set_value (val E) child (sva_value args))) (\<lambda>r. case r of
            Inl err \<Rightarrow> bail (blame_user (StrError err))
          | Inr _ \<Rightarrow>
              andThen (ask (\<lambda>l. unwrap_or (value_name (val E) l child) [])) (\<lambda>name.
              andThen (get_var_handle E (Some ch) name child) (\<lambda>h.
              andThen (get_var_summary E child False) (\<lambda>summary.
              ask (\<lambda>l. default_set_variable_response_body\<lparr>sv_value := summary,
                 sv_type := value_type_name (val E) l child, sv_variables_reference := h\<rparr>)))))))))"

section \<open>Walking up the references ends\<close>

text \<open>
  A forest of references: as long as the invariant holds, parents of live references are live and
  have a smaller rank, so every walk along parents ends at a root.
\<close>

locale reference_forest =
  fixes inv :: "'t \<Rightarrow> bool" and live :: "'t \<Rightarrow> 'h \<Rightarrow> bool" and parent :: "'t \<Rightarrow> 'h \<Rightarrow> 'h option"
    and rank :: "'h \<Rightarrow> nat"
  assumes parent_live: "inv t \<Longrightarrow> live t h \<Longrightarrow> parent t h = Some q \<Longrightarrow> live t q"
    and parent_rank: "inv t \<Longrightarrow> live t h \<Longrightarrow> parent t h = Some q \<Longrightarrow> rank q < rank h"
begin

lemma ancestor_induct:
  assumes "inv t" "live t h"
    and step: "\<And>x. live t x \<Longrightarrow> (\<And>q. parent t x = Some q \<Longrightarrow> P q) \<Longrightarrow> P x"
  shows "P h"
  using assms(2)
proof (induction "rank h" arbitrary: h rule: less_induct)
  case less
  show ?case
    using step [OF less.prems] less.hyps parent_live [OF assms(1) less.prems] parent_rank [OF assms(1) less.prems] by blast
qed

end

definition ref_parent :: "'v handle_tree \<Rightarrow> handle \<Rightarrow> handle option" where
  "ref_parent t h = (case get_full_info t h of Some (p, _, _) \<Rightarrow> p | None \<Rightarrow> None)"

interpretation refs: reference_forest "ht_inv" "\<lambda>t h. get_full_info t h \<noteq> None" ref_parent nat
proof
  fix t :: "'v handle_tree" and h q
  assume inv: "ht_inv t" and "get_full_info t h \<noteq> None" and "ref_parent t h = Some q"
  then obtain k v where o: "obj_by_handle t h = Some (Some q, k, v)"
    by (auto simp: ref_parent_def get_full_info_eq split: option.splits)
  show "get_full_info t q \<noteq> None" using ht_inv_objD(5) [OF inv o] by (simp add: get_full_info_eq)
  show "nat q < nat h" using ht_inv_objD(1,4) [OF inv o] by simp
qed

lemma eval_name_loop_returns:
  assumes "ht_inv t" "get_full_info t h \<noteq> None"
  shows "\<forall>name. \<exists>result. eval_name_loop E l t (Some h) name = Some (Done result)"
proof (rule refs.ancestor_induct [OF assms])
  fix x
  assume live: "get_full_info t x \<noteq> None"
    and IH: "\<And>q. ref_parent t x = Some q \<Longrightarrow> \<forall>name. \<exists>result. eval_name_loop E l t (Some q) name = Some (Done result)"
  obtain p k v where info: "get_full_info t x = Some (p, k, v)" using live by auto
  have top: "eval_name_loop E l t None name = Some (Done name)" for name
    by (simp add: eval_name_loop.simps)
  show "\<forall>name. \<exists>result. eval_name_loop E l t (Some x) name = Some (Done result)"
  proof
    fix name
    show "\<exists>result. eval_name_loop E l t (Some x) name = Some (Done result)"
      using IH info top
      by (subst eval_name_loop.simps) (cases p; cases v; auto simp: ref_parent_def)
  qed
qed

text \<open>
  Property C28.  The name under which a container can be evaluated is always found: for every
  reference the client may hold, the walk towards the root ends and meets no dangling parent.
\<close>

theorem container_eval_name_returns:
  assumes "ht_inv (var_refs s)" "get (var_refs s) h \<noteq> None"
  shows "\<exists>name. compose_container_eval_name E h s = Done (Inr name, s)"
proof -
  have "get_full_info (var_refs s) h \<noteq> None"
    using assms(2) by (auto simp: get_def get_full_info_def split: option.splits)
  then obtain name where "eval_name_loop E (dbg s) (var_refs s) (Some h) [] = Some (Done name)"
    using eval_name_loop_returns [OF assms(1), of h E "dbg s"] by auto
  then show ?thesis by (simp add: compose_container_eval_name_def act_step lift_exec_def)
qed

theorem container_eval_name_returns_witness:
  "\<exists>name s. get (var_refs s) 1001 = Some (SBVal (SBValue 3)) \<and>
     compose_container_eval_name (stub_env :: unit env) 1001 s = Done (Inr name, s)"
proof -
  obtain t where c: "create (ht_new :: container handle_tree) None ''x'' (SBVal (SBValue 3)) = Done (1001, t)"
    by (simp add: create_def ht_new_def create_new_handle_def wrap_i64_def)
  have room: "next_handle_value (ht_new :: container handle_tree) < i64_max" by (simp add: ht_new_def i64_max_def)
  let ?s = "(session_new () False)\<lparr>var_refs := t\<rparr>"
  have live: "get (var_refs ?s) 1001 = Some (SBVal (SBValue 3))"
    using create_outcome(1) [OF ht_inv_new room c] by (simp add: get_def)
  have "ht_inv (var_refs ?s)" using create_inv [OF ht_inv_new room c] by simp
  from container_eval_name_returns [OF this, of 1001 stub_env] live show ?thesis by blast
qed

section \<open>Shadowed variables are merged\<close>

text \<open>
  The list that the loop builds: the name index holds the position of every name in the list, and
  the names are distinct.
\<close>

definition merged :: "variable list \<times> (string \<times> nat) list \<Rightarrow> bool" where
  "merged acc \<longleftrightarrow> distinct (map var_name (fst acc)) \<and>
     (\<forall>n i. hm_get (snd acc) n = Some i \<longleftrightarrow> i < length (fst acc) \<and> var_name (fst acc ! i) = n)"

definition push_all :: "bool \<Rightarrow> variable list \<Rightarrow> variable list \<times> (string \<times> nat) list \<Rightarrow> variable list \<times> (string \<times> nat) list" where
  "push_all dedup vs acc = fold (push_variable dedup) vs acc"

lemma push_merged:
  assumes "merged acc"
  shows "merged (push_variable True v acc)"
    and "set (map var_name (fst (push_variable True v acc))) = insert (var_name v) (set (map var_name (fst acc)))"
    and "w \<in> set (fst (push_variable True v acc)) \<longleftrightarrow> w = v \<or> w \<in> set (fst acc) \<and> var_name w \<noteq> var_name v"
proof -
  obtain vs idx where acc: "acc = (vs, idx)" by (cases acc)
  have d: "distinct (map var_name vs)"
    and ix: "\<And>n i. hm_get idx n = Some i \<longleftrightarrow> i < length vs \<and> var_name (vs ! i) = n"
    using assms by (auto simp: merged_def acc)
  show "merged (push_variable True v acc)"
    and "set (map var_name (fst (push_variable True v acc))) = insert (var_name v) (set (map var_name (fst acc)))"
    and "w \<in> set (fst (push_variable True v acc)) \<longleftrightarrow> w = v \<or> w \<in> set (fst acc) \<and> var_name w \<noteq> var_name v"
  proof (atomize (full), cases "hm_get idx (var_name v)")
    case None
    then have none: "var_name (vs ! i) \<noteq> var_name v" if "i < length vs" for i
      using ix [of "var_name v" i] that by auto
    then have fresh: "var_name v \<notin> set (map var_name vs)" by (fastforce simp: in_set_conv_nth)
    have other: "var_name w \<noteq> var_name v" if "w \<in> set vs"
      using fresh that by (metis image_eqI list.set_map)
    have "hm_get (hm_insert (var_name v) (length vs) idx) n = Some i \<longleftrightarrow>
        i < length (vs @ [v]) \<and> var_name ((vs @ [v]) ! i) = n" for n i
    proof (cases "n = var_name v")
      case True
      then show ?thesis using none by (auto simp: update_conv' nth_append less_Suc_eq)
    next
      case False
      then show ?thesis using ix [of n i] by (auto simp: update_conv' nth_append less_Suc_eq)
    qed
    with None d fresh other show "merged (push_variable True v acc) \<and>
      set (map var_name (fst (push_variable True v acc))) = insert (var_name v) (set (map var_name (fst acc))) \<and>
      (w \<in> set (fst (push_variable True v acc)) \<longleftrightarrow> w = v \<or> w \<in> set (fst acc) \<and> var_name w \<noteq> var_name v)"
      by (auto simp: push_variable_def acc merged_def)
  next
    case (Some j)
    then have j: "j < length vs" "var_name (vs ! j) = var_name v" using ix by auto
    have names: "map var_name (vs[j := v]) = map var_name vs"
      using j by (metis length_map list_update_id map_update nth_map)
    have same: "i = j" if "i < length vs" "var_name (vs ! i) = var_name v" for i
      using that j nth_eq_iff_index_eq [OF d, of i j] by simp
    have mem: "w \<in> set (vs[j := v]) \<longleftrightarrow> w = v \<or> w \<in> set vs \<and> var_name w \<noteq> var_name v"
    proof -
      have "w \<in> set (vs[j := v]) \<longleftrightarrow> w = v \<or> (\<exists>i < length vs. i \<noteq> j \<and> vs ! i = w)"
        using j(1) by (auto simp: in_set_conv_nth nth_list_update)
      also have "(\<exists>i < length vs. i \<noteq> j \<and> vs ! i = w) \<longleftrightarrow> w \<in> set vs \<and> var_name w \<noteq> var_name v"
        (is "?lhs \<longleftrightarrow> ?rhs")
      proof
        assume ?lhs
        then show ?rhs using same by auto
      next
        assume ?rhs
        then obtain i where i: "i < length vs" "vs ! i = w" by (auto simp: in_set_conv_nth)
        moreover have "i \<noteq> j" using \<open>?rhs\<close> i j by auto
        ultimately show ?lhs by blast
      qed
      finally show ?thesis by blast
    qed
    have "var_name (vs[j := v] ! i) = var_name (vs ! i)" if "i < length vs" for i
      using that j by (cases "i = j") auto
    then have "merged (vs[j := v], idx)" using d ix names by (auto simp: merged_def)
    moreover have "var_name v \<in> set (map var_name vs)" using j by (metis length_map nth_map nth_mem)
    ultimately show "merged (push_variable True v acc) \<and>
      set (map var_name (fst (push_variable True v acc))) = insert (var_name v) (set (map var_name (fst acc))) \<and>
      (w \<in> set (fst (push_variable True v acc)) \<longleftrightarrow> w = v \<or> w \<in> set (fst acc) \<and> var_name w \<noteq> var_name v)"
      using Some names mem by (simp add: push_variable_def acc insert_absorb del: set_map)
  qed
qed

text \<open>
  What the loop over the values of a scope returns: the conversions of all of them, merged, or of the
  first few and a marker if the time is up.
\<close>

definition converted :: "'l env \<Rightarrow> string \<Rightarrow> handle option \<Rightarrow> sbvalue \<Rightarrow> variable \<Rightarrow> bool" where
  "converted E en h var v \<longleftrightarrow> (\<exists>u u'. var_to_variable E var en h u = Done (Inr v, u'))"

lemma convert_loop_pushes:
  assumes "convert_loop E vars en h dedup acc s = Done (Inr res, s')"
  shows "\<exists>vs. list_all2 (converted E en h) (take (length vs) vars) vs \<and>
    (res = fst (push_all dedup vs acc) \<and> length vs = length vars \<or>
     res = fst (push_all dedup vs acc) @ [timed_out_variable])"
  using assms
proof (induction vars arbitrary: acc s)
  case Nil
  then show ?case by (intro exI [of _ "[]"]) (simp add: push_all_def act_eval)
next
  case (Cons var vars)
  obtain v s1 where v: "var_to_variable E var en h s = Done (Inr v, s1)"
    and rest: "andThen is_cancelled_now (\<lambda>cancelled.
       if cancelled then bail (blame_user (str_error ''<cancelled>''))
       else andThen elapsed (\<lambda>t. andThen (reads evaluation_timeout) (\<lambda>timeout.
         if t > unat timeout * 1000000 then
           andThen (console_error ''Child list expansion has timed out.'') (\<lambda>_. ret (fst (push_variable dedup v acc) @ [timed_out_variable]))
         else convert_loop E vars en h dedup (push_variable dedup v acc)))) s1 = Done (Inr res, s')"
    using Cons.prems by (auto simp: andThen_ok Let_def)
  have c: "converted E en h var v" using v by (auto simp: converted_def)
  from rest consider (timeout) "res = fst (push_variable dedup v acc) @ [timed_out_variable]"
    | (go) s2 where "convert_loop E vars en h dedup (push_variable dedup v acc) s2 = Done (Inr res, s')"
    by (auto simp: andThen_ok act_eval console_defs split: if_splits)
  then show ?case
  proof cases
    case timeout
    then show ?thesis using c by (intro exI [of _ "[v]"]) (simp add: push_all_def)
  next
    case go
    from Cons.IH [OF this] obtain vs where
      vs: "list_all2 (converted E en h) (take (length vs) vars) vs"
        "res = fst (push_all dedup vs (push_variable dedup v acc)) \<and> length vs = length vars \<or>
         res = fst (push_all dedup vs (push_variable dedup v acc)) @ [timed_out_variable]"
      by blast
    have "push_all dedup vs (push_variable dedup v acc) = push_all dedup (v # vs) acc" by (simp add: push_all_def)
    then show ?thesis using vs c by (intro exI [of _ "v # vs"]) auto
  qed
qed

lemma push_all_merged:
  assumes "merged acc"
  shows "merged (push_all True vs acc)"
    and "var_name ` set (fst (push_all True vs acc)) = var_name ` set (fst acc) \<union> var_name ` set vs"
    and "w \<in> set (fst (push_all True vs acc)) \<Longrightarrow>
       w \<in> set (fst acc) \<and> var_name w \<notin> var_name ` set vs \<or>
       (\<exists>before after. vs = before @ w # after \<and> var_name w \<notin> var_name ` set after)"
proof -
  have "merged (push_all True vs acc) \<and>
    var_name ` set (fst (push_all True vs acc)) = var_name ` set (fst acc) \<union> var_name ` set vs \<and>
    (w \<in> set (fst (push_all True vs acc)) \<longrightarrow>
       w \<in> set (fst acc) \<and> var_name w \<notin> var_name ` set vs \<or>
       (\<exists>before after. vs = before @ w # after \<and> var_name w \<notin> var_name ` set after))"
    using assms
  proof (induction vs arbitrary: acc)
    case Nil
    then show ?case by (simp add: push_all_def)
  next
    case (Cons v vs)
    note IH = Cons.IH [OF push_merged(1) [OF Cons.prems, of v]]
    have eq: "push_all True (v # vs) acc = push_all True vs (push_variable True v acc)" by (simp add: push_all_def)
    have "w \<in> set (fst acc) \<and> var_name w \<notin> var_name ` set (v # vs) \<or>
        (\<exists>before after. v # vs = before @ w # after \<and> var_name w \<notin> var_name ` set after)"
      if "w \<in> set (fst (push_all True (v # vs) acc))"
    proof -
      from IH that consider (old) "w \<in> set (fst (push_variable True v acc))" "var_name w \<notin> var_name ` set vs"
        | (new) before after where "vs = before @ w # after" "var_name w \<notin> var_name ` set after"
        unfolding eq by blast
      then show ?thesis
      proof cases
        case old
        then show ?thesis using push_merged(3) [OF Cons.prems, of w v] by (auto intro: exI [of _ "[]"])
      next
        case new
        then have "v # vs = (v # before) @ w # after" by simp
        then show ?thesis using new(2) by blast
      qed
    qed
    then show ?case using IH eq push_merged(2) [OF Cons.prems, of v] by auto
  qed
  then show "merged (push_all True vs acc)"
    and "var_name ` set (fst (push_all True vs acc)) = var_name ` set (fst acc) \<union> var_name ` set vs"
    and "w \<in> set (fst (push_all True vs acc)) \<Longrightarrow>
       w \<in> set (fst acc) \<and> var_name w \<notin> var_name ` set vs \<or>
       (\<exists>before after. vs = before @ w # after \<and> var_name w \<notin> var_name ` set after)"
    by blast+
qed

text \<open>
  Property C29.  Of local variables that share a name the client sees exactly one, the last that the
  debugger lists (the innermost): every name listed occurs once in the result, with the conversion
  of the last value of that name.  All values are converted, unless the time is up; then those
  converted so far are followed by a marker.
\<close>

theorem locals_merged:
  assumes "convert_scope_values E vars en h True s = Done (Inr res, s')"
  shows "\<exists>vs once. list_all2 (\<lambda>var v. \<exists>u u'. var_to_variable E var en h u = Done (Inr v, u')) (take (length vs) vars) vs \<and>
    (res = once \<and> length vs = length vars \<or> res = once @ [timed_out_variable]) \<and>
    distinct (map var_name once) \<and> var_name ` set once = var_name ` set vs \<and>
    (\<forall>w \<in> set once. \<exists>before after. vs = before @ w # after \<and> var_name w \<notin> var_name ` set after)"
proof -
  obtain vs where vs: "list_all2 (converted E en h) (take (length vs) vars) vs"
    "res = fst (push_all True vs ([], [])) \<and> length vs = length vars \<or> res = fst (push_all True vs ([], [])) @ [timed_out_variable]"
    using convert_loop_pushes [OF assms [unfolded convert_scope_values_def]] by blast
  have m: "merged ([], [])" by (simp add: merged_def)
  have c: "converted E en h = (\<lambda>var v. \<exists>u u'. var_to_variable E var en h u = Done (Inr v, u'))"
    by (simp add: fun_eq_iff converted_def)
  show ?thesis
    using vs push_all_merged [OF m] unfolding c
    by (intro exI [of _ vs] exI [of _ "fst (push_all True vs ([], []))"]) (auto simp: merged_def)
qed

text \<open>Two values of one name, as in nested blocks.\<close>

definition sample_locals_session :: "unit session" where
  "sample_locals_session = (session_new () False)\<lparr>client_caps := Initialized \<lparr>ia_adapter_id = '''',
     ia_supports_run_in_terminal_request = None, ia_supports_invalidated_event = None,
     ia_supports_memory_references = None, ia_supports_start_debugging_request = None\<rparr>\<rparr>"

definition sample_locals_env :: "unit env" where
  "sample_locals_env = stub_env\<lparr>val := stub_value_api\<lparr>value_name := \<lambda>_ _. Some ''x'', value_is_synthetic := \<lambda>_ _. False,
     value_value := \<lambda>_ v. Some (if v = SBValue 0 then ''1'' else ''2'')\<rparr>\<rparr>"

lemma oracle_step:
  "cancel_answers s = [] \<Longrightarrow> andThen is_cancelled_now f s = f False s"
  "clock_answers s = [] \<Longrightarrow> andThen elapsed g s = g 0 s"
  by (simp_all add: andThen_def is_cancelled_now_def elapsed_def)

lemma sample_variable:
  "var_to_variable sample_locals_env (SBValue n) [] None sample_locals_session =
     Done (Inr (default_variable\<lparr>var_name := ''x'', var_value := if n = 0 then ''1'' else ''2'',
       var_evaluate_name := Some ''x''\<rparr>), sample_locals_session)"
proof -
  have "utf8_lossy ''1'' = ''1''" "utf8_lossy ''2'' = ''2''" by code_simp+
  then show ?thesis
    by (simp add: var_to_variable_def sample_locals_env_def stub_defs sample_locals_session_def
        session_new_def get_var_summary_def plain_summary_def get_var_handle_def get_mem_ref_for_var_def act_step act_eval
        Let_def intersects_def unwrap_or_def compose_eval_name_def is_settable_def default_variable_def)
qed

lemma sample_locals:
  "\<exists>res s'. convert_scope_values sample_locals_env [SBValue 0, SBValue 1] [] None True sample_locals_session =
     Done (Inr res, s') \<and> map (\<lambda>v. (var_name v, var_value v)) res = [(''x'', ''2'')]"
proof -
  have "cancel_answers sample_locals_session = []" "clock_answers sample_locals_session = []"
    by (simp_all add: sample_locals_session_def session_new_def)
  moreover have step: "andThen (var_to_variable sample_locals_env (SBValue n) [] None) f sample_locals_session =
      f (default_variable\<lparr>var_name := ''x'', var_value := if n = 0 then ''1'' else ''2'', var_evaluate_name := Some ''x''\<rparr>)
        sample_locals_session" for n and f :: "variable \<Rightarrow> (unit, variable list) sact"
    by (rule andThen_eval(1)) (rule sample_variable)
  ultimately show ?thesis
    by (simp add: convert_scope_values_def step oracle_step act_step act_eval Let_def push_variable_def)
qed

theorem locals_merged_witness:
  "\<exists>res s'. convert_scope_values sample_locals_env [SBValue 0, SBValue 1] [] None True sample_locals_session =
     Done (Inr res, s') \<and> map (\<lambda>v. (var_name v, var_value v)) res = [(''x'', ''2'')] \<and>
     (\<exists>once. (res = once \<or> res = once @ [timed_out_variable]) \<and> distinct (map var_name once))"
proof -
  obtain res s' where c: "convert_scope_values sample_locals_env [SBValue 0, SBValue 1] [] None True sample_locals_session =
     Done (Inr res, s')" and m: "map (\<lambda>v. (var_name v, var_value v)) res = [(''x'', ''2'')]"
    using sample_locals by auto
  from locals_merged [OF c] have once: "\<exists>once. (res = once \<or> res = once @ [timed_out_variable]) \<and> distinct (map var_name once)"
    by blast
  show ?thesis by (rule exI [of _ res], rule exI [of _ s'], intro conjI c m once)
qed

section \<open>Summaries are bounded\<close>

text \<open>The text of one child in a summary, without the separator.\<close>

definition child_text_length :: "'l env \<Rightarrow> 'l \<Rightarrow> sbvalue \<Rightarrow> nat" where
  "child_text_length E l child =
     (case value_name (val E) l child of
        None \<Rightarrow> 0
      | Some name \<Rightarrow>
          (case (case value_summary (val E) l child of Some t \<Rightarrow> Some t | None \<Rightarrow> value_value (val E) l child) of
             None \<Rightarrow> 0
           | Some text \<Rightarrow> if starts_with name ''['' then length text else length name + 1 + length text))"

lemma is_cancelled_state: "is_cancelled_now s = Done (r, s') \<Longrightarrow> dbg s' = dbg s \<and> max_summary_length s' = max_summary_length s"
  by (auto simp: is_cancelled_now_def split: list.splits)

lemma elapsed_state: "elapsed s = Done (r, s') \<Longrightarrow> dbg s' = dbg s \<and> max_summary_length s' = max_summary_length s"
  by (auto simp: elapsed_def split: list.splits)

lemma summary_loop_bound:
  assumes "summary_loop E False children summary sep s = Done (Inr res, s')" "length sep \<le> 2"
    and "\<forall>c \<in> set children. child_text_length E (dbg s) c \<le> m"
  shows "length res \<le> max (length summary) (max_summary_length s + m + 2) + 5"
  using assms
proof (induction children arbitrary: summary sep s)
  case Nil
  then show ?case by (simp add: act_eval)
next
  case (Cons child children)
  let ?text = "case value_summary (val E) (dbg s) child of Some t \<Rightarrow> Some t | None \<Rightarrow> value_value (val E) (dbg s) child"
  let ?next = "(\<lambda>(name, text). case (name, text) of
      (Some name, Some text) \<Rightarrow>
        if utf8_valid text then
          summary_loop E False children
            (summary @ sep @ (if starts_with name ''['' then text else name @ '':'' @ text)) '', ''
        else summary_loop E False children summary sep
    | _ \<Rightarrow> summary_loop E False children summary sep) (value_name (val E) (dbg s) child, ?text)"
  obtain c s1 where c: "is_cancelled_now s = Done (Inr c, s1)"
    using Cons.prems(1) by (auto simp: andThen_ok)
  note s1 = is_cancelled_state [OF c]
  have step: "andThen is_cancelled_now f s = f c s1" for f :: "bool \<Rightarrow> ('a, string) sact"
    by (rule andThen_eval(1)) (rule c)
  consider (stopped) "res = summary @ sep @ ''...''"
    | (go) s2 where "length summary \<le> max_summary_length s" "dbg s2 = dbg s" "max_summary_length s2 = max_summary_length s"
        "?next s2 = Done (Inr res, s')"
  proof (cases "c \<or> max_summary_length s < length summary")
    case True
    then have "res = summary @ sep @ ''...''"
      using Cons.prems(1) s1 by (auto simp: step act_step act_eval andThen_ok split: if_splits)
    then show thesis by (rule stopped)
  next
    case False
    obtain t s2 where t: "elapsed s1 = Done (Inr t, s2)"
      by (cases "clock_answers s1") (auto simp: elapsed_def)
    have step2: "andThen elapsed f s1 = f t s2" for f :: "nat \<Rightarrow> ('a, string) sact"
      by (rule andThen_eval(1)) (rule t)
    have d: "dbg s2 = dbg s" "max_summary_length s2 = max_summary_length s"
      using elapsed_state [OF t] s1 by simp_all
    show thesis
    proof (cases "res = summary @ sep @ ''...''")
      case True
      then show thesis by (rule stopped)
    next
      case other: False
      have "?next s2 = Done (Inr res, s')"
        using Cons.prems(1) False s1 d other by (simp add: step step2 act_step act_eval split: if_splits cong: option.case_cong)
      with False d show thesis by (intro go) simp_all
    qed
  qed
  then show ?case
  proof cases
    case stopped
    then show ?thesis using Cons.prems(2) by simp
  next
    case go
    have rest: "\<forall>c \<in> set children. child_text_length E (dbg s2) c \<le> m" using Cons.prems(3) go(2) by simp
    have this_text: "child_text_length E (dbg s) child \<le> m" using Cons.prems(3) by simp
    show ?thesis
    proof (cases "\<exists>name text. value_name (val E) (dbg s) child = Some name \<and> ?text = Some text \<and> utf8_valid text")
      case True
      then obtain name body where nt: "value_name (val E) (dbg s) child = Some name" "?text = Some body" "utf8_valid body"
        by blast
      let ?piece = "if starts_with name ''['' then body else name @ '':'' @ body"
      have "summary_loop E False children (summary @ sep @ ?piece) '', '' s2 = Done (Inr res, s')"
        using go(4) nt by simp
      from Cons.IH [OF this _ rest] have "length res \<le> max (length (summary @ sep @ ?piece)) (max_summary_length s2 + m + 2) + 5"
        by simp
      moreover have "length ?piece \<le> m" using this_text nt by (auto simp: child_text_length_def)
      ultimately show ?thesis using go(1,3) Cons.prems(2) by simp
    next
      case False
      then have "summary_loop E False children summary sep s2 = Done (Inr res, s')"
        using go(4) by (auto split: option.splits if_splits)
      from Cons.IH [OF this Cons.prems(2) rest] show ?thesis using go(3) by simp
    qed
  qed
qed

text \<open>
  Property C30.  The summary of a structured value stays short: it exceeds the configured length by at
  most the text of one child and a few characters.
\<close>

theorem container_summary_bounded:
  assumes "get_container_summary E var False s = Done (Inr summary, s')"
    and "\<forall>c \<in> set (value_children (val E) (dbg s) var). child_text_length E (dbg s) c \<le> m"
  shows "length summary \<le> max_summary_length s + m + 8"
proof -
  obtain body where t: "summary_loop E False (value_children (val E) (dbg s) var) ''{'' [] s = Done (Inr body, s')"
    and summary: "summary = (if length body \<le> 1 then body @ ''...'' else body) @ ''}''"
    using assms(1) by (auto simp: get_container_summary_def act_step act_eval andThen_ok)
  from summary_loop_bound [OF t _ assms(2)] show ?thesis by (auto simp: summary)
qed

definition sample_struct_env :: "unit env" where
  "sample_struct_env = stub_env\<lparr>val := stub_value_api\<lparr>
     value_children := \<lambda>_ _. [SBValue 1, SBValue 2], value_name := \<lambda>_ _. Some ''f'', value_value := \<lambda>_ _. Some ''10''\<rparr>\<rparr>"

theorem container_summary_bounded_witness:
  "get_container_summary sample_struct_env (SBValue 0) False sample_locals_session =
     Done (Inr ''{f:10, f:10}'', sample_locals_session) \<and> length ''{f:10, f:10}'' \<le> 32 + 4 + 8"
proof -
  have u: "utf8_valid ''10''" by code_simp
  have sess: "cancel_answers sample_locals_session = []" "clock_answers sample_locals_session = []"
    "max_summary_length sample_locals_session = 32" "dbg sample_locals_session = ()"
    by (simp_all add: sample_locals_session_def session_new_def)
  have g: "get_container_summary sample_struct_env (SBValue 0) False sample_locals_session =
     Done (Inr ''{f:10, f:10}'', sample_locals_session)"
    by (simp add: get_container_summary_def sample_struct_env_def stub_defs act_step act_eval oracle_step sess u starts_with_def)
  have "\<forall>c \<in> set (value_children (val sample_struct_env) (dbg sample_locals_session) (SBValue 0)).
      child_text_length sample_struct_env (dbg sample_locals_session) c \<le> 4"
    by (simp add: sample_struct_env_def stub_defs child_text_length_def starts_with_def)
  from container_summary_bounded [OF g this] g sess(3) show ?thesis by simp
qed

end
