(* ===== verification/Breakpoints.thy ===== *)
theory Breakpoints
  imports Variables
begin

text \<open>
  Breakpoints, \<^verbatim>\<open>debug_session/breakpoints.rs\<close>: the requests that set them, the callback that LLDB invokes
  when one is hit, logpoints, breakpoint events and excluded callers.

  The callbacks registered with LLDB (\<^verbatim>\<open>CALLBACKS\<close> of \<^verbatim>\<open>sbbreakpoint.rs\<close>) are the session's \<open>bp_callbacks\<close>; each is the
  closure of \<^verbatim>\<open>init_bp_actions\<close>, determined by the compiled condition it captured.
\<close>

section \<open>Records of breakpoints\<close>

definition empty2none :: "string option \<Rightarrow> string option" where
  "empty2none s = (case s of None \<Rightarrow> None | Some t \<Rightarrow> if trim t = [] then None else Some (trim t))"

definition make_bp_info ::
  "'l env \<Rightarrow> sbbreakpoint \<Rightarrow> breakpoint_kind \<Rightarrow> string option \<Rightarrow> string option \<Rightarrow> string option \<Rightarrow> ('l, breakpoint_info) sact" where
  "make_bp_info E bp kind condition log_message hit_cond =
     andThen (case empty2none hit_cond of
         None \<Rightarrow> ret None
       | Some expr \<Rightarrow>
           andThen (lift_exec (parse_hit_condition (noms E) expr)) (\<lambda>r. case r of
             Some cond \<Rightarrow> ret (Some cond)
           | None \<Rightarrow> andThen (console_error (''Invalid hit condition: '' @ expr)) (\<lambda>_. ret None))) (\<lambda>hit.
     ask (\<lambda>l. \<lparr>bi_id = sbbp_id (bps E) l bp, bi_breakpoint = bp, bi_kind = kind,
       bi_condition = empty2none condition, bi_log_message = empty2none log_message,
       bi_hit_condition = hit, bi_hit_count = 0, bi_exclusions = []\<rparr>))"

definition base_response :: "'l env \<Rightarrow> 'l \<Rightarrow> breakpoint_info \<Rightarrow> breakpoint" where
  "base_response E l info = default_breakpoint\<lparr>bp_id := Some (u32_as_i64 (bi_id info)),
     bp_message := Some (''Resolved locations: '' @ show_nat (unat (sbbp_num_resolved_locations (bps E) l (bi_breakpoint info))))\<rparr>"

definition source_response :: "'l env \<Rightarrow> breakpoint_info \<Rightarrow> bool \<Rightarrow> breakpoint \<Rightarrow> ('l, breakpoint) sact" where
  "source_response E info include_source base =
     andThen (ask (\<lambda>l. addr_line_entry (dasm E) l (sbbp_location_address (bps E) l (bi_breakpoint info) 0))) (\<lambda>le. case le of
       None \<Rightarrow> ret base
     | Some entry \<Rightarrow>
         andThen (if include_source then
             andThen (ask (\<lambda>l. filespec_path (files E) l (line_entry_file_spec (dasm E) l entry))) (\<lambda>file_path.
             andThen (lift_exec (the_exec (file_name (components file_path)))) (\<lambda>name.
             ret (Some (default_source\<lparr>src_name := Some (utf8_lossy name), src_path := Some (utf8_lossy file_path)\<rparr>))))
           else ret None) (\<lambda>src.
         ask (\<lambda>l. base\<lparr>bp_source := src, bp_line := Some (u32_as_i64 (line_entry_line (dasm E) l entry)),
           bp_verified := sbbp_num_locations (bps E) l (bi_breakpoint info) > 0\<rparr>)))"

definition disassembly_response :: "'l env \<Rightarrow> breakpoint_info \<Rightarrow> breakpoint \<Rightarrow> ('l, breakpoint) sact" where
  "disassembly_response E info base =
     andThen (ask (\<lambda>l. load_address (dasm E) l (sbbp_location_address (bps E) l (bi_breakpoint info) 0))) (\<lambda>laddress.
     andThen (dasm_from_address E laddress) (\<lambda>r. case r of
       Inl _ \<Rightarrow> ret base
     | Inr d \<Rightarrow> ret (base\<lparr>bp_verified := True, bp_line := Some (u32_as_i64 (line_num_by_address d laddress)),
         bp_source := Some (default_source\<lparr>src_name := Some (dr_source_name d), src_path := Some (dr_source_name d),
           src_source_reference := Some (dr_handle d),
           src_adapter_data := Some (adapter_data_to_json (libs E) (adapter_data_of d))\<rparr>)\<rparr>)))"

definition make_bp_response :: "'l env \<Rightarrow> breakpoint_info \<Rightarrow> bool \<Rightarrow> ('l, breakpoint) sact" where
  "make_bp_response E info include_source =
     andThen (ask (\<lambda>l. base_response E l info)) (\<lambda>base.
     andThen (ask (\<lambda>l. sbbp_num_locations (bps E) l (bi_breakpoint info))) (\<lambda>num_locations.
     if num_locations = 0 then ret base
     else case bi_kind info of
       KSource \<Rightarrow> source_response E info include_source base
     | KDisassembly \<Rightarrow> disassembly_response E info base
     | KInstruction \<Rightarrow>
         ask (\<lambda>l. base\<lparr>bp_verified := True, bp_instruction_reference := Some (''0x'' @ show_HEX (unat
           (load_address (dasm E) l (sbbp_location_address (bps E) l (bi_breakpoint info) 0))))\<rparr>)
     | KFunction \<Rightarrow> ret (base\<lparr>bp_verified := num_locations > 0\<rparr>)
     | KException _ \<Rightarrow> ret (base\<lparr>bp_verified := num_locations > 0\<rparr>)))"

section \<open>Conditions and callbacks\<close>

text \<open>\<^verbatim>\<open>SBBreakpoint::set_callback\<close>, \<^verbatim>\<open>clear_callback\<close> and \<^verbatim>\<open>clear_all_callbacks\<close>.\<close>

definition set_callback :: "'l env \<Rightarrow> sbbreakpoint \<Rightarrow> py_condition \<Rightarrow> ('l, unit) sact" where
  "set_callback E bp callback =
     andThen (ask (\<lambda>l. sbbp_id (bps E) l bp)) (\<lambda>bid.
     andThen (modifies (\<lambda>s. s\<lparr>bp_callbacks := hm_insert bid callback (bp_callbacks s)\<rparr>)) (\<lambda>_.
     tell (\<lambda>l. sbbp_set_callback (bps E) l bp True)))"

definition clear_callback :: "'l env \<Rightarrow> sbbreakpoint \<Rightarrow> ('l, unit) sact" where
  "clear_callback E bp =
     andThen (tell (\<lambda>l. sbbp_set_callback (bps E) l bp False)) (\<lambda>_.
     andThen (ask (\<lambda>l. sbbp_id (bps E) l bp)) (\<lambda>bid.
     modifies (\<lambda>s. s\<lparr>bp_callbacks := hm_remove bid (bp_callbacks s)\<rparr>)))"

definition clear_all_callbacks :: "('l, unit) sact" where
  "clear_all_callbacks = modifies (\<lambda>s. s\<lparr>bp_callbacks := []\<rparr>)"

definition condition_error :: "string \<Rightarrow> ('l, py_condition) sact" where
  "condition_error err =
     andThen (console_error (''Could not parse breakpoint condition:'' @ [LF] @ err)) (\<lambda>_. ret None)"

definition compile_condition :: "'l env \<Rightarrow> string \<Rightarrow> eval_context \<Rightarrow> ('l, py_condition) sact" where
  "compile_condition E expr ctx =
     andThen (reads has_python) (\<lambda>python.
     if python then
       andThen (attempt (\<lambda>l. compile_code (pyt E) l expr ''<breakpoint condition>'')) (\<lambda>r. case r of
         Inr pycode \<Rightarrow> ret (Some (pycode, ctx))
       | Inl err \<Rightarrow> condition_error err)
     else ret None)"

definition init_bp_actions :: "'l env \<Rightarrow> breakpoint_info \<Rightarrow> ('l, unit) sact" where
  "init_bp_actions E info =
     andThen (case bi_condition info of
         None \<Rightarrow> ret None
       | Some condition \<Rightarrow>
           andThen (reads default_expr_type) (\<lambda>ty.
           andThen (lift_exec (prepare (noms E) condition ty)) (\<lambda>p. case p of
             Inl err \<Rightarrow> condition_error err
           | Inr (PNative expr) \<Rightarrow>
               andThen (tell (\<lambda>l. sbbp_set_condition (bps E) l (bi_breakpoint info) expr)) (\<lambda>_. ret None)
           | Inr (PSimple expr) \<Rightarrow> compile_condition E expr SimpleExpressionContext
           | Inr (PPython expr) \<Rightarrow> compile_condition E expr PythonExpressionContext))) (\<lambda>py_condition.
     set_callback E (bi_breakpoint info) py_condition)"

section \<open>Setting breakpoints\<close>

definition enter_info :: "breakpoint_info \<Rightarrow> ('l, unit) sact" where
  "enter_info info = modifies (\<lambda>s. s\<lparr>bpts := (bpts s)\<lparr>breakpoint_infos :=
     hm_insert (bi_id info) info (breakpoint_infos (bpts s))\<rparr>\<rparr>)"

definition forget_info :: "u32 \<Rightarrow> ('l, unit) sact" where
  "forget_info bid = modifies (\<lambda>s. s\<lparr>bpts := (bpts s)\<lparr>breakpoint_infos :=
     hm_remove bid (breakpoint_infos (bpts s))\<rparr>\<rparr>)"

text \<open>The breakpoint that already exists for a key, if LLDB still knows it, or a new one.\<close>

definition find_or_create :: "'l env \<Rightarrow> ('k \<times> u32) list \<Rightarrow> 'k \<Rightarrow> ('l, sbbreakpoint) sact \<Rightarrow> ('l, sbbreakpoint) sact" where
  "find_or_create E existing_bps key create_bp =
     andThen (ask (\<lambda>l. case hm_get existing_bps key of
         None \<Rightarrow> None
       | Some bid \<Rightarrow> find_breakpoint_by_id (bps E) l bid)) (\<lambda>found. case found of
       Some bp \<Rightarrow> ret bp
     | None \<Rightarrow> create_bp)"

text \<open>
  The loop over the requested breakpoints, which all requests share: \<open>put\<close> handles one of them
  and yields its key in the table, the bid and the response.
\<close>

fun place_loop ::
  "('r \<Rightarrow> ('l, 'k \<times> u32 \<times> breakpoint) sact) \<Rightarrow> 'r list \<Rightarrow> ('k \<times> u32) list \<Rightarrow> breakpoint list \<Rightarrow>
   ('l, ('k \<times> u32) list \<times> breakpoint list) sact" where
  "place_loop put [] new_bps res = ret (new_bps, res)"
| "place_loop put (req # reqs) new_bps res =
     andThen (put req) (\<lambda>(key, bid, b). place_loop put reqs (hm_insert key bid new_bps) (res @ [b]))"

text \<open>The loop that deletes what is no longer requested; only source breakpoints are forgotten at once.\<close>

definition delete_stale :: "'l env \<Rightarrow> bool \<Rightarrow> ('k \<times> u32) list \<Rightarrow> ('k \<times> u32) list \<Rightarrow> ('l, unit) sact" where
  "delete_stale E forget existing_bps new_bps =
     for_each existing_bps (\<lambda>(key, bid).
       if hm_get new_bps key \<noteq> None then ret ()
       else andThen (tell (\<lambda>l. breakpoint_delete (bps E) l bid)) (\<lambda>_.
              if forget then forget_info bid else ret ()))"

definition best_location :: "'l env \<Rightarrow> 'l \<Rightarrow> u32 \<Rightarrow> path \<Rightarrow> sbaddress list \<Rightarrow> string option" where
  "best_location E l line filepath addrs =
     snd (fold (\<lambda>addr (best_count, best_path). case addr_line_entry (dasm E) l addr of
         None \<Rightarrow> (best_count, best_path)
       | Some le \<Rightarrow>
           if line_entry_line (dasm E) l le = line then
             (let p = filespec_path (files E) l (line_entry_file_spec (dasm E) l le);
                  count = length (takeWhile (\<lambda>(a, b). a = b) (zip (rev (components p)) (rev filepath)))
              in if count > best_count then (count, Some p) else (best_count, best_path))
           else (best_count, best_path)) addrs (0, None))"

definition get_breakpoint_hint :: "'l env \<Rightarrow> path \<Rightarrow> int \<Rightarrow> int option \<Rightarrow> ('l, (string \<times> u32) option) sact" where
  "get_breakpoint_hint E filepath line column = (case file_name filepath of
      None \<Rightarrow> ret None
    | Some filename \<Rightarrow>
        andThen (run (\<lambda>l. breakpoint_create_by_location (bps E) l filename (as_u32 line) (map_option as_u32 column))) (\<lambda>bp.
        andThen (ask (\<lambda>l. best_location E l (as_u32 line) filepath (sbbp_location_addresses (bps E) l bp))) (\<lambda>best_path.
        andThen (tell (\<lambda>l. breakpoint_delete (bps E) l (sbbp_id (bps E) l bp))) (\<lambda>_.
        ret (map_option (\<lambda>p. (p, as_u32 line)) best_path)))))"

definition hint_message :: "path \<Rightarrow> int \<Rightarrow> string \<Rightarrow> u32 \<Rightarrow> string" where
  "hint_message file_path_norm req_line p line =
     ''Breakpoint at '' @ path_str file_path_norm @ '':'' @ show_int req_line @
     '' could not be resolved, but a valid location was found at '' @ p @ '':'' @ show_nat (unat line)"

definition create_source_bp :: "'l env \<Rightarrow> path \<Rightarrow> source_breakpoint \<Rightarrow> ('l, sbbreakpoint) sact" where
  "create_source_bp E file_path_norm req =
     andThen (reads breakpoint_mode) (\<lambda>mode.
     andThen (case mode of
         ModePath \<Rightarrow> ret (path_str file_path_norm)
       | ModeFile \<Rightarrow> ok_or (StrError ''Missing file name'') (file_name file_path_norm)) (\<lambda>location.
     run (\<lambda>l. breakpoint_create_by_location (bps E) l location (as_u32 (sb_line req)) (map_option as_u32 (sb_column req)))))"

definition place_source :: "'l env \<Rightarrow> path \<Rightarrow> (int \<times> u32) list \<Rightarrow> source_breakpoint \<Rightarrow> ('l, int \<times> u32 \<times> breakpoint) sact" where
  "place_source E file_path_norm existing_bps req =
     andThen (find_or_create E existing_bps (sb_line req) (create_source_bp E file_path_norm req)) (\<lambda>bp.
     andThen (make_bp_info E bp KSource (sb_condition req) (sb_log_message req) (sb_hit_condition req)) (\<lambda>info.
     andThen (init_bp_actions E info) (\<lambda>_.
     andThen (make_bp_response E info False) (\<lambda>b.
     andThen (ask (\<lambda>l. sbbp_num_locations (bps E) l (bi_breakpoint info))) (\<lambda>num_locations.
     andThen (reads breakpoint_mode) (\<lambda>mode.
     andThen (if num_locations = 0 \<and> mode = ModePath then
         andThen (get_breakpoint_hint E file_path_norm (sb_line req) (sb_column req)) (\<lambda>hint. case hint of
           None \<Rightarrow> ret b
         | Some (p, line) \<Rightarrow>
             (let message = hint_message file_path_norm (sb_line req) p line
              in andThen (console_message message) (\<lambda>_. ret (b\<lparr>bp_message := Some message\<rparr>))))
       else ret b) (\<lambda>b.
     andThen (enter_info info) (\<lambda>_. ret (sb_line req, bi_id info, b)))))))))"

definition set_source_table :: "path \<Rightarrow> (int \<times> u32) list \<Rightarrow> ('l, unit) sact" where
  "set_source_table p table = modifies (\<lambda>s. s\<lparr>bpts := (bpts s)\<lparr>source_bps := hm_insert p table (source_bps (bpts s))\<rparr>\<rparr>)"

definition set_source_breakpoints :: "'l env \<Rightarrow> path \<Rightarrow> source_breakpoint list \<Rightarrow> ('l, breakpoint list) sact" where
  "set_source_breakpoints E file_path requested =
     andThen (reads (\<lambda>s. unwrap_or (hm_get (source_bps (bpts s)) file_path) [])) (\<lambda>existing_bps.
     andThen (set_source_table file_path existing_bps) (\<lambda>_.
     andThen (place_loop (place_source E (normalize_path file_path) existing_bps) requested [] []) (\<lambda>(new_bps, res).
     andThen (delete_stale E True existing_bps new_bps) (\<lambda>_.
     andThen (set_source_table file_path new_bps) (\<lambda>_. ret res)))))"

text \<open>What the other kinds of breakpoints do with one request.\<close>

definition place_plain ::
  "'l env \<Rightarrow> ('k \<times> u32) list \<Rightarrow> 'k \<Rightarrow> ('l, sbbreakpoint) sact \<Rightarrow> breakpoint_kind \<Rightarrow> string option \<Rightarrow> string option \<Rightarrow>
   string option \<Rightarrow> ('l, 'k \<times> u32 \<times> breakpoint) sact" where
  "place_plain E existing_bps key create_bp kind condition log_message hit_cond =
     andThen (find_or_create E existing_bps key create_bp) (\<lambda>bp.
     andThen (make_bp_info E bp kind condition log_message hit_cond) (\<lambda>info.
     andThen (init_bp_actions E info) (\<lambda>_.
     andThen (make_bp_response E info False) (\<lambda>b.
     andThen (enter_info info) (\<lambda>_. ret (key, bi_id info, b))))))"

definition place_dasm :: "'l env \<Rightarrow> dasm_range \<Rightarrow> (int \<times> u32) list \<Rightarrow> source_breakpoint \<Rightarrow> ('l, int \<times> u32 \<times> breakpoint) sact" where
  "place_dasm E d existing_bps req =
     andThen (lift_exec (address_by_line_num d (as_u32 (sb_line req)))) (\<lambda>laddress.
     place_plain E existing_bps (sb_line req) (run (\<lambda>l. breakpoint_create_by_load_address (bps E) l laddress))
       KDisassembly (sb_condition req) (sb_log_message req) (sb_hit_condition req))"

definition set_assembly_table :: "handle \<Rightarrow> (int \<times> u32) list \<Rightarrow> ('l, unit) sact" where
  "set_assembly_table h table = modifies (\<lambda>s. s\<lparr>bpts := (bpts s)\<lparr>assembly_bps := hm_insert h table (assembly_bps (bpts s))\<rparr>\<rparr>)"

definition set_dasm_breakpoints :: "'l env \<Rightarrow> dasm_range \<Rightarrow> source_breakpoint list \<Rightarrow> ('l, breakpoint list) sact" where
  "set_dasm_breakpoints E d requested =
     andThen (reads (\<lambda>s. unwrap_or (hm_get (assembly_bps (bpts s)) (dr_handle d)) [])) (\<lambda>existing_bps.
     andThen (set_assembly_table (dr_handle d) existing_bps) (\<lambda>_.
     andThen (place_loop (place_dasm E d existing_bps) requested [] []) (\<lambda>(new_bps, res).
     andThen (delete_stale E False existing_bps new_bps) (\<lambda>_.
     andThen (set_assembly_table (dr_handle d) new_bps) (\<lambda>_. ret res)))))"

definition set_new_dasm_breakpoints :: "'l env \<Rightarrow> adapter_data \<Rightarrow> source_breakpoint list \<Rightarrow> ('l, breakpoint list) sact" where
  "set_new_dasm_breakpoints E data requested =
     (let line_addresses = lines_from_adapter_data data in
      for_collect requested (\<lambda>req.
        if sb_line req \<ge> 0 \<and> sb_line req < int (length line_addresses) then
          andThen (run (\<lambda>l. breakpoint_create_by_load_address (bps E) l (line_addresses ! nat (sb_line req)))) (\<lambda>bp.
          andThen (make_bp_info E bp KDisassembly (sb_condition req) (sb_log_message req) (sb_hit_condition req)) (\<lambda>info.
          andThen (init_bp_actions E info) (\<lambda>_.
          andThen (make_bp_response E info False) (\<lambda>b.
          andThen (enter_info info) (\<lambda>_. ret b)))))
        else ret default_breakpoint))"

definition handle_set_breakpoints :: "'l env \<Rightarrow> set_breakpoints_arguments \<Rightarrow> ('l, breakpoint list) sact" where
  "handle_set_breakpoints E args =
     (let source = sba_source args in
      andThen (reads (\<lambda>s. case src_source_reference source of
          None \<Rightarrow> None
        | Some source_ref \<Rightarrow> find_by_handle (disasm_ranges s) source_ref)) (\<lambda>d.
      case (d, src_adapter_data source, src_path source) of
        (Some d, _, _) \<Rightarrow> set_dasm_breakpoints E d (sba_breakpoints args)
      | (None, Some json, _) \<Rightarrow>
          (case adapter_data_from_json (libs E) json of
             Inl err \<Rightarrow> bail (StrError err)
           | Inr data \<Rightarrow> set_new_dasm_breakpoints E data (sba_breakpoints args))
      | (None, None, Some p) \<Rightarrow> set_source_breakpoints E (components p) (sba_breakpoints args)
      | _ \<Rightarrow> bail (StrError ''Unexpected'')))"

definition place_instruction ::
  "'l env \<Rightarrow> (address \<times> u32) list \<Rightarrow> instruction_breakpoint \<Rightarrow> ('l, address \<times> u32 \<times> breakpoint) sact" where
  "place_instruction E existing_bps req =
     andThen (lift_result (map_sum StrError id (parse_int_u64 (libs E) (ib_instruction_reference req)))) (\<lambda>base_addr.
     let address = base_addr + as_u64 (unwrap_or (ib_offset req) 0)
     in place_plain E existing_bps address (run (\<lambda>l. breakpoint_create_by_load_address (bps E) l address))
          KInstruction (ib_condition req) None (ib_hit_condition req))"

definition handle_set_instruction_breakpoints ::
  "'l env \<Rightarrow> set_instruction_breakpoints_arguments \<Rightarrow> ('l, breakpoint list) sact" where
  "handle_set_instruction_breakpoints E args =
     andThen (reads (\<lambda>s. instruction_bps (bpts s))) (\<lambda>existing_bps.
     andThen (place_loop (place_instruction E existing_bps) (iba_breakpoints args) [] []) (\<lambda>(new_bps, res).
     andThen (delete_stale E False existing_bps new_bps) (\<lambda>_.
     andThen (modifies (\<lambda>s. s\<lparr>bpts := (bpts s)\<lparr>instruction_bps := new_bps\<rparr>\<rparr>)) (\<lambda>_. ret res))))"

definition place_function ::
  "'l env \<Rightarrow> (string \<times> u32) list \<Rightarrow> function_breakpoint \<Rightarrow> ('l, string \<times> u32 \<times> breakpoint) sact" where
  "place_function E existing_bps req =
     place_plain E existing_bps (fb_name req)
       (run (\<lambda>l. if starts_with (fb_name req) ''/re '' then breakpoint_create_by_regex (bps E) l (drop 4 (fb_name req))
                 else breakpoint_create_by_name (bps E) l (fb_name req)))
       KFunction (fb_condition req) None (fb_hit_condition req)"

definition handle_set_function_breakpoints ::
  "'l env \<Rightarrow> set_function_breakpoints_arguments \<Rightarrow> ('l, breakpoint list) sact" where
  "handle_set_function_breakpoints E args =
     andThen (reads (\<lambda>s. function_bps (bpts s))) (\<lambda>existing_bps.
     andThen (place_loop (place_function E existing_bps) (fba_breakpoints args) [] []) (\<lambda>(new_bps, res).
     andThen (delete_stale E False existing_bps new_bps) (\<lambda>_.
     andThen (modifies (\<lambda>s. s\<lparr>bpts := (bpts s)\<lparr>function_bps := new_bps\<rparr>\<rparr>)) (\<lambda>_. ret res))))"

section \<open>Exception breakpoints\<close>

definition named_bp :: "'l env \<Rightarrow> ('l \<Rightarrow> sbbreakpoint \<times> 'l) \<Rightarrow> string \<Rightarrow> ('l, sbbreakpoint option) sact" where
  "named_bp E create_bp name =
     andThen (run create_bp) (\<lambda>bp.
     andThen (tell (\<lambda>l. sbbp_add_name (bps E) l bp name)) (\<lambda>_. ret (Some bp)))"

definition set_exception_breakpoint :: "'l env \<Rightarrow> string \<Rightarrow> ('l, sbbreakpoint option) sact" where
  "set_exception_breakpoint E exc_name =
     (if exc_name = CPP_THROW then
        named_bp E (\<lambda>l. breakpoint_create_for_exception (bps E) l C_plus_plus False True) ''cpp_exception''
      else if exc_name = CPP_CATCH then
        named_bp E (\<lambda>l. breakpoint_create_for_exception (bps E) l C_plus_plus True False) ''cpp_exception''
      else if exc_name = RUST_PANIC then
        named_bp E (\<lambda>l. breakpoint_create_by_regex (bps E) l ''rust_panic$'') ''rust_panic''
      else if exc_name = SWIFT_THROW then
        named_bp E (\<lambda>l. breakpoint_create_for_exception (bps E) l Swift False True) ''swift_exception''
      else ret None)"

fun is_exception_kind :: "breakpoint_kind \<Rightarrow> bool" where
  "is_exception_kind (KException _) = True"
| "is_exception_kind _ = False"

definition drop_exception_breakpoints :: "'l env \<Rightarrow> ('l, unit) sact" where
  "drop_exception_breakpoints E =
     andThen (reads (\<lambda>s. breakpoint_infos (bpts s))) (\<lambda>infos.
     andThen (for_each infos (\<lambda>(_, info).
       if is_exception_kind (bi_kind info) then tell (\<lambda>l. breakpoint_delete (bps E) l (bi_id info)) else ret ())) (\<lambda>_.
     modifies (\<lambda>s. s\<lparr>bpts := (bpts s)\<lparr>breakpoint_infos :=
       filter (\<lambda>(_, info). \<not> is_exception_kind (bi_kind info)) (breakpoint_infos (bpts s))\<rparr>\<rparr>)))"

text \<open>One element of \<^verbatim>\<open>filters\<close> (without condition) or of \<^verbatim>\<open>filter_options\<close>; unknown names are skipped.\<close>

definition place_exception :: "'l env \<Rightarrow> string \<times> string option \<Rightarrow> ('l, breakpoint list) sact" where
  "place_exception E = (\<lambda>(exc_name, condition).
     andThen (set_exception_breakpoint E exc_name) (\<lambda>created. case created of
       None \<Rightarrow> ret []
     | Some bp \<Rightarrow>
         andThen (make_bp_info E bp (KException exc_name) condition None None) (\<lambda>info.
         andThen (init_bp_actions E info) (\<lambda>_.
         andThen (make_bp_response E info False) (\<lambda>b.
         andThen (enter_info info) (\<lambda>_. ret [b]))))))"

definition handle_set_exception_breakpoints ::
  "'l env \<Rightarrow> set_exception_breakpoints_arguments \<Rightarrow> ('l, breakpoint list) sact" where
  "handle_set_exception_breakpoints E args =
     andThen (drop_exception_breakpoints E) (\<lambda>_.
     andThen (for_collect (map (\<lambda>name. (name, None)) (eba_filters args)) (place_exception E)) (\<lambda>res1.
     andThen (for_collect (map (\<lambda>f. (fo_filter_id f, fo_condition f)) (eba_filter_options args)) (place_exception E)) (\<lambda>res2.
     ret (concat res1 @ concat res2))))"

section \<open>Logpoints\<close>

text \<open>
  \<open>seg\<close> is the text since \<^verbatim>\<open>start\<close>: a literal text outside of braces, an expression inside.
\<close>

fun replace_loop :: "(string \<Rightarrow> ('l, string) sact) \<Rightarrow> string \<Rightarrow> string \<Rightarrow> nat \<Rightarrow> string \<Rightarrow> ('l, string) sact" where
  "replace_loop f [] seg nesting res = ret (res @ seg)"
| "replace_loop f (ch # message) seg nesting res =
     (if ch = CHR ''{'' then
        (if nesting = 0 then replace_loop f message [] 1 (res @ seg)
         else replace_loop f message (seg @ [ch]) (nesting + 1) res)
      else if ch = CHR ''}'' \<and> nesting > 0 then
        (if nesting = 1 then
           onResult (f seg) (\<lambda>r.
             replace_loop f message [] 0 (res @ (case r of Inr ok \<Rightarrow> ok | Inl err \<Rightarrow> ''{Error: '' @ error_text err @ ''}'')))
         else replace_loop f message (seg @ [ch]) (nesting - 1) res)
      else replace_loop f message (seg @ [ch]) nesting res)"

definition replace_logpoint_expressions :: "string \<Rightarrow> (string \<Rightarrow> ('l, string) sact) \<Rightarrow> ('l, string) sact" where
  "replace_logpoint_expressions message f = replace_loop f message [] 0 []"

definition logpoint_value :: "'l env \<Rightarrow> sbframe \<Rightarrow> string \<Rightarrow> ('l, string) sact" where
  "logpoint_value E frame expr =
     andThen (prepared E expr) (\<lambda>p. case p of
       Inl _ \<Rightarrow> panic
     | Inr (pp_expr, spec) \<Rightarrow>
         andThen (evaluate_expr_in_frame E pp_expr (Some frame)) (\<lambda>v.
         andThen (apply_format_spec E v spec) (\<lambda>v.
         get_var_summary E v False)))"

definition format_logpoint_message :: "'l env \<Rightarrow> string \<Rightarrow> sbframe \<Rightarrow> ('l, string) sact" where
  "format_logpoint_message E log_message frame = replace_logpoint_expressions log_message (logpoint_value E frame)"

section \<open>Hitting a breakpoint\<close>

definition symbols_on_stack :: "'l env \<Rightarrow> 'l \<Rightarrow> sbthread \<Rightarrow> string list" where
  "symbols_on_stack E l thread =
     List.map_filter (\<lambda>f. map_option (symbol_name (dasm E) l) (addr_symbol (dasm E) l (frame_pc_address (frm E) l f)))
       (thread_frames (thr E) l thread)"

definition is_excluded :: "'l env \<Rightarrow> 'l \<Rightarrow> sbthread \<Rightarrow> breakpoint_info \<Rightarrow> bool" where
  "is_excluded E l thread info \<longleftrightarrow>
     list_ex (\<lambda>exclusion. exclusion \<in> set (symbols_on_stack E l thread)) (bi_exclusions info)"

text \<open>The condition that the callback checks itself: \<open>None\<close> means to stop at once.\<close>

definition check_condition :: "'l env \<Rightarrow> sbthread \<Rightarrow> py_condition \<Rightarrow> ('l, bool option) sact" where
  "check_condition E thread condition = (case condition of
      None \<Rightarrow> ret (Some True)
    | Some (pycode, ctx) \<Rightarrow>
        andThen (reads has_python) (\<lambda>python.
        if \<not> python then ret None
        else
          andThen (ask (\<lambda>l. thread_frame_at_index (thr E) l thread 0)) (\<lambda>frame.
          andThen (attempt (\<lambda>l. py_evaluate_as_bool (pyt E) l pycode frame ctx)) (\<lambda>r. case r of
            Inr v \<Rightarrow> ret (Some v)
          | Inl err \<Rightarrow>
              andThen (console_error (''Could not evaluate breakpoint condition:'' @ [LF] @ err)) (\<lambda>_. ret None)))))"

definition set_hit_count :: "u32 \<Rightarrow> u32 \<Rightarrow> ('l, unit) sact" where
  "set_hit_count bid count = modifies (\<lambda>s. s\<lparr>bpts := (bpts s)\<lparr>breakpoint_infos :=
     AList.map_entry bid (\<lambda>info. info\<lparr>bi_hit_count := count\<rparr>) (breakpoint_infos (bpts s))\<rparr>\<rparr>)"

definition on_breakpoint_hit :: "'l env \<Rightarrow> sbthread \<Rightarrow> u32 \<Rightarrow> py_condition \<Rightarrow> ('l, bool) sact" where
  "on_breakpoint_hit E thread bid condition =
     andThen (reads (\<lambda>s. hm_get (breakpoint_infos (bpts s)) bid)) (\<lambda>found. case found of
       None \<Rightarrow> panic
     | Some info \<Rightarrow>
         andThen (ask (\<lambda>l. is_excluded E l thread info)) (\<lambda>excluded.
         if excluded then ret False
         else
           andThen (check_condition E thread condition) (\<lambda>c. case c of
             None \<Rightarrow> ret True
           | Some False \<Rightarrow> ret False
           | Some True \<Rightarrow>
               (let hit_count = bi_hit_count info + 1 in
                andThen (set_hit_count bid hit_count) (\<lambda>_.
                andThen (case bi_hit_condition info of
                    None \<Rightarrow> ret True
                  | Some cond \<Rightarrow> lift_exec (hit_condition_met cond hit_count)) (\<lambda>should_stop.
                if \<not> should_stop then ret False
                else case bi_log_message info of
                  None \<Rightarrow> ret True
                | Some log_message \<Rightarrow>
                    andThen (ask (\<lambda>l. thread_frame_at_index (thr E) l thread 0)) (\<lambda>frame.
                    andThen (format_logpoint_message E log_message frame) (\<lambda>message.
                    andThen (console_message message) (\<lambda>_. ret False)))))))))"

text \<open>What LLDB calls: \<^verbatim>\<open>callback_thunk\<close>.\<close>

definition callback_thunk :: "'l env \<Rightarrow> sbthread \<Rightarrow> u32 \<Rightarrow> ('l, bool) sact" where
  "callback_thunk E thread bid =
     andThen (reads (\<lambda>s. hm_get (bp_callbacks s) bid)) (\<lambda>callback. case callback of
       None \<Rightarrow> ret False
     | Some condition \<Rightarrow> on_breakpoint_hit E thread bid condition)"

section \<open>Breakpoint events\<close>

definition is_tracked :: "u32 \<Rightarrow> 'l session \<Rightarrow> bool" where
  "is_tracked bid s \<longleftrightarrow> hm_get (breakpoint_infos (bpts s)) bid \<noteq> None"

definition handle_breakpoint_event :: "'l env \<Rightarrow> sbbreakpoint \<Rightarrow> u32 \<Rightarrow> ('l, unit) sact" where
  "handle_breakpoint_event E bp etype =
     andThen (ask (\<lambda>l. sbbp_id (bps E) l bp)) (\<lambda>bid.
     andThen (ask (\<lambda>l. sbbp_is_valid (bps E) l bp)) (\<lambda>valid.
     if intersects etype BreakpointEvent_Added then
       andThen (reads (is_tracked bid)) (\<lambda>tracked.
       if tracked \<or> \<not> valid then ret ()
       else
         andThen (make_bp_info E bp KSource None None None) (\<lambda>info.
         andThen (make_bp_response E info True) (\<lambda>b.
         andThen (send_event (Ev_breakpoint ''new'' b)) (\<lambda>_.
         enter_info info))))
     else if intersects etype (BreakpointEvent_LocationsAdded OR BreakpointEvent_LocationsResolved) then
       andThen (reads (\<lambda>s. hm_get (breakpoint_infos (bpts s)) bid)) (\<lambda>found. case found of
         None \<Rightarrow> ret ()
       | Some info \<Rightarrow> andThen (make_bp_response E info False) (\<lambda>b. send_event (Ev_breakpoint ''changed'' b)))
     else if intersects etype BreakpointEvent_Removed then
       andThen (clear_callback E bp) (\<lambda>_.
       andThen (reads (is_tracked bid)) (\<lambda>tracked.
       if tracked then
         andThen (send_event (Ev_breakpoint ''removed'' (default_breakpoint\<lparr>bp_id := Some (u32_as_i64 bid)\<rparr>))) (\<lambda>_.
         forget_info bid)
       else ret ()))
     else ret ()))"

section \<open>Excluded callers\<close>

definition symbol_from_frame :: "'l env \<Rightarrow> 'l \<Rightarrow> u64 \<Rightarrow> u32 \<Rightarrow> string option" where
  "symbol_from_frame E l thread_id frame_index = (case process_thread_by_id (proc E) l thread_id of
      None \<Rightarrow> None
    | Some thread \<Rightarrow>
        map_option (symbol_name (dasm E) l)
          (addr_symbol (dasm E) l (frame_pc_address (frm E) l (thread_frame_at_index (thr E) l thread frame_index))))"

definition add_exclusion :: "string \<Rightarrow> breakpoint_info \<Rightarrow> breakpoint_info" where
  "add_exclusion symb info = info\<lparr>bi_exclusions := bi_exclusions info @ [symb]\<rparr>"

definition update_infos :: "((u32 \<times> breakpoint_info) list \<Rightarrow> (u32 \<times> breakpoint_info) list) \<Rightarrow> ('l, unit) sact" where
  "update_infos f = modifies (\<lambda>s. s\<lparr>bpts := (bpts s)\<lparr>breakpoint_infos := f (breakpoint_infos (bpts s))\<rparr>\<rparr>)"

definition exclusion_site :: "'l env \<Rightarrow> u32 \<Rightarrow> breakpoint_info \<Rightarrow> ('l, (int, string) either \<times> string) sact" where
  "exclusion_site E bid info = (case bi_kind info of
      KException exc_name \<Rightarrow>
        andThen (lift_exec (the_exec (List.find (\<lambda>f. ef_filter f = exc_name) get_exception_filters))) (\<lambda>f.
          ret (Second exc_name, ef_label f))
    | _ \<Rightarrow>
        ask (\<lambda>l. (First (u32_as_i64 bid),
          case addr_line_entry (dasm E) l (sbbp_location_address (bps E) l (bi_breakpoint info) 0) of
            Some le \<Rightarrow> filespec_filename (files E) l (line_entry_file_spec (dasm E) l le) @ '':'' @
                       show_nat (unat (line_entry_line (dasm E) l le))
          | None \<Rightarrow> [])))"

definition handle_exclude_caller :: "'l env \<Rightarrow> exclude_caller_request \<Rightarrow> ('l, exclude_caller_response) sact" where
  "handle_exclude_caller E args =
     andThen (ask (process_selected_thread (proc E))) (\<lambda>thread.
     andThen (ask (\<lambda>l. thread_stop_reason (thr E) l thread)) (\<lambda>reason.
     if reason = SrBreakpoint then
       andThen (ask (\<lambda>l. ucast (thread_stop_reason_data (thr E) l thread 0))) (\<lambda>bid.
       andThen (ask (\<lambda>l. symbol_from_frame E l (as_u64 (ecr_thread_id args)) (ecr_frame_index args))) (\<lambda>symb.
       andThen (reads (\<lambda>s. hm_get (breakpoint_infos (bpts s)) bid)) (\<lambda>found.
       case (symb, found) of
         (Some symb, Some info) \<Rightarrow>
           andThen (update_infos (AList.map_entry bid (add_exclusion symb))) (\<lambda>_.
           andThen (exclusion_site E bid info) (\<lambda>(site_id, label).
           ret \<lparr>ecr_exclusion = \<lparr>ec_site_id = site_id, ec_symbol = symb\<rparr>, ecr_label = label\<rparr>))
       | _ \<Rightarrow> bail (blame_user (str_error ''Could not locate symbol for this stack frame.'')))))
     else bail (blame_user (str_error ''Must be stopped on a breakpoint.''))))"

definition apply_exclusion :: "excluded_caller \<Rightarrow> (u32 \<times> breakpoint_info) list \<Rightarrow> (u32 \<times> breakpoint_info) list" where
  "apply_exclusion exclusion infos = (case ec_site_id exclusion of
      First bid \<Rightarrow> AList.map_entry (as_u32 bid) (add_exclusion (ec_symbol exclusion)) infos
    | Second exc_name \<Rightarrow>
        map (\<lambda>(bid, info). (bid, if bi_kind info = KException exc_name
           then add_exclusion (ec_symbol exclusion) info else info)) infos)"

definition handle_set_excluded_callers :: "set_excluded_callers_request \<Rightarrow> ('l, unit) sact" where
  "handle_set_excluded_callers args =
     andThen (update_infos (map (\<lambda>(bid, info). (bid, info\<lparr>bi_exclusions := []\<rparr>)))) (\<lambda>_.
     for_each (sec_exclusions args) (\<lambda>exclusion. update_infos (apply_exclusion exclusion)))"

end
