(* ===== verification/Breakpoint_Laws.thy ===== *)
theory Breakpoint_Laws
  imports Breakpoints
begin

text \<open>
  Laws of breakpoints: the tables after a request, stable ids, counting of hits, and logpoints.
\<close>

section \<open>What placing a breakpoint leaves alone\<close>

definition bp_tables where
  "bp_tables b = (source_bps b, assembly_bps b, instruction_bps b, function_bps b)"

abbreviation same_tables where
  "same_tables T s \<equiv> bp_tables (bpts s) = T"

lemma bp_tables_infos [simp]: "bp_tables (b\<lparr>breakpoint_infos := x\<rparr>) = bp_tables b"
  by (simp add: bp_tables_def)

lemmas table_intros = inv_intros keeps_run keeps_tell keeps_send_event keeps_dasm_from_address

lemma keeps_tables_basic:
  "keeps (same_tables T) (console_message m1)" "keeps (same_tables T) (console_error m2)"
  "keeps (same_tables T) (attempt f)" "keeps (same_tables T) (enter_info info)"
  "keeps (same_tables T) (forget_info i)"
  unfolding console_defs attempt_def enter_info_def forget_info_def by (intro table_intros; simp)+

lemma keeps_tables_info: "keeps (same_tables T) (make_bp_info E bp kind c m h)"
  unfolding make_bp_info_def by (intro table_intros keeps_tables_basic)

lemma keeps_tables_callback: "keeps (same_tables T) (set_callback E bp c)"
  unfolding set_callback_def by (intro table_intros; simp)

lemma keeps_tables_actions: "keeps (same_tables T) (init_bp_actions E info)"
  unfolding init_bp_actions_def condition_error_def compile_condition_def
  by (intro table_intros keeps_tables_basic keeps_tables_callback; simp split: prepared_expression.split;
      intro conjI allI impI table_intros keeps_tables_basic; simp)

lemma keeps_tables_response: "keeps (same_tables T) (make_bp_response E info src)"
  unfolding make_bp_response_def source_response_def disassembly_response_def
  by (intro table_intros; simp split: breakpoint_kind.split; intro conjI allI impI table_intros; simp)

lemma keeps_tables_hint: "keeps (same_tables T) (get_breakpoint_hint E p line column)"
  unfolding get_breakpoint_hint_def by (intro table_intros; simp)

lemma keeps_tables_find:
  "keeps (same_tables T) create_bp \<Longrightarrow> keeps (same_tables T) (find_or_create E existing key create_bp)"
  unfolding find_or_create_def by (intro table_intros)

lemmas keeps_tables = keeps_tables_basic keeps_tables_info keeps_tables_callback keeps_tables_actions
  keeps_tables_response keeps_tables_hint keeps_tables_find

lemma keeps_tables_plain:
  "keeps (same_tables T) create_bp \<Longrightarrow> keeps (same_tables T) (place_plain E existing key create_bp kind c m h)"
  unfolding place_plain_def by (intro table_intros keeps_tables)

lemma keeps_tables_source: "keeps (same_tables T) (place_source E p existing req)"
  unfolding place_source_def create_source_bp_def
  by (intro table_intros keeps_tables; simp split: breakpoint_mode.split; intro conjI impI table_intros)

lemma keeps_tables_delete: "keeps (same_tables T) (delete_stale E forget existing new)"
  unfolding delete_stale_def by (intro table_intros keeps_tables; simp)

section \<open>Responses carry the id\<close>

lemma make_bp_info_id:
  "make_bp_info E bp kind c m h s = Done (Inr info, s') \<Longrightarrow> bi_id info = sbbp_id (bps E) (dbg s') bp \<and> bi_breakpoint info = bp"
  by (auto simp: make_bp_info_def andThen_ok ask_def act_eval)

lemma source_response_id: "source_response E info src b s = Done (Inr b', s') \<Longrightarrow> bp_id b' = bp_id b"
  by (auto simp: source_response_def andThen_ok ask_def act_eval split: option.splits)

lemma disassembly_response_id: "disassembly_response E info b s = Done (Inr b', s') \<Longrightarrow> bp_id b' = bp_id b"
  by (auto simp: disassembly_response_def act_step act_eval split: prod.splits sum.splits)

lemma make_bp_response_id:
  "make_bp_response E info src s = Done (Inr b, s') \<Longrightarrow> bp_id b = Some (u32_as_i64 (bi_id info))"
  by (auto simp: make_bp_response_def act_step act_eval base_response_def
      dest!: source_response_id disassembly_response_id split: if_splits breakpoint_kind.splits)

lemma place_plain_result:
  "place_plain E existing key create_bp kind c m h s = Done (Inr (k, i, b), s') \<Longrightarrow>
     k = key \<and> bp_id b = Some (u32_as_i64 i)"
  by (auto simp: place_plain_def andThen_ok act_eval dest: make_bp_response_id)

lemma place_source_result:
  "place_source E p existing req s = Done (Inr (k, i, b), s') \<Longrightarrow> k = sb_line req \<and> bp_id b = Some (u32_as_i64 i)"
  by (auto simp: place_source_def andThen_ok act_eval Let_def dest!: make_bp_response_id split: if_splits option.splits)

section \<open>The table after a request\<close>

text \<open>
  The contract of placing one breakpoint, which every kind keeps: it is entered under the key of its
  request, the response carries its id, and the tables of the session are not touched.
\<close>

locale placement =
  fixes put :: "'r \<Rightarrow> ('l, 'k \<times> u32 \<times> breakpoint) sact" and key :: "'r \<Rightarrow> 'k"
  assumes put_result: "put req s = Done (Inr (k, i, b), s') \<Longrightarrow> k = key req \<and> bp_id b = Some (u32_as_i64 i)"
    and put_tables: "keeps (same_tables T) (put req)"
begin

lemma loop_result:
  "place_loop put reqs new res s = Done (Inr (new', res'), s') \<Longrightarrow>
     \<exists>ids. length ids = length reqs \<and>
       map bp_id res' = map bp_id res @ map (Some \<circ> u32_as_i64) ids \<and>
       map_of new' = map_of (rev (zip (map key reqs) ids) @ new)"
proof (induction reqs arbitrary: new res s)
  case Nil
  then show ?case by (simp add: act_eval)
next
  case (Cons req reqs)
  obtain k i b s1 where p: "put req s = Done (Inr (k, i, b), s1)"
    and rest: "place_loop put reqs (hm_insert k i new) (res @ [b]) s1 = Done (Inr (new', res'), s')"
    using Cons.prems by (auto simp: andThen_ok)
  from Cons.IH [OF rest] obtain ids where ids: "length ids = length reqs"
    "map bp_id res' = map bp_id (res @ [b]) @ map (Some \<circ> u32_as_i64) ids"
    "map_of new' = map_of (rev (zip (map key reqs) ids) @ hm_insert k i new)" by blast
  show ?case
    using put_result [OF p] ids by (intro exI [of _ "i # ids"]) (simp add: map_add_upd update_conv')
qed

lemma loop_tables: "keeps (same_tables T) (place_loop put reqs new res)"
  by (induction reqs arbitrary: new res) (auto intro!: inv_intros put_tables)

lemma loop_keeps: "(\<And>req. keeps P (put req)) \<Longrightarrow> keeps P (place_loop put reqs new res)"
  by (induction reqs arbitrary: new res) (auto intro!: inv_intros)

lemma loop_length:
  assumes "place_loop put reqs [] [] s = Done (Inr (new, res), s')"
  shows "length res = length reqs"
proof -
  from loop_result [OF assms] obtain ids where "length ids = length reqs" "map bp_id res = map (Some \<circ> u32_as_i64) ids"
    by auto
  then show ?thesis by (metis length_map)
qed

end

interpretation source_place: placement "place_source E p existing" sb_line
  by unfold_locales (auto dest: place_source_result intro: keeps_tables_source)

interpretation dasm_place: placement "place_dasm E d existing" sb_line
  unfolding place_dasm_def
  by unfold_locales (auto simp: andThen_ok dest!: place_plain_result intro!: inv_intros keeps_tables_plain keeps_run)

definition instruction_key :: "'l env \<Rightarrow> instruction_breakpoint \<Rightarrow> address" where
  "instruction_key E req =
     (case parse_int_u64 (libs E) (ib_instruction_reference req) of Inr a \<Rightarrow> a | Inl _ \<Rightarrow> 0) + as_u64 (unwrap_or (ib_offset req) 0)"

interpretation instruction_place: placement "place_instruction E existing" "instruction_key E"
  unfolding place_instruction_def instruction_key_def
  by unfold_locales
    (auto simp: andThen_ok act_eval Let_def dest!: place_plain_result intro!: inv_intros keeps_tables_plain keeps_run
      split: sum.splits)

interpretation function_place: placement "place_function E existing" fb_name
  unfolding place_function_def
  by unfold_locales (auto dest!: place_plain_result intro!: keeps_tables_plain keeps_run)

text \<open>
  Property C31.  After a request for the breakpoints of a source file there is one response per
  requested breakpoint, in the order of the request, and each carries the id of a breakpoint; the
  table of the file then maps exactly the requested lines to these ids (the last one where a line was
  requested twice), and the tables of other files and of the other kinds of breakpoints are unchanged.
\<close>

theorem source_breakpoints_set:
  assumes "set_source_breakpoints E p reqs s = Done (Inr res, s')"
  shows "\<exists>ids table. length ids = length reqs \<and> map bp_id res = map (Some \<circ> u32_as_i64) ids \<and>
    hm_get (source_bps (bpts s')) p = Some table \<and>
    hm_get table = map_of (rev (zip (map sb_line reqs) ids)) \<and>
    (\<forall>q. q \<noteq> p \<longrightarrow> hm_get (source_bps (bpts s')) q = hm_get (source_bps (bpts s)) q) \<and>
    assembly_bps (bpts s') = assembly_bps (bpts s) \<and> instruction_bps (bpts s') = instruction_bps (bpts s) \<and>
    function_bps (bpts s') = function_bps (bpts s)"
proof -
  let ?existing = "unwrap_or (hm_get (source_bps (bpts s)) p) []"
  let ?s0 = "s\<lparr>bpts := (bpts s)\<lparr>source_bps := hm_insert p ?existing (source_bps (bpts s))\<rparr>\<rparr>"
  obtain new s1 s2 where loop: "place_loop (place_source E (normalize_path p) ?existing) reqs [] [] ?s0 = Done (Inr (new, res), s1)"
    and del: "delete_stale E True ?existing new s1 = Done (Inr (), s2)"
    and s': "s' = s2\<lparr>bpts := (bpts s2)\<lparr>source_bps := hm_insert p new (source_bps (bpts s2))\<rparr>\<rparr>"
    using assms by (auto simp: set_source_breakpoints_def set_source_table_def act_step andThen_ok act_eval)
  have "same_tables (bp_tables (bpts ?s0)) s1" by (rule keepsD [OF source_place.loop_tables _ loop]) simp
  from keepsD [OF keeps_tables_delete this del] have t: "bp_tables (bpts s2) = bp_tables (bpts ?s0)" .
  from source_place.loop_result [OF loop] obtain ids where ids: "length ids = length reqs"
    "map bp_id res = map (Some \<circ> u32_as_i64) ids" "map_of new = map_of (rev (zip (map sb_line reqs) ids))" by auto
  show ?thesis
    by (rule exI [of _ ids], rule exI [of _ new]) (use t ids in \<open>simp add: s' bp_tables_def update_conv'\<close>)
qed

definition sample_bp_env :: "unit env" where
  "sample_bp_env = stub_env\<lparr>bps := stub_breakpoint_api\<lparr>
     breakpoint_create_by_location := \<lambda>l _ line _. (SBBreakpoint (unat line), l),
     find_breakpoint_by_id := \<lambda>_ i. Some (SBBreakpoint (unat i)),
     sbbp_id := \<lambda>_ bp. case bp of SBBreakpoint n \<Rightarrow> of_nat n\<rparr>\<rparr>"

definition sample_request :: "int \<Rightarrow> source_breakpoint" where
  "sample_request line = \<lparr>sb_line = line, sb_column = None, sb_condition = None, sb_hit_condition = None, sb_log_message = None\<rparr>"

lemma sample_place_source:
  assumes "0 \<le> line" "line < 2 ^ 32" "breakpoint_mode s = ModePath"
  shows "\<exists>b s'. place_source sample_bp_env [RootDir, Normal ''a''] existing (sample_request line) s =
      Done (Inr (line, (case hm_get existing line of None \<Rightarrow> as_u32 line | Some i \<Rightarrow> i), b), s') \<and> breakpoint_mode s' = ModePath"
  using assms
  by (cases "hm_get existing line")
    (simp_all add: place_source_def find_or_create_def create_source_bp_def make_bp_info_def empty2none_def init_bp_actions_def
      set_callback_def make_bp_response_def get_breakpoint_hint_def file_name_def best_location_def enter_info_def
      sample_bp_env_def sample_request_def stub_defs act_step act_eval)

lemma sample_set_source:
  "\<exists>res s'. set_source_breakpoints sample_bp_env [RootDir, Normal ''a''] [sample_request 3, sample_request 7] (session_new () False) =
     Done (Inr res, s')"
proof -
  let ?p = "[RootDir, Normal ''a'']"
  let ?s = "(session_new () False)\<lparr>bpts := breakpoints_new\<lparr>source_bps := [(?p, [])]\<rparr>\<rparr>"
  have n: "normalize_path ?p = ?p" by code_simp
  obtain b s1 where p1: "place_source sample_bp_env ?p [] (sample_request 3) ?s = Done (Inr (3, 3, b), s1)" "breakpoint_mode s1 = ModePath"
    using sample_place_source [of 3 ?s "[]"] by (auto simp: as_u32_def session_new_def)
  obtain c s2 where p2: "place_source sample_bp_env ?p [] (sample_request 7) s1 = Done (Inr (7, 7, c), s2)"
    using sample_place_source [of 7 s1 "[]"] p1(2) by (auto simp: as_u32_def)
  have "place_loop (place_source sample_bp_env ?p []) [sample_request 3, sample_request 7] [] [] ?s =
      Done (Inr ([(3, 3), (7, 7)], [b, c]), s2)"
    by (simp add: andThen_def p1(1) p2 act_eval)
  then have "andThen (place_loop (place_source sample_bp_env ?p []) [sample_request 3, sample_request 7] [] []) f ?s =
      f ([(3, 3), (7, 7)], [b, c]) s2" for f :: "_ \<Rightarrow> (unit, breakpoint list) sact"
    by (rule andThen_eval(1))
  then show ?thesis
    by (simp add: set_source_breakpoints_def set_source_table_def delete_stale_def n session_new_def breakpoints_new_def
        unwrap_or_def act_step act_eval)
qed

theorem source_breakpoints_set_witness:
  "\<exists>res s' ids table.
     set_source_breakpoints sample_bp_env [RootDir, Normal ''a''] [sample_request 3, sample_request 7] (session_new () False) =
       Done (Inr res, s') \<and> map bp_id res = map (Some \<circ> u32_as_i64) ids \<and>
     hm_get (source_bps (bpts s')) [RootDir, Normal ''a''] = Some table \<and> hm_get table = map_of (rev (zip [3, 7] ids))"
proof -
  obtain res s' where set: "set_source_breakpoints sample_bp_env [RootDir, Normal ''a''] [sample_request 3, sample_request 7]
      (session_new () False) = Done (Inr res, s')" using sample_set_source by blast
  from source_breakpoints_set [OF set] show ?thesis using set by (auto simp: sample_request_def)
qed

section \<open>Ids are stable\<close>

text \<open>
  LLDB knows a breakpoint under its id until it is deleted: other operations on breakpoints, and compiling
  Python code, leave it alone, deleting another one does, and a new breakpoint has an id of its own.
\<close>

definition knows :: "'l env \<Rightarrow> 'l \<Rightarrow> u32 \<Rightarrow> sbbreakpoint \<Rightarrow> bool" where
  "knows E l i bp \<longleftrightarrow> find_breakpoint_by_id (bps E) l i = Some bp \<and> sbbp_id (bps E) l bp = i"

definition breakpoints_persist :: "'l env \<Rightarrow> bool" where
  "breakpoints_persist E \<longleftrightarrow> (\<forall>l i bp. knows E l i bp \<longrightarrow>
     (\<forall>file line column b l'. breakpoint_create_by_location (bps E) l file line column = (b, l') \<longrightarrow>
        knows E l' i bp \<and> sbbp_id (bps E) l' b \<noteq> i) \<and>
     (\<forall>b c. knows E (sbbp_set_condition (bps E) l b c) i bp) \<and>
     (\<forall>b on. knows E (sbbp_set_callback (bps E) l b on) i bp) \<and>
     (\<forall>expr name. knows E (snd (compile_code (pyt E) l expr name)) i bp) \<and>
     (\<forall>j. j \<noteq> i \<longrightarrow> knows E (breakpoint_delete (bps E) l j) i bp))"

lemma persistD:
  assumes "breakpoints_persist E" "knows E l i bp"
  shows "breakpoint_create_by_location (bps E) l file line column = (b, l') \<Longrightarrow> knows E l' i bp \<and> sbbp_id (bps E) l' b \<noteq> i"
    "knows E (sbbp_set_condition (bps E) l b c) i bp" "knows E (sbbp_set_callback (bps E) l b on) i bp"
    "knows E (snd (compile_code (pyt E) l expr name)) i bp"
    "j \<noteq> i \<Longrightarrow> knows E (breakpoint_delete (bps E) l j) i bp"
  using assms unfolding breakpoints_persist_def by blast+

abbreviation still_knows :: "'l env \<Rightarrow> u32 \<Rightarrow> sbbreakpoint \<Rightarrow> 'l session \<Rightarrow> bool" where
  "still_knows E i bp s \<equiv> knows E (dbg s) i bp"

lemma keeps_knows_tell: "(\<And>l. knows E l i bp \<Longrightarrow> knows E (f l) i bp) \<Longrightarrow> keeps (still_knows E i bp) (tell f)"
  by (simp add: tell_def keeps_modifies)

lemma keeps_knows_run: "(\<And>l. knows E l i bp \<Longrightarrow> knows E (snd (f l)) i bp) \<Longrightarrow> keeps (still_knows E i bp) (run f)"
  by (rule keepsI) (fastforce simp: run_def split: prod.splits)

lemma keeps_knows_basic:
  "keeps (still_knows E i bp) (console_message m1)" "keeps (still_knows E i bp) (console_error m2)"
  "keeps (still_knows E i bp) (enter_info info)" "keeps (still_knows E i bp) (forget_info j)"
  "keeps (still_knows E i bp) (make_bp_info E b kind c m h)"
  unfolding console_defs enter_info_def forget_info_def make_bp_info_def
  by (intro inv_intros keeps_send_event; simp)+

lemma keeps_knows_actions:
  assumes "breakpoints_persist E"
  shows "keeps (still_knows E i bp) (init_bp_actions E info)"
proof -
  note p = persistD [OF assms]
  have callback: "keeps (still_knows E i bp) (set_callback E b c)" for b c
    unfolding set_callback_def by (intro inv_intros keeps_knows_tell; simp add: p)
  have err: "keeps (still_knows E i bp) (condition_error e)" for e
    unfolding condition_error_def by (intro inv_intros keeps_knows_basic)
  have compile: "keeps (still_knows E i bp) (compile_condition E expr ctx)" for expr ctx
    unfolding compile_condition_def attempt_def by (intro inv_intros keeps_knows_run err; simp add: p)
  show ?thesis
    unfolding init_bp_actions_def
    by (intro inv_intros callback err compile; simp split: prepared_expression.split;
        intro conjI allI impI inv_intros keeps_knows_tell compile; simp add: p)
qed

lemma keeps_knows_response: "keeps (still_knows E i bp) (make_bp_response E info src)"
  unfolding make_bp_response_def source_response_def disassembly_response_def
  by (intro inv_intros; simp split: breakpoint_kind.split; intro conjI allI impI inv_intros keeps_dasm_from_address; simp)

lemma keeps_knows_hint:
  assumes "breakpoints_persist E"
  shows "keeps (still_knows E i bp) (get_breakpoint_hint E p line column)"
proof (rule keepsI)
  fix s r s'
  assume k: "still_knows E i bp s" and h: "get_breakpoint_hint E p line column s = Done (r, s')"
  show "still_knows E i bp s'"
  proof (cases "file_name p")
    case None
    then show ?thesis using h k by (simp add: get_breakpoint_hint_def act_eval)
  next
    case (Some filename)
    obtain b l where c: "breakpoint_create_by_location (bps E) (dbg s) filename (as_u32 line) (map_option as_u32 column) = (b, l)"
      by fastforce
    note new = persistD(1) [OF assms k c]
    have "dbg s' = breakpoint_delete (bps E) l (sbbp_id (bps E) l b)"
      using h Some c by (auto simp: get_breakpoint_hint_def act_step act_eval)
    then show ?thesis using persistD(5) [OF assms, of l i bp] new by simp
  qed
qed

lemma keeps_knows_place:
  assumes "breakpoints_persist E"
  shows "keeps (still_knows E i bp) (place_source E p table req)"
proof -
  have snd_create: "knows E l i bp \<Longrightarrow> knows E (snd (breakpoint_create_by_location (bps E) l f n c)) i bp" for l f n c
    using persistD(1) [OF assms, of l i bp f n c] by (metis prod.collapse)
  have create: "keeps (still_knows E i bp) (create_source_bp E p req)"
    unfolding create_source_bp_def
    by (intro inv_intros keeps_knows_run snd_create; simp split: breakpoint_mode.split; intro conjI impI inv_intros)
  have find: "keeps (still_knows E i bp) (find_or_create E table (sb_line req) (create_source_bp E p req))"
    unfolding find_or_create_def by (intro inv_intros create)
  show ?thesis
    unfolding place_source_def
    by (intro inv_intros find keeps_knows_basic keeps_knows_actions keeps_knows_response keeps_knows_hint assms)
qed

lemma place_source_reuses:
  assumes known: "knows E (dbg s) i bp" "hm_get table (sb_line req) = Some i"
    and put: "place_source E p table req s = Done (Inr (k, j, b), s')"
  shows "j = i"
proof -
  have found: "find_or_create E table (sb_line req) c s = Done (Inr bp, s)" for c
    using known by (simp add: find_or_create_def knows_def act_step act_eval)
  then obtain info s1 where info: "make_bp_info E bp KSource (sb_condition req) (sb_log_message req) (sb_hit_condition req) s =
      Done (Inr info, s1)" "j = bi_id info"
    using put by (auto simp: place_source_def andThen_ok act_eval)
  have "knows E (dbg s1) i bp" by (rule keepsD [OF keeps_knows_basic(5) known(1) info(1)])
  then show ?thesis using make_bp_info_id [OF info(1)] info(2) by (simp add: knows_def)
qed

lemma place_loop_reuses:
  assumes "breakpoints_persist E" "place_loop (place_source E p table) reqs new res s = Done (Inr (new', res'), s')"
  shows "\<exists>bs. res' = res @ bs \<and> list_all2 (\<lambda>req b. \<forall>i bp. hm_get table (sb_line req) = Some i \<and> knows E (dbg s) i bp \<longrightarrow>
      bp_id b = Some (u32_as_i64 i)) reqs bs"
  using assms(2)
proof (induction reqs arbitrary: new res s)
  case Nil
  then show ?case by (simp add: act_eval)
next
  case (Cons req reqs)
  obtain k i b s1 where p: "place_source E p table req s = Done (Inr (k, i, b), s1)"
    and rest: "place_loop (place_source E p table) reqs (hm_insert k i new) (res @ [b]) s1 = Done (Inr (new', res'), s')"
    using Cons.prems by (auto simp: andThen_ok)
  have keep: "knows E (dbg s) j bp \<Longrightarrow> knows E (dbg s1) j bp" for j bp
    by (rule keepsD [OF keeps_knows_place [OF assms(1)] _ p])
  from Cons.IH [OF rest] obtain bs where bs: "res' = (res @ [b]) @ bs"
    "list_all2 (\<lambda>req b. \<forall>i bp. hm_get table (sb_line req) = Some i \<and> knows E (dbg s1) i bp \<longrightarrow>
      bp_id b = Some (u32_as_i64 i)) reqs bs" by blast
  have "list_all2 (\<lambda>req b. \<forall>i bp. hm_get table (sb_line req) = Some i \<and> knows E (dbg s) i bp \<longrightarrow>
      bp_id b = Some (u32_as_i64 i)) (req # reqs) (b # bs)"
    unfolding list.rel_inject(2)
  proof (intro conjI allI impI)
    show "bp_id b = Some (u32_as_i64 j)" if "hm_get table (sb_line req) = Some j \<and> knows E (dbg s) j bp" for j bp
      using that place_source_result [OF p] place_source_reuses [OF _ _ p] by blast
    show "list_all2 (\<lambda>req b. \<forall>i bp. hm_get table (sb_line req) = Some i \<and> knows E (dbg s) i bp \<longrightarrow>
        bp_id b = Some (u32_as_i64 i)) reqs bs"
      by (rule list.rel_mono_strong [OF bs(2)]) (use keep in blast)
  qed
  then show ?case using bs(1) by auto
qed

lemma delete_stale_knows:
  assumes "breakpoints_persist E" "distinct (map snd table)" "(k, i) \<in> set table" "hm_get new k \<noteq> None"
  shows "keeps (still_knows E i bp) (delete_stale E forget table new)"
  unfolding delete_stale_def
proof (intro keeps_for_each, clarify)
  fix key bid
  assume bid: "(key, bid) \<in> set table"
  have "bid \<noteq> i" if none: "hm_get new key = None"
  proof
    assume "bid = i"
    then have "(key, bid) = (k, i)"
      using assms(2,3) bid by (auto simp: distinct_map dest: inj_onD [of snd _ "(key, i)" "(k, i)"])
    then show False using none assms(4) by simp
  qed
  then show "keeps (still_knows E i bp) (if hm_get new key \<noteq> None then ret ()
      else andThen (tell (\<lambda>l. breakpoint_delete (bps E) l bid)) (\<lambda>_. if forget then forget_info bid else ret ()))"
    by (intro inv_intros keeps_knows_tell keeps_knows_basic persistD(5) [OF assms(1)]; simp)
qed

text \<open>
  Property C32.  Setting the breakpoints of a file again keeps those that were there: a line that
  has a breakpoint which LLDB knows when the request arrives gets a response with the id of that breakpoint, so that
  hits already reported under this id stay meaningful, and LLDB still knows it afterwards (if no other line of the
  table has the same id).  What is assumed of LLDB is that it forgets a breakpoint only when it is deleted.
\<close>

theorem breakpoint_ids_stable:
  assumes "set_source_breakpoints E p reqs s = Done (Inr res, s')"
    and "hm_get (source_bps (bpts s)) p = Some table" "breakpoints_persist E"
  shows "list_all2 (\<lambda>req b. \<forall>i bp. hm_get table (sb_line req) = Some i \<and> knows E (dbg s) i bp \<longrightarrow>
      bp_id b = Some (u32_as_i64 i) \<and> (distinct (map snd table) \<longrightarrow> knows E (dbg s') i bp)) reqs res"
proof -
  let ?s0 = "s\<lparr>bpts := (bpts s)\<lparr>source_bps := hm_insert p table (source_bps (bpts s))\<rparr>\<rparr>"
  obtain new s1 s2 where loop: "place_loop (place_source E (normalize_path p) table) reqs [] [] ?s0 = Done (Inr (new, res), s1)"
    and del: "delete_stale E True table new s1 = Done (Inr (), s2)" and s': "dbg s' = dbg s2"
    using assms(1,2)
    by (auto simp: set_source_breakpoints_def set_source_table_def unwrap_or_def act_step andThen_ok act_eval)
  have ids: "list_all2 (\<lambda>req b. \<forall>i bp. hm_get table (sb_line req) = Some i \<and> knows E (dbg s) i bp \<longrightarrow>
      bp_id b = Some (u32_as_i64 i)) reqs res"
    using place_loop_reuses [OF assms(3) loop] by simp
  have kept: "knows E (dbg s') i bp"
    if "req \<in> set reqs" "hm_get table (sb_line req) = Some i" "knows E (dbg s) i bp" "distinct (map snd table)" for req i bp
  proof -
    have "knows E (dbg s1) i bp"
      using keepsD [OF source_place.loop_keeps [OF keeps_knows_place [OF assms(3)]] _ loop, of i bp] that(3) by simp
    moreover obtain js where "length js = length reqs" "hm_get new = hm_get (rev (zip (map sb_line reqs) js))"
      using source_place.loop_result [OF loop] by auto
    moreover have "fst ` set (zip (map sb_line reqs) js) = set (map sb_line reqs)"
      by (metis calculation(2) length_map list.set_map map_fst_zip)
    ultimately have "knows E (dbg s1) i bp" "hm_get new (sb_line req) \<noteq> None"
      using that(1) by (simp_all add: map_of_eq_None_iff del: not_None_eq)
    then show ?thesis
      unfolding s' using keepsD [OF delete_stale_knows [OF assms(3) that(4) hm_get_in_set [OF that(2)]] _ del] by blast
  qed
  show ?thesis by (rule list.rel_mono_strong [OF ids]) (use kept in blast)
qed

text \<open>
  A debugger whose state is the list of the ids of its breakpoints.  A new breakpoint gets the next id, or the invalid
  id 0 when there is none left.
\<close>

definition new_id :: "u32 list \<Rightarrow> u32" where
  "new_id ids = (let m = foldr max ids 0 in if unat m + 1 < 2 ^ 32 then of_nat (unat m + 1) else 0)"

definition sample_lldb :: "u32 list env" where
  "sample_lldb = stub_env\<lparr>bps := stub_breakpoint_api\<lparr>
     breakpoint_create_by_location := \<lambda>l _ _ _. (let i = new_id l in (SBBreakpoint (unat i), if i = 0 then l else i # l)),
     find_breakpoint_by_id := \<lambda>l i. if i \<in> set l \<and> i \<noteq> 0 then Some (SBBreakpoint (unat i)) else None,
     breakpoint_delete := \<lambda>l i. removeAll i l,
     sbbp_id := \<lambda>_ bp. case bp of SBBreakpoint n \<Rightarrow> of_nat n\<rparr>\<rparr>"

lemma new_id_fresh:
  assumes "i \<in> set ids" "i \<noteq> 0"
  shows "new_id ids \<noteq> i"
proof -
  have "i \<le> foldr max ids 0" using assms(1) by (induction ids) (auto simp: le_max_iff_disj)
  then have less: "unat i < unat (foldr max ids 0) + 1" by (simp add: word_le_nat_alt less_Suc_eq_le)
  show ?thesis
  proof (cases "unat (foldr max ids 0) + 1 < 2 ^ 32")
    case True
    then have "unat (new_id ids) = unat (foldr max ids 0) + 1"
      unfolding new_id_def Let_def if_P [OF True] by (simp only: unsigned_of_nat) (simp add: take_bit_nat_eq_self)
    then show ?thesis using less by auto
  next
    case False
    then show ?thesis using assms(2) unfolding new_id_def Let_def by (simp only: if_False)
  qed
qed

lemma sample_lldb_persists: "breakpoints_persist sample_lldb"
  by (auto simp: breakpoints_persist_def knows_def sample_lldb_def stub_defs Let_def new_id_fresh split: if_splits)

lemma sample_set_again:
  "\<exists>res s'. set_source_breakpoints sample_lldb [RootDir, Normal ''a''] [sample_request 3, sample_request 7]
     ((session_new [9] False)\<lparr>bpts := breakpoints_new\<lparr>source_bps := [([RootDir, Normal ''a''], [(3, 9)])]\<rparr>\<rparr>) = Done (Inr res, s')"
proof -
  let ?p = "[RootDir, Normal ''a'']"
  let ?s = "(session_new [9 :: u32] False)\<lparr>bpts := breakpoints_new\<lparr>source_bps := [(?p, [(3, 9)])]\<rparr>\<rparr>"
  have n: "normalize_path ?p = ?p" by code_simp
  have place: "\<exists>i b s'. place_source sample_lldb ?p [(3, 9)] (sample_request line) s = Done (Inr (line, i, b), s') \<and>
      breakpoint_mode s' = ModePath" if "breakpoint_mode s = ModePath" for line s
    using that
    by (simp add: place_source_def find_or_create_def create_source_bp_def make_bp_info_def empty2none_def init_bp_actions_def
        set_callback_def make_bp_response_def get_breakpoint_hint_def file_name_def best_location_def enter_info_def
        sample_lldb_def sample_request_def stub_defs act_step act_eval Let_def)
  obtain i b s1 where p1: "place_source sample_lldb ?p [(3, 9)] (sample_request 3) ?s = Done (Inr (3, i, b), s1)"
    "breakpoint_mode s1 = ModePath"
    using place [of ?s 3] by (auto simp: session_new_def)
  obtain j c s2 where p2: "place_source sample_lldb ?p [(3, 9)] (sample_request 7) s1 = Done (Inr (7, j, c), s2)"
    using place [OF p1(2)] by blast
  have "place_loop (place_source sample_lldb ?p [(3, 9)]) [sample_request 3, sample_request 7] [] [] ?s =
      Done (Inr ([(3, i), (7, j)], [b, c]), s2)"
    by (simp add: andThen_def p1(1) p2 act_eval)
  then have "andThen (place_loop (place_source sample_lldb ?p [(3, 9)]) [sample_request 3, sample_request 7] [] []) f ?s =
      f ([(3, i), (7, j)], [b, c]) s2" for f :: "_ \<Rightarrow> (u32 list, breakpoint list) sact"
    by (rule andThen_eval(1))
  then show ?thesis
    by (simp add: set_source_breakpoints_def set_source_table_def delete_stale_def n session_new_def breakpoints_new_def
        unwrap_or_def act_step act_eval)
qed

theorem breakpoint_ids_stable_witness:
  "\<exists>res s'. set_source_breakpoints sample_lldb [RootDir, Normal ''a''] [sample_request 3, sample_request 7]
     ((session_new [9] False)\<lparr>bpts := breakpoints_new\<lparr>source_bps := [([RootDir, Normal ''a''], [(3, 9)])]\<rparr>\<rparr>) =
       Done (Inr res, s') \<and> bp_id (hd res) = Some 9 \<and> knows sample_lldb (dbg s') 9 (SBBreakpoint 9)"
proof -
  let ?s = "(session_new [9 :: u32] False)\<lparr>bpts := breakpoints_new\<lparr>source_bps := [([RootDir, Normal ''a''], [(3, 9)])]\<rparr>\<rparr>"
  obtain res s' where set: "set_source_breakpoints sample_lldb [RootDir, Normal ''a''] [sample_request 3, sample_request 7] ?s =
       Done (Inr res, s')" using sample_set_again by blast
  have "knows sample_lldb (dbg ?s) 9 (SBBreakpoint 9)" by (simp add: knows_def sample_lldb_def session_new_def)
  then show ?thesis
    using breakpoint_ids_stable [OF set _ sample_lldb_persists, of "[(3, 9)]"] set
    by (auto simp: sample_request_def list_all2_Cons1 u32_as_i64_def)
qed

section \<open>Counting hits\<close>

text \<open>Whether the \<open>k\<close>-th hit stops, stated over numbers.\<close>

fun stops_at :: "hit_condition \<Rightarrow> nat \<Rightarrow> bool" where
  "stops_at (LT n) k \<longleftrightarrow> k < unat n"
| "stops_at (LE n) k \<longleftrightarrow> k \<le> unat n"
| "stops_at (EQ n) k \<longleftrightarrow> k = unat n"
| "stops_at (GE n) k \<longleftrightarrow> k \<ge> unat n"
| "stops_at (GT n) k \<longleftrightarrow> k > unat n"
| "stops_at (MOD n) k \<longleftrightarrow> unat n dvd k"

lemma hit_condition_met_stops:
  assumes "k < 2 ^ 32" "cond \<noteq> MOD 0"
  shows "hit_condition_met cond (of_nat k) = Done (stops_at cond k)"
proof -
  have k: "unat (of_nat k :: u32) = k" using assms(1) by (simp add: unsigned_of_nat take_bit_nat_eq_self)
  show ?thesis
    using assms(2) k
    by (cases cond) (auto simp: word_less_nat_alt word_le_nat_alt word_unat_eq_iff unat_mod dvd_eq_mod_eq_0)
qed

lemma hit_counts:
  assumes "hm_get (breakpoint_infos (bpts s)) bid = Some info" "bi_exclusions info = []" "bi_log_message info = None"
    and "bi_hit_condition info = Some cond" "cond \<noteq> MOD 0" "bi_hit_count info = of_nat k" "k + 1 < 2 ^ 32"
  shows "\<exists>s'. on_breakpoint_hit E thread bid None s = Done (Inr (stops_at cond (k + 1)), s') \<and>
    hm_get (breakpoint_infos (bpts s')) bid = Some (info\<lparr>bi_hit_count := of_nat (k + 1)\<rparr>)"
proof -
  have "hit_condition_met cond (bi_hit_count info + 1) = Done (stops_at cond (k + 1))"
    using hit_condition_met_stops [of "k + 1" cond] assms by (simp add: add.commute)
  then show ?thesis
    using assms by (simp add: on_breakpoint_hit_def is_excluded_def check_condition_def set_hit_count_def act_step act_eval
        map_of_map_entry add.commute)
qed

text \<open>
  Property C33.  A breakpoint with a hit condition stops at exactly the hits which the condition
  describes: the answers to the first \<open>n\<close> hits are those of the condition at \<open>1, 2, ..., n\<close>, and the count
  that is kept is the number of hits.
\<close>

theorem hits_counted:
  assumes "hm_get (breakpoint_infos (bpts s)) bid = Some info" "bi_exclusions info = []" "bi_log_message info = None"
    and "bi_hit_condition info = Some cond" "cond \<noteq> MOD 0" "bi_hit_count info = 0" "n < 2 ^ 32"
  shows "\<exists>s'. for_collect [0..<n] (\<lambda>_. on_breakpoint_hit E thread bid None) s =
      Done (Inr (map (stops_at cond) [1..<n + 1]), s') \<and>
    hm_get (breakpoint_infos (bpts s')) bid = Some (info\<lparr>bi_hit_count := of_nat n\<rparr>)"
proof -
  have "\<exists>s'. for_collect [k..<n] (\<lambda>_. on_breakpoint_hit E thread bid None) s =
      Done (Inr (map (stops_at cond) [k + 1..<n + 1]), s') \<and>
    hm_get (breakpoint_infos (bpts s')) bid = Some (info\<lparr>bi_hit_count := of_nat n\<rparr>)"
    if "k \<le> n" "hm_get (breakpoint_infos (bpts s)) bid = Some (info\<lparr>bi_hit_count := of_nat k\<rparr>)" for k s
    using that
  proof (induction "n - k" arbitrary: k s)
    case 0
    then show ?case by (simp add: act_eval)
  next
    case (Suc d)
    then have kn: "k < n" "d = n - (k + 1)" by simp_all
    obtain s1 where s1: "on_breakpoint_hit E thread bid None s = Done (Inr (stops_at cond (k + 1)), s1)"
      "hm_get (breakpoint_infos (bpts s1)) bid = Some (info\<lparr>bi_hit_count := of_nat (k + 1)\<rparr>)"
      using hit_counts [OF Suc.prems(2), of cond k E thread] assms kn(1) by auto
    obtain s2 where s2: "for_collect [k + 1..<n] (\<lambda>_. on_breakpoint_hit E thread bid None) s1 =
        Done (Inr (map (stops_at cond) [k + 2..<n + 1]), s2)"
      "hm_get (breakpoint_infos (bpts s2)) bid = Some (info\<lparr>bi_hit_count := of_nat n\<rparr>)"
      using Suc.hyps(1) [OF kn(2) _ s1(2)] kn(1) by auto
    have "[k..<n] = k # [k + 1..<n]" "[k + 1..<n + 1] = (k + 1) # [k + 2..<n + 1]"
      using kn(1) upt_conv_Cons by simp_all
    then show ?case using s1(1) s2 by (simp add: andThen_def act_eval)
  qed
  from this [of 0 s] show ?thesis using assms(1,6) by simp
qed

definition sample_info :: breakpoint_info where
  "sample_info = \<lparr>bi_id = 1, bi_breakpoint = SBBreakpoint 1, bi_kind = KSource, bi_condition = None, bi_log_message = None,
     bi_hit_condition = Some (MOD 2), bi_hit_count = 0, bi_exclusions = []\<rparr>"

theorem hits_counted_witness:
  "\<exists>s'. for_collect [0..<4] (\<lambda>_. on_breakpoint_hit stub_env (SBThread 0) 1 None)
      ((session_new () False)\<lparr>bpts := breakpoints_new\<lparr>breakpoint_infos := [(1, sample_info)]\<rparr>\<rparr>) =
    Done (Inr [False, True, False, True], s')"
proof -
  have "map (stops_at (MOD 2)) [1..<5] = [False, True, False, True]" by code_simp
  then show ?thesis
    using hits_counted [of "(session_new () False)\<lparr>bpts := breakpoints_new\<lparr>breakpoint_infos := [(1, sample_info)]\<rparr>\<rparr>" 1
        sample_info "MOD 2" 4 stub_env "SBThread 0"]
    by (auto simp: sample_info_def)
qed

section \<open>Logpoint messages\<close>

text \<open>The depth of braces after a text that starts at the given depth; \<open>None\<close> if it closes too many.\<close>

fun brace_depth :: "nat \<Rightarrow> string \<Rightarrow> nat option" where
  "brace_depth d [] = Some d"
| "brace_depth d (c # s) =
     (if c = CHR ''{'' then brace_depth (d + 1) s
      else if c = CHR ''}'' then (case d of 0 \<Rightarrow> None | Suc e \<Rightarrow> brace_depth e s)
      else brace_depth d s)"

definition balanced :: "string \<Rightarrow> bool" where
  "balanced expr \<longleftrightarrow> brace_depth 0 expr = Some 0"

definition literal :: "string \<Rightarrow> bool" where
  "literal t \<longleftrightarrow> CHR ''{'' \<notin> set t"

definition shown_value :: "task error + string \<Rightarrow> string" where
  "shown_value r = (case r of Inr v \<Rightarrow> v | Inl err \<Rightarrow> ''{Error: '' @ error_text err @ ''}'')"

lemma replace_loop_literal:
  "literal t \<Longrightarrow> replace_loop f (t @ rest) seg 0 res = replace_loop f rest (seg @ t) 0 res"
  by (induction t arbitrary: seg) (auto simp: literal_def)

lemma replace_loop_inside:
  "brace_depth d e = Some 0 \<Longrightarrow>
     replace_loop f (e @ rest) seg (d + 1) res = replace_loop f rest (seg @ e) 1 res"
  by (induction d e arbitrary: seg rule: brace_depth.induct) (auto split: nat.splits if_splits)

lemma replace_loop_part:
  assumes "literal t" "balanced e"
  shows "replace_loop f (t @ ''{'' @ e @ ''}'' @ rest) [] 0 res =
    onResult (f e) (\<lambda>r. replace_loop f rest [] 0 (res @ t @ shown_value r))"
  using replace_loop_literal [OF assms(1), of f "CHR ''{'' # e @ CHR ''}'' # rest" "[]" res]
    replace_loop_inside [of 0 e f "CHR ''}'' # rest" "[]" "res @ t"] assms(2)
  by (simp add: balanced_def shown_value_def)

lemma replace_loop_parts:
  assumes "\<forall>(t, e) \<in> set parts. literal t \<and> balanced e" "literal tail"
  shows "replace_loop f (concat (map (\<lambda>(t, e). t @ ''{'' @ e @ ''}'') parts) @ tail) [] 0 res s =
    andThen (for_collect parts (\<lambda>(t, e). onResult (f e) (\<lambda>r. ret (t @ shown_value r))))
      (\<lambda>outs. ret (res @ concat outs @ tail)) s"
  using assms(1)
proof (induction parts arbitrary: res s)
  case Nil
  then show ?case using replace_loop_literal [OF assms(2), of f "[]" "[]" res] by (simp add: andThen_def act_eval)
next
  case (Cons part parts)
  obtain t e where part: "part = (t, e)" by force
  show ?case
    using Cons.prems Cons.IH
      replace_loop_part [of t e f "concat (map (\<lambda>(t, e). t @ ''{'' @ e @ ''}'') parts) @ tail" res]
    by (cases "f e s") (auto simp: part onResult_def andThen_def act_eval split: exec.splits sum.splits)
qed

text \<open>
  Property C34.  A logpoint message is printed with every expression in braces replaced by its value,
  or by the error of its evaluation, and all other text as it is; the expressions are evaluated from
  left to right, and braces inside an expression belong to it.
\<close>

theorem logpoint_message_formatted:
  assumes "\<forall>(t, e) \<in> set parts. literal t \<and> balanced e" "literal tail"
  shows "format_logpoint_message E (concat (map (\<lambda>(t, e). t @ ''{'' @ e @ ''}'') parts) @ tail) frame s =
    andThen (for_collect parts (\<lambda>(t, e). onResult (logpoint_value E frame e) (\<lambda>r. ret (t @ shown_value r))))
      (\<lambda>outs. ret (concat outs @ tail)) s"
  using replace_loop_parts [OF assms, of "logpoint_value E frame" "[]" s]
  by (simp add: format_logpoint_message_def replace_logpoint_expressions_def)

theorem logpoint_message_formatted_witness:
  "format_logpoint_message stub_env (concat (map (\<lambda>(t, e). t @ ''{'' @ e @ ''}'') [(''x = '', ''{x}'')]) @ ''}'') (SBFrame 0)
      (session_new () False) =
    andThen (for_collect [(''x = '', ''{x}'')]
        (\<lambda>(t, e). onResult (logpoint_value stub_env (SBFrame 0) e) (\<lambda>r. ret (t @ shown_value r))))
      (\<lambda>outs. ret (concat outs @ ''}'')) (session_new () False)"
  by (rule logpoint_message_formatted) (simp_all add: literal_def balanced_def)

end
