(* ===== verification/Session_Memory.thy ===== *)
theory Session_Memory
  imports Variables
begin

text \<open>
  Data breakpoints and raw memory (\<^verbatim>\<open>debug_session.rs\<close>): which address and size a data breakpoint watches,
  the ids under which clients refer to them, and reading and writing memory.
\<close>

section \<open>Parsing integers with an error\<close>

text \<open>The messages of \<^verbatim>\<open>ParseIntError\<close>; the loop fails at the first digit that is none or overflows.\<close>

fun digits_error :: "nat \<Rightarrow> nat \<Rightarrow> string \<Rightarrow> string" where
  "digits_error bound acc [] = []"
| "digits_error bound acc (c # s) =
    (case dec_digit c of
       None \<Rightarrow> ''invalid digit found in string''
     | Some d \<Rightarrow>
         if acc * 10 + d < bound then digits_error bound (acc * 10 + d) s
         else ''number too large to fit in target type'')"

definition parse_error :: "nat \<Rightarrow> string \<Rightarrow> string" where
  "parse_error bound s = (case s of
      [] \<Rightarrow> ''cannot parse integer from empty string''
    | c # r \<Rightarrow>
        if c = CHR ''+'' then (if r = [] then ''invalid digit found in string'' else digits_error bound 0 r)
        else digits_error bound 0 s)"

definition parse_u64 :: "string \<Rightarrow> ('l, u64) sact" where
  "parse_u64 s = (case parse_unsigned (2 ^ 64) s of
      Some n \<Rightarrow> ret (of_nat n)
    | None \<Rightarrow> bail (StrError (parse_error (2 ^ 64) s)))"

definition parsed_int :: "string + 'a \<Rightarrow> ('l, 'a) sact" where
  "parsed_int r = (case r of Inl err \<Rightarrow> bail (StrError err) | Inr n \<Rightarrow> ret n)"

section \<open>Data breakpoints\<close>

definition make_data_id :: "address \<Rightarrow> u64 \<Rightarrow> string" where
  "make_data_id addr sz = show_nat (unat addr) @ ''/'' @ show_nat (unat sz)"

definition watch_size :: "int option \<Rightarrow> nat \<Rightarrow> u64" where
  "watch_size bytes byte_size = as_u64 (unwrap_or bytes (wrap_i64 (int byte_size)))"

definition watchable :: "address \<Rightarrow> u64 \<Rightarrow> string \<Rightarrow> data_breakpoint_info_response_body" where
  "watchable addr sz descr = default_data_breakpoint_info_response_body\<lparr>
     di_data_id := Some (make_data_id addr sz), di_access_types := [AccRead, AccWrite, AccReadWrite],
     di_description := show_nat (unat sz) @ '' bytes at '' @ show_HEX (unat addr) @ descr\<rparr>"

definition not_watchable :: "string \<Rightarrow> data_breakpoint_info_response_body" where
  "not_watchable descr = default_data_breakpoint_info_response_body\<lparr>di_description := descr\<rparr>"

definition watch_value :: "'l env \<Rightarrow> int option \<Rightarrow> string \<Rightarrow> string \<Rightarrow> sbvalue \<Rightarrow> ('l, data_breakpoint_info_response_body) sact" where
  "watch_value E bytes default_name no_address v =
     andThen (ask (\<lambda>l. value_load_address (val E) l v)) (\<lambda>addr.
     if addr \<noteq> INVALID_ADDRESS then
       ask (\<lambda>l. watchable addr (watch_size bytes (value_byte_size (val E) l v))
         ('' ('' @ unwrap_or (value_name (val E) l v) default_name @ '')''))
     else ret (not_watchable no_address))"

definition watch_variable :: "'l env \<Rightarrow> data_breakpoint_info_arguments \<Rightarrow> handle \<Rightarrow> ('l, data_breakpoint_info_response_body) sact" where
  "watch_variable E args ref =
     andThen (reads (\<lambda>s. get (var_refs s) ref)) (\<lambda>found.
     andThen (ok_or (str_error ''Invalid variables reference'') found) (\<lambda>c.
     andThen (ask (\<lambda>l. case c of
         SBVal container \<Rightarrow> value_child_with_name (val E) l container (dia_name args)
       | Locals frame \<Rightarrow> frame_find_variable (frm E) l frame (dia_name args)
       | Globals frame \<Rightarrow> frame_find_value (frm E) l frame (dia_name args) VtVariableGlobal
       | Statics frame \<Rightarrow> frame_find_value (frm E) l frame (dia_name args) VtVariableStatic
       | _ \<Rightarrow> None)) (\<lambda>child. case child of
       Some child \<Rightarrow> watch_value E (dia_bytes args) [] ''This variable doesn't have an address.'' child
     | None \<Rightarrow> ret (not_watchable ''Variable not found.''))))"

definition watch_address_text :: "'l env \<Rightarrow> data_breakpoint_info_arguments \<Rightarrow> ('l, data_breakpoint_info_response_body) sact" where
  "watch_address_text E args =
     (let addr = (case parse_int_u64 (libs E) (dia_name args) of Inr a \<Rightarrow> a | Inl _ \<Rightarrow> INVALID_ADDRESS) in
      ask (\<lambda>l. if addr = INVALID_ADDRESS \<or> \<not> addr_is_valid (mods E) l (from_load_address (dasm E) l addr)
        then not_watchable (''Invalid address '' @ show_nat (unat addr))
        else watchable addr (watch_size (dia_bytes args) (target_address_byte_size (mods E) l)) []))"

definition watch_expression :: "'l env \<Rightarrow> data_breakpoint_info_arguments \<Rightarrow> sbframe option \<Rightarrow> ('l, data_breakpoint_info_response_body) sact" where
  "watch_expression E args frame =
     andThen (prepared E (dia_name args)) (\<lambda>p. case p of
       Inl err \<Rightarrow> bail (blame_user (StrError err))
     | Inr (pp_expr, _) \<Rightarrow>
         andThen (evaluate_expr_in_frame E pp_expr frame) (\<lambda>v.
         watch_value E (dia_bytes args) (dia_name args) ''This value doesn't have an address.'' v))"

definition handle_data_breakpoint_info ::
  "'l env \<Rightarrow> data_breakpoint_info_arguments \<Rightarrow> ('l, data_breakpoint_info_response_body) sact" where
  "handle_data_breakpoint_info E args = (case dia_variables_reference args of
      Some variables_reference \<Rightarrow> watch_variable E args variables_reference
    | None \<Rightarrow>
        andThen (request_frame E (dia_frame_id args)) (\<lambda>frame.
        if unwrap_or (dia_as_address args) False then watch_address_text E args
        else watch_expression E args frame))"

fun access_mode :: "data_access_type option \<Rightarrow> bool \<times> bool \<times> string" where
  "access_mode (Some AccRead) = (True, False, ''read'')"
| "access_mode (Some AccWrite) = (False, True, ''write'')"
| "access_mode None = (False, True, ''write'')"
| "access_mode (Some AccReadWrite) = (True, True, ''read and write'')"

definition set_watchpoint :: "'l env \<Rightarrow> data_breakpoint \<Rightarrow> ('l, breakpoint) sact" where
  "set_watchpoint E wp =
     (let parts = split_char (CHR ''/'') (dbp_data_id wp) in
      andThen (ok_or (StrError []) (slice_get parts 0)) (\<lambda>addr_text.
      andThen (parse_u64 addr_text) (\<lambda>addr.
      andThen (ok_or (StrError []) (slice_get parts 1)) (\<lambda>size_text.
      andThen (parse_u64 size_text) (\<lambda>sz.
      case access_mode (dbp_access_type wp) of (rd, wr, when) \<Rightarrow>
        andThen (run (\<lambda>l. watch_address (bps E) l addr (unat sz) rd wr)) (\<lambda>r. case r of
          Inr wid \<Rightarrow> ret (default_breakpoint\<lparr>bp_verified := True, bp_id := Some (wpid_to_bpid wid),
              bp_message := Some (''Break on '' @ when)\<rparr>)
        | Inl err \<Rightarrow> ret (default_breakpoint\<lparr>bp_verified := False, bp_message := Some err\<rparr>)))))))"

definition handle_set_data_breakpoints :: "'l env \<Rightarrow> set_data_breakpoints_arguments \<Rightarrow> ('l, breakpoint list) sact" where
  "handle_set_data_breakpoints E args =
     andThen (tell (delete_all_watchpoints (bps E))) (\<lambda>_.
     for_collect (dba_breakpoints args) (set_watchpoint E))"

section \<open>Memory\<close>

definition memory_address :: "int \<Rightarrow> int option \<Rightarrow> address" where
  "memory_address mem_ref offset = as_u64 (wrap_i64 (mem_ref + unwrap_or offset 0))"

text \<open>\<^verbatim>\<open>Vec::resize\<close> panics beyond \<^verbatim>\<open>isize::MAX\<close> bytes.\<close>

definition zeroed_buffer :: "u64 \<Rightarrow> ('l, unit) sact" where
  "zeroed_buffer n = (if unat n < 2 ^ 63 then ret () else panic)"

definition handle_read_memory :: "'l env \<Rightarrow> read_memory_arguments \<Rightarrow> ('l, read_memory_response_body) sact" where
  "handle_read_memory E args =
     andThen (parsed_int (parse_int_i64 (libs E) (rma_memory_reference args))) (\<lambda>mem_ref.
     let count = as_u64 (rma_count args);
         address = memory_address mem_ref (rma_offset args);
         unread = \<lparr>rmr_address = ''0x'' @ show_HEX (unat address), rmr_unreadable_bytes = Some (rma_count args), rmr_data = None\<rparr>
     in andThen (ask (\<lambda>l. process_memory_region (proc E) l address)) (\<lambda>region. case region of
          Inl _ \<Rightarrow> ret unread
        | Inr region_info \<Rightarrow>
            if region_readable region_info then
              (let to_read = min count (region_end region_info - address) in
               andThen (zeroed_buffer to_read) (\<lambda>_.
               andThen (ask (\<lambda>l. process_read_memory (dasm E) l address (unat to_read))) (\<lambda>r. case r of
                 Inl _ \<Rightarrow> ret unread
               | Inr buffer \<Rightarrow>
                   ret \<lparr>rmr_address = ''0x'' @ show_HEX (unat address),
                     rmr_unreadable_bytes = Some (u64_as_i64 (count - of_nat (length buffer))),
                     rmr_data = Some (base64_encode (libs E) buffer)\<rparr>)))
            else ret unread))"

definition handle_write_memory :: "'l env \<Rightarrow> write_memory_arguments \<Rightarrow> ('l, write_memory_response_body) sact" where
  "handle_write_memory E args =
     andThen (parsed_int (parse_int_i64 (libs E) (wma_memory_reference args))) (\<lambda>mem_ref.
     let address = memory_address mem_ref (wma_offset args) in
     andThen (parsed_int (base64_decode (libs E) (wma_data args))) (\<lambda>data.
     let allow_partial = unwrap_or (wma_allow_partial args) False;
         refused = (if \<not> allow_partial
           then bail (blame_user (str_error (''Cannot write '' @ show_nat (length data) @ '' bytes at '' @ pad_zeros 8 (show_HEX (unat address)))))
           else ret \<lparr>wmr_bytes_written = Some 0, wmr_offset = None\<rparr>)
     in andThen (ask (\<lambda>l. process_memory_region (proc E) l address)) (\<lambda>region. case region of
          Inl _ \<Rightarrow> refused
        | Inr region_info \<Rightarrow>
            if region_writable region_info then
              (let to_write = min (length data) (unat (region_end region_info - address)) in
               if allow_partial \<or> to_write = length data then
                 andThen (run (\<lambda>l. process_write_memory (proc E) l address data)) (\<lambda>r. case r of
                   Inl _ \<Rightarrow> refused
                 | Inr bytes_written \<Rightarrow> ret \<lparr>wmr_bytes_written = Some (wrap_i64 (int bytes_written)), wmr_offset = None\<rparr>)
               else refused)
            else refused)))"

section \<open>Data breakpoints refer to what was asked for\<close>

lemma slash_not_digit: "CHR ''/'' \<notin> set (show_nat n)"
  using show_nat_digits [of n] by (auto simp: list_all_iff dec_digit_def)

lemma parse_u64_show: "parse_u64 (show_nat (unat w)) s = Done (Inr w, s)" for w :: u64
proof -
  have "unat w < 2 ^ 64" using unsigned_less [where ?'a = nat and w = w] by simp
  then show ?thesis by (simp add: parse_u64_def parse_unsigned_show_nat act_eval)
qed

lemma set_watchpoint_id:
  "set_watchpoint E \<lparr>dbp_data_id = make_data_id addr sz, dbp_access_type = acc\<rparr> s =
     (case access_mode acc of (rd, wr, when) \<Rightarrow>
        case watch_address (bps E) (dbg s) addr (unat sz) rd wr of (r, l) \<Rightarrow>
          Done (Inr (case r of
             Inr wid \<Rightarrow> default_breakpoint\<lparr>bp_verified := True, bp_id := Some (wpid_to_bpid wid),
                bp_message := Some (''Break on '' @ when)\<rparr>
           | Inl err \<Rightarrow> default_breakpoint\<lparr>bp_verified := False, bp_message := Some err\<rparr>), s\<lparr>dbg := l\<rparr>))"
proof -
  have "split_char (CHR ''/'') (make_data_id addr sz) = [show_nat (unat addr), show_nat (unat sz)]"
    using split_char_append [OF slash_not_digit] split_char_none [OF slash_not_digit] by (simp add: make_data_id_def)
  moreover have "andThen (parse_u64 (show_nat (unat w))) f s = f w s" for w :: u64 and f :: "u64 \<Rightarrow> ('a, breakpoint) sact"
    by (rule andThen_eval(1)) (rule parse_u64_show)
  ultimately show ?thesis
    by (simp add: set_watchpoint_def slice_get_def act_step act_eval split: prod.splits sum.splits)
qed

lemma watchable_id [simp]:
  "di_data_id (watchable addr sz m) = Some (make_data_id addr sz)" "di_data_id (not_watchable m) = None"
  by (simp_all add: watchable_def not_watchable_def default_data_breakpoint_info_response_body_def)

lemma watch_size_bytes [simp]: "watch_size (Some b) n = as_u64 b"
  by (simp add: watch_size_def unwrap_or_def)

lemma watch_value_id:
  assumes "watch_value E bytes n e v s = Done (Inr r, s')" "di_data_id r = Some d"
  shows "\<exists>addr sz. d = make_data_id addr sz \<and> addr \<noteq> INVALID_ADDRESS \<and> (\<forall>b. bytes = Some b \<longrightarrow> sz = as_u64 b)"
  using assms
  by (intro exI [of _ "value_load_address (val E) (dbg s) v"] exI [of _ "watch_size bytes (value_byte_size (val E) (dbg s) v)"])
    (auto simp: watch_value_def act_step act_eval split: if_splits)

lemma watch_address_text_id:
  assumes "watch_address_text E args s = Done (Inr r, s')" "di_data_id r = Some d"
  shows "\<exists>addr sz. d = make_data_id addr sz \<and> addr \<noteq> INVALID_ADDRESS \<and> (\<forall>b. dia_bytes args = Some b \<longrightarrow> sz = as_u64 b)"
  using assms
  by (intro exI [of _ "case parse_int_u64 (libs E) (dia_name args) of Inr a \<Rightarrow> a | Inl _ \<Rightarrow> INVALID_ADDRESS"]
      exI [of _ "watch_size (dia_bytes args) (target_address_byte_size (mods E) (dbg s))"])
    (auto simp: watch_address_text_def Let_def act_step split: if_splits)

lemma watch_expression_value:
  assumes "watch_expression E args frame s = Done (Inr r, s')"
  shows "\<exists>n e v s1. watch_value E (dia_bytes args) n e v s1 = Done (Inr r, s')"
proof -
  obtain p s1 where p: "prepared E (dia_name args) s = Done (Inr p, s1)"
    using assms by (auto simp: watch_expression_def andThen_ok)
  have "andThen (prepared E (dia_name args)) f s = f p s1"
    for f :: "_ \<Rightarrow> ('a, data_breakpoint_info_response_body) sact" by (rule andThen_eval(1)) (rule p)
  then show ?thesis using assms by (cases p) (force simp: watch_expression_def andThen_ok act_eval)+
qed

lemma data_breakpoint_info_id:
  assumes "handle_data_breakpoint_info E args s = Done (Inr r, s')" "di_data_id r = Some d"
  shows "\<exists>addr sz. d = make_data_id addr sz \<and> addr \<noteq> INVALID_ADDRESS \<and> (\<forall>b. dia_bytes args = Some b \<longrightarrow> sz = as_u64 b)"
proof -
  have none: "not_watchable m \<noteq> r" for m using assms(2) by auto
  consider (of_value) n e v s1 where "watch_value E (dia_bytes args) n e v s1 = Done (Inr r, s')"
    | (of_address) s1 where "watch_address_text E args s1 = Done (Inr r, s')"
    using assms(1) none
    by (auto simp: handle_data_breakpoint_info_def watch_variable_def andThen_ok act_eval ask_def
        dest!: watch_expression_value split: option.splits if_splits)
  then show ?thesis
  proof cases
    case of_value
    then show ?thesis by (rule watch_value_id) (rule assms(2))
  next
    case of_address
    then show ?thesis by (rule watch_address_text_id) (rule assms(2))
  qed
qed

text \<open>
  Property C35.  The id that \<^verbatim>\<open>dataBreakpointInfo\<close> hands out can be used: setting a data breakpoint with
  it makes LLDB watch a valid address, of the number of bytes that was asked for if one was, and
  replaces all watchpoints that were there.
\<close>

theorem data_id_round_trip:
  assumes "handle_data_breakpoint_info E args s = Done (Inr r, s')" "di_data_id r = Some d"
  shows "\<exists>addr sz. addr \<noteq> INVALID_ADDRESS \<and> (\<forall>b. dia_bytes args = Some b \<longrightarrow> sz = as_u64 b) \<and>
    (\<forall>u acc. handle_set_data_breakpoints E \<lparr>dba_breakpoints = [\<lparr>dbp_data_id = d, dbp_access_type = acc\<rparr>]\<rparr> u =
       (case access_mode acc of (rd, wr, when) \<Rightarrow>
        case watch_address (bps E) (delete_all_watchpoints (bps E) (dbg u)) addr (unat sz) rd wr of (w, l) \<Rightarrow>
          Done (Inr [case w of
             Inr wid \<Rightarrow> default_breakpoint\<lparr>bp_verified := True, bp_id := Some (wpid_to_bpid wid),
                bp_message := Some (''Break on '' @ when)\<rparr>
           | Inl err \<Rightarrow> default_breakpoint\<lparr>bp_verified := False, bp_message := Some err\<rparr>], u\<lparr>dbg := l\<rparr>)))"
proof -
  from data_breakpoint_info_id [OF assms] obtain addr sz where d: "d = make_data_id addr sz" "addr \<noteq> INVALID_ADDRESS"
    "\<forall>b. dia_bytes args = Some b \<longrightarrow> sz = as_u64 b" by blast
  have "handle_set_data_breakpoints E \<lparr>dba_breakpoints = [\<lparr>dbp_data_id = d, dbp_access_type = acc\<rparr>]\<rparr> u =
       (case access_mode acc of (rd, wr, when) \<Rightarrow>
        case watch_address (bps E) (delete_all_watchpoints (bps E) (dbg u)) addr (unat sz) rd wr of (w, l) \<Rightarrow>
          Done (Inr [case w of
             Inr wid \<Rightarrow> default_breakpoint\<lparr>bp_verified := True, bp_id := Some (wpid_to_bpid wid),
                bp_message := Some (''Break on '' @ when)\<rparr>
           | Inl err \<Rightarrow> default_breakpoint\<lparr>bp_verified := False, bp_message := Some err\<rparr>], u\<lparr>dbg := l\<rparr>))" for u acc
    by (simp add: handle_set_data_breakpoints_def act_step andThen_def set_watchpoint_id d(1) act_eval split: prod.splits)
  with d(2,3) show ?thesis by blast
qed

theorem data_id_round_trip_witness:
  "\<exists>r addr sz. handle_data_breakpoint_info (stub_env\<lparr>libs := stub_libraries\<lparr>parse_int_u64 := \<lambda>_. Inr 64\<rparr>\<rparr>)
      \<lparr>dia_variables_reference = None, dia_name = ''0x40'', dia_frame_id = None, dia_bytes = Some 8, dia_as_address = Some True\<rparr>
      (session_new () False) = Done (Inr r, session_new () False) \<and> di_data_id r = Some ''64/8'' \<and>
    addr \<noteq> INVALID_ADDRESS \<and> sz = 8 \<and>
    handle_set_data_breakpoints (stub_env\<lparr>libs := stub_libraries\<lparr>parse_int_u64 := \<lambda>_. Inr 64\<rparr>\<rparr>)
      \<lparr>dba_breakpoints = [\<lparr>dbp_data_id = ''64/8'', dbp_access_type = None\<rparr>]\<rparr> (session_new () False) =
    Done (Inr [default_breakpoint\<lparr>bp_verified := True, bp_id := Some 1000000, bp_message := Some ''Break on write''\<rparr>], session_new () False)"
    (is "\<exists>r addr sz. handle_data_breakpoint_info ?E ?args ?s = _ \<and> _")
proof -
  have n: "show_nat 64 = ''64''" "show_nat 8 = ''8''"
    by (simp_all add: show_nat_step [of 64] show_nat_step [of 6] show_nat_step [of 8] digit_char_def char_of_def bit_0)
  have inv: "(64 :: address) \<noteq> INVALID_ADDRESS" by (simp add: INVALID_ADDRESS_def)
  have i: "handle_data_breakpoint_info ?E ?args ?s = Done (Inr (watchable 64 8 []), ?s)"
    using inv by (simp add: handle_data_breakpoint_info_def request_frame_def watch_address_text_def stub_defs act_step act_eval Let_def
        unwrap_or_def watch_size_def as_u64_def)
  have d: "di_data_id (watchable 64 8 []) = Some ''64/8''"
    by (simp add: watchable_def make_data_id_def n)
  show ?thesis
    using data_id_round_trip [OF i d]
  proof (elim exE conjE)
    fix addr sz
    assume a: "addr \<noteq> INVALID_ADDRESS" "\<forall>b. dia_bytes ?args = Some b \<longrightarrow> sz = as_u64 b"
      and set: "\<forall>u acc. handle_set_data_breakpoints ?E \<lparr>dba_breakpoints = [\<lparr>dbp_data_id = ''64/8'', dbp_access_type = acc\<rparr>]\<rparr> u =
       (case access_mode acc of (rd, wr, when) \<Rightarrow>
        case watch_address (bps ?E) (delete_all_watchpoints (bps ?E) (dbg u)) addr (unat sz) rd wr of (w, l) \<Rightarrow>
          Done (Inr [case w of
             Inr wid \<Rightarrow> default_breakpoint\<lparr>bp_verified := True, bp_id := Some (wpid_to_bpid wid),
                bp_message := Some (''Break on '' @ when)\<rparr>
           | Inl err \<Rightarrow> default_breakpoint\<lparr>bp_verified := False, bp_message := Some err\<rparr>], u\<lparr>dbg := l\<rparr>))"
    have "sz = 8" using a(2) by (simp add: as_u64_def)
    then show ?thesis using i d a(1) spec [OF spec [OF set, of ?s], of None]
      by (intro exI [of _ "watchable 64 8 []"] exI [of _ addr] exI [of _ sz])
        (simp add: stub_defs wpid_to_bpid_def u32_as_i64_def session_new_def)
  qed
qed

section \<open>Reading memory\<close>

lemma unread_count:
  assumes "0 \<le> c" "c < 2 ^ 63" "n \<le> unat (as_u64 c)"
  shows "u64_as_i64 (as_u64 c - of_nat n) = c - int n" "int n \<le> c"
proof -
  have c: "unat (as_u64 c) = nat c"
    using assms(1,2) by (simp add: as_u64_def unsigned_of_int nat_take_bit_eq take_bit_int_eq_self)
  then show n: "int n \<le> c" using assms(1,3) by linarith
  have "as_u64 c - of_nat n = word_of_int (c - int n)" by (simp add: as_u64_def)
  moreover have "sint (word_of_int (c - int n) :: u64) = c - int n"
    using assms(1,2) n by (simp add: signed_of_int signed_take_bit_int_eq_self del: of_int_diff)
  ultimately show "u64_as_i64 (as_u64 c - of_nat n) = c - int n" by (simp add: u64_as_i64_def)
qed

text \<open>
  Property C36.  Reading memory reads nothing past the readable region around the address and accounts
  for every requested byte: the bytes returned and those reported as unreadable add up to the number
  requested.  The two hypotheses on LLDB are that a memory region ends after the addresses in it, and
  that no more is read than was asked for.
\<close>

theorem memory_read_bounded:
  assumes "handle_read_memory E args s = Done (Inr r, s')" "0 \<le> rma_count args" "rma_count args < 2 ^ 63"
    and region: "\<And>l a info. process_memory_region (proc E) l a = Inr info \<Longrightarrow> a < region_end info"
    and read: "\<And>l a n bytes. process_read_memory (dasm E) l a n = Inr bytes \<Longrightarrow> length bytes \<le> n"
  shows "s' = s \<and> (rmr_data r = None \<and> rmr_unreadable_bytes r = Some (rma_count args) \<or>
    (\<exists>mem_ref info bytes. parse_int_i64 (libs E) (rma_memory_reference args) = Inr mem_ref \<and>
       process_memory_region (proc E) (dbg s) (memory_address mem_ref (rma_offset args)) = Inr info \<and> region_readable info \<and>
       rmr_data r = Some (base64_encode (libs E) bytes) \<and>
       rmr_unreadable_bytes r = Some (rma_count args - int (length bytes)) \<and> int (length bytes) \<le> rma_count args \<and>
       uint (memory_address mem_ref (rma_offset args)) + int (length bytes) \<le> uint (region_end info)))"
proof -
  obtain mem_ref where m: "parse_int_i64 (libs E) (rma_memory_reference args) = Inr mem_ref"
    using assms(1) by (cases "parse_int_i64 (libs E) (rma_memory_reference args)")
      (auto simp: handle_read_memory_def parsed_int_def act_step)
  let ?a = "memory_address mem_ref (rma_offset args)"
  show ?thesis
  proof (cases "\<exists>info bytes. process_memory_region (proc E) (dbg s) ?a = Inr info \<and> region_readable info \<and>
      process_read_memory (dasm E) (dbg s) ?a (unat (min (as_u64 (rma_count args)) (region_end info - ?a))) = Inr bytes")
    case False
    then show ?thesis using assms(1) m
      by (cases "process_memory_region (proc E) (dbg s) ?a")
        (auto simp: handle_read_memory_def parsed_int_def zeroed_buffer_def act_step act_eval Let_def
          split: if_splits sum.splits)
  next
    case True
    then obtain info bytes where p: "process_memory_region (proc E) (dbg s) ?a = Inr info" "region_readable info"
      "process_read_memory (dasm E) (dbg s) ?a (unat (min (as_u64 (rma_count args)) (region_end info - ?a))) = Inr bytes" by blast
    then have r: "s' = s" "rmr_data r = Some (base64_encode (libs E) bytes)"
      "rmr_unreadable_bytes r = Some (u64_as_i64 (as_u64 (rma_count args) - of_nat (length bytes)))"
      using assms(1) m
      by (auto simp: handle_read_memory_def parsed_int_def zeroed_buffer_def act_step act_eval Let_def split: if_splits)
    have len: "length bytes \<le> unat (min (as_u64 (rma_count args)) (region_end info - ?a))" using read [OF p(3)] .
    have "length bytes \<le> unat (as_u64 (rma_count args))" "length bytes \<le> unat (region_end info - ?a)"
      using len by (simp_all add: min_def word_le_nat_alt split: if_splits)
    moreover have "uint ?a \<le> uint (region_end info)" "uint (region_end info - ?a) = uint (region_end info) - uint ?a"
      using region [OF p(1)] by (simp_all add: word_less_def uint_sub_lem [THEN iffD1] word_le_def)
    ultimately have "uint ?a + int (length bytes) \<le> uint (region_end info)" by (metis add.commute le_diff_eq uint_nat zle_int)
    then show ?thesis
      using r p m unread_count [OF assms(2,3) \<open>length bytes \<le> unat (as_u64 (rma_count args))\<close>] by auto
  qed
qed

definition sample_memory_env :: "unit env" where
  "sample_memory_env = stub_env\<lparr>
     proc := stub_process_api\<lparr>process_memory_region := \<lambda>_ a. if a < 100
       then Inr \<lparr>region_readable = True, region_writable = False, region_end = 100\<rparr> else Inl []\<rparr>,
     dasm := stub_dasm\<lparr>process_read_memory := \<lambda>_ _ n. Inr (replicate n 0)\<rparr>,
     libs := stub_libraries\<lparr>parse_int_i64 := \<lambda>_. Inr 98\<rparr>\<rparr>"

theorem memory_read_bounded_witness:
  "\<exists>r. handle_read_memory sample_memory_env \<lparr>rma_memory_reference = ''98'', rma_offset = None, rma_count = 5\<rparr>
      (session_new () False) = Done (Inr r, session_new () False) \<and> rmr_unreadable_bytes r = Some 3 \<and>
     (\<exists>bytes. rmr_data r = Some (base64_encode (libs sample_memory_env) bytes) \<and> rmr_unreadable_bytes r = Some (5 - int (length bytes)))"
proof -
  let ?args = "\<lparr>rma_memory_reference = ''98'', rma_offset = None, rma_count = 5\<rparr>"
  let ?r = "\<lparr>rmr_address = ''0x'' @ show_HEX 98, rmr_unreadable_bytes = Some 3, rmr_data = Some []\<rparr>"
  have "memory_address 98 None = 98" by (simp add: memory_address_def unwrap_or_def wrap_i64_def as_u64_def)
  then have h: "handle_read_memory sample_memory_env ?args (session_new () False) = Done (Inr ?r, session_new () False)"
    by (simp add: handle_read_memory_def sample_memory_env_def stub_defs parsed_int_def zeroed_buffer_def act_step act_eval Let_def
        as_u64_def u64_as_i64_def min_def)
  have "\<exists>bytes. rmr_data ?r = Some (base64_encode (libs sample_memory_env) bytes) \<and>
      rmr_unreadable_bytes ?r = Some (5 - int (length bytes))"
    using memory_read_bounded [OF h, simplified] by (force simp: sample_memory_env_def stub_defs split: if_splits)
  then show ?thesis using h by (intro exI [of _ ?r] conjI) simp_all
qed

end
