(* ===== verification/Disassemble.thy ===== *)
theory Disassemble
  imports Breakpoints
begin

text \<open>
  The \<^verbatim>\<open>disassemble\<close> request, \<^verbatim>\<open>debug_session/disassemble.rs\<close>: reading the memory around an address while
  avoiding what cannot be read, decoding it so that an instruction starts at the address, and cutting
  out the instructions asked for.
\<close>

section \<open>Binary search over addresses\<close>

lemma mid_bounds:
  fixes low high :: u64
  assumes "low < high"
  shows "unat (low + (high - low) div 2) = unat low + (unat high - unat low) div 2"
proof -
  have lt: "unat low < unat high" using assms by (simp add: word_less_nat_alt)
  have "unat (high - low) = unat high - unat low" using assms by (simp add: unat_sub word_le_nat_alt lt less_imp_le)
  then have "unat ((high - low) div 2) = (unat high - unat low) div 2" by (simp add: unat_div)
  moreover have "unat low + (unat high - unat low) div 2 < 2 ^ 64"
    using lt unsigned_less [where ?'a = nat and w = high] by simp
  ultimately show ?thesis by (simp add: unat_word_ariths)
qed

lemma mid_less:
  fixes low high :: u64
  assumes "low < high"
  shows "low \<le> low + (high - low) div 2" "low + (high - low) div 2 < high"
    "unat (low + (high - low) div 2 + 1) = unat (low + (high - low) div 2) + 1"
proof -
  have lt: "unat low < unat high" using assms by (simp add: word_less_nat_alt)
  show "low \<le> low + (high - low) div 2" "low + (high - low) div 2 < high"
    using lt by (simp_all add: word_le_nat_alt word_less_nat_alt mid_bounds [OF assms])
  moreover have "unat high < 2 ^ 64" using unsigned_less [where ?'a = nat and w = high] by simp
  ultimately show "unat (low + (high - low) div 2 + 1) = unat (low + (high - low) div 2) + 1"
    by (simp add: unat_word_ariths(1) [of "low + (high - low) div 2" 1] word_less_nat_alt)
qed

function partition_point_range :: "(address \<Rightarrow> bool) \<Rightarrow> address \<Rightarrow> address \<Rightarrow> address" where
  "partition_point_range pred low high =
     (if low < high then
        (let mid = low + (high - low) div 2
         in if pred mid then partition_point_range pred (mid + 1) high
            else partition_point_range pred low mid)
      else low)"
  by pat_completeness auto

termination
proof (relation "measure (\<lambda>(pred, low, high). unat high - unat low)", goal_cases)
  case (2 pred low high mid)
  then show ?case using mid_less [OF 2(1)] by (simp add: word_le_nat_alt word_less_nat_alt)
next
  case (3 pred low high mid)
  then show ?case using mid_less [OF 3(1)] by (simp add: word_le_nat_alt word_less_nat_alt)
qed simp

declare partition_point_range.simps [simp del]

section \<open>Reading and decoding\<close>

definition max_instruction_bytes :: "'l env \<Rightarrow> 'l \<Rightarrow> u64" where
  "max_instruction_bytes E l =
     (let arch = hd (split_char (CHR ''-'') (target_triple (dasm E) l))
      in if starts_with arch ''arm'' \<or> starts_with arch ''aarch64'' \<or> starts_with arch ''riscv'' then 4 else 16)"

text \<open>\<^verbatim>\<open>Vec::resize\<close> panics beyond \<^verbatim>\<open>isize::MAX\<close> bytes.\<close>

definition resized :: "u64 \<Rightarrow> unit exec" where
  "resized n = (if unat n < 2 ^ 63 then Done () else Panic)"

definition read_memory :: "'l env \<Rightarrow> 'l \<Rightarrow> address \<Rightarrow> u64 \<Rightarrow> (address \<times> u8 list) exec" where
  "read_memory E l start_address count =
     exec_bind (resized count) (\<lambda>_.
     case process_read_memory (dasm E) l start_address (unat count) of
       Inr buffer \<Rightarrow> Done (start_address, buffer)
     | Inl _ \<Rightarrow>
         (let first_readable = partition_point_range
                (\<lambda>addr. case process_read_memory (dasm E) l addr 1 of Inl _ \<Rightarrow> True | Inr _ \<Rightarrow> False)
                start_address (start_address + count);
              rest = start_address + count - first_readable
          in exec_bind (resized rest) (\<lambda>_.
             case process_read_memory (dasm E) l first_readable (unat rest) of
               Inr buffer \<Rightarrow> Done (first_readable, buffer)
             | Inl _ \<Rightarrow> Done (first_readable, []))))"

text \<open>A decoded instruction, or a byte that could not be decoded, with its range of addresses.\<close>

type_synonym decoded = "(address \<times> address) \<times> (u8 + sbinstruction)"

fun take_instructions :: "'l env \<Rightarrow> 'l \<Rightarrow> sbinstruction list \<Rightarrow> address \<Rightarrow> u8 list \<Rightarrow> decoded list \<Rightarrow>
    (address \<times> u8 list \<times> decoded list) exec" where
  "take_instructions E l [] base_addr buffer acc = Done (base_addr, buffer, acc)"
| "take_instructions E l (instr # instrs) base_addr buffer acc =
     (let byte_size = instr_byte_size (dasm E) l instr;
          next_addr = base_addr + of_nat byte_size
      in if byte_size > length buffer then Panic
         else take_instructions E l instrs next_addr (drop byte_size buffer)
                (acc @ [((base_addr, next_addr), Inr instr)]))"

partial_function (option) disassemble_loop ::
  "'l env \<Rightarrow> 'l \<Rightarrow> address \<Rightarrow> u8 list \<Rightarrow> decoded list \<Rightarrow> decoded list exec option" where
  "disassemble_loop E l base_addr buffer acc =
     (case buffer of
        [] \<Rightarrow> Some (Done acc)
      | byte1 # rest \<Rightarrow>
          (case get_instructions (dasm E) l (from_load_address (dasm E) l base_addr) buffer (disassembly_flavor (dasm E) l) of
             [] \<Rightarrow> disassemble_loop E l (base_addr + 1) rest (acc @ [((base_addr, base_addr + 1), Inl byte1)])
           | instr # instrs \<Rightarrow>
               (case take_instructions E l (instr # instrs) base_addr buffer acc of
                  Panic \<Rightarrow> Some Panic
                | Done (base_addr', buffer', acc') \<Rightarrow> disassemble_loop E l base_addr' buffer' acc')))"

text \<open>Not returning is \<^const>\<open>Panic\<close> for the handler: it never yields a result.\<close>

definition disassemble_bytes :: "'l env \<Rightarrow> 'l \<Rightarrow> address \<Rightarrow> u8 list \<Rightarrow> decoded list exec" where
  "disassemble_bytes E l base_addr buffer =
     (case disassemble_loop E l base_addr buffer [] of None \<Rightarrow> Panic | Some r \<Rightarrow> r)"

text \<open>The loop that tries offsets until an instruction starts at the base address.\<close>

fun align_loop :: "'l env \<Rightarrow> 'l \<Rightarrow> address \<Rightarrow> address \<Rightarrow> u8 list \<Rightarrow> nat list \<Rightarrow>
    (nat \<times> address \<times> u8 list \<times> decoded list) option exec" where
  "align_loop E l base_addr start_addr buffer [] = Done None"
| "align_loop E l base_addr start_addr buffer (i # is) =
     exec_bind (disassemble_bytes E l (start_addr + of_nat i) (drop i buffer)) (\<lambda>decodeds.
       if \<exists>d \<in> set decodeds. fst (fst d) = base_addr then
         Done (Some (length (takeWhile (\<lambda>d. fst (fst d) \<noteq> base_addr) decodeds), start_addr + of_nat i, drop i buffer, decodeds))
       else align_loop E l base_addr start_addr buffer is)"

section \<open>The instructions of the response\<close>

definition invalid_memory :: "address \<Rightarrow> disassembled_instruction" where
  "invalid_memory addr = default_disassembled_instruction\<lparr>in_address := ''0x'' @ show_HEX (unat addr),
     in_instruction_bytes := Some ''??'', in_presentation_hint := Some IhInvalid\<rparr>"

definition undecoded :: "address \<Rightarrow> u8 \<Rightarrow> disassembled_instruction" where
  "undecoded addr b =
     (let hex = pad_zeros 2 (show_HEX (unat b))
      in default_disassembled_instruction\<lparr>in_address := ''0x'' @ show_HEX (unat addr),
           in_instruction_bytes := Some hex, in_instruction := ''.byte  '' @ hex, in_presentation_hint := Some IhInvalid\<rparr>)"

definition line_location :: "'l env \<Rightarrow> sblineentry \<Rightarrow> ('l, dap_source) sact" where
  "line_location E entry =
     andThen (ask (\<lambda>l. line_entry_file_spec (dasm E) l entry)) (\<lambda>fs.
     andThen (map_filespec_to_local E fs) (\<lambda>local_path.
     ask (\<lambda>l. default_source\<lparr>src_name := Some (filespec_filename (files E) l fs), src_path := map_option path_str local_path\<rparr>)))"

definition decoded_instruction ::
  "'l env \<Rightarrow> bool \<Rightarrow> address \<Rightarrow> u8 list \<Rightarrow> sblineentry option \<Rightarrow> address \<times> address \<Rightarrow> sbinstruction \<Rightarrow>
   ('l, disassembled_instruction \<times> sblineentry option) sact" where
  "decoded_instruction E resolve_symbols start_addr buffer last_line_entry arange instr =
     andThen (lift_exec (slice_range buffer (unat (fst arange - start_addr)) (unat (snd arange - start_addr)))) (\<lambda>instr_bytes.
     andThen (reads max_instr_bytes) (\<lambda>n.
     andThen (reads dbg) (\<lambda>l.
     let base = default_disassembled_instruction\<lparr>in_address := ''0x'' @ show_HEX (unat (fst arange)),
           in_instruction_bytes := Some (pad_right (n * 3 + 2) (dump_bytes n instr_bytes)),
           in_instruction := instruction_text (dasm E) l instr\<rparr>;
         address = instr_address (dasm E) l instr;
         line_entry = addr_line_entry (dasm E) l address
     in andThen (case line_entry of
          None \<Rightarrow> ret base
        | Some entry \<Rightarrow>
            (let positioned = base\<lparr>in_line := Some (u32_as_i64 (line_entry_line (dasm E) l entry)),
                   in_column := Some (u32_as_i64 (line_entry_column (dasm E) l entry))\<rparr>
             in case last_line_entry of
                  Some lle \<Rightarrow> if lle \<noteq> entry
                    then andThen (line_location E entry) (\<lambda>src. ret (positioned\<lparr>in_location := Some src\<rparr>))
                    else ret positioned
                | None \<Rightarrow> ret positioned)) (\<lambda>di.
        ret (if resolve_symbols
             then (case addr_symbol (dasm E) l address of
                     Some symb \<Rightarrow> di\<lparr>in_symbol := Some (symbol_name (dasm E) l symb)\<rparr> | None \<Rightarrow> di)
             else di, line_entry)))))"

fun emit_loop :: "'l env \<Rightarrow> bool \<Rightarrow> address \<Rightarrow> u8 list \<Rightarrow> sblineentry option \<Rightarrow> decoded list \<Rightarrow>
    ('l, disassembled_instruction list) sact" where
  "emit_loop E resolve_symbols start_addr buffer last_line_entry [] = ret []"
| "emit_loop E resolve_symbols start_addr buffer last_line_entry ((arange, Inl b) # ds) =
     andThen (emit_loop E resolve_symbols start_addr buffer None ds) (\<lambda>dis. ret (undecoded (fst arange) b # dis))"
| "emit_loop E resolve_symbols start_addr buffer last_line_entry ((arange, Inr instr) # ds) =
     andThen (decoded_instruction E resolve_symbols start_addr buffer last_line_entry arange instr) (\<lambda>(di, line_entry).
     andThen (emit_loop E resolve_symbols start_addr buffer line_entry ds) (\<lambda>dis. ret (di # dis)))"

text \<open>The window of the request in the list of instructions.\<close>

definition emit_window :: "'l env \<Rightarrow> disassemble_arguments \<Rightarrow> int \<Rightarrow> address \<Rightarrow> u8 list \<Rightarrow> decoded list \<Rightarrow>
    ('l, disassembled_instruction list) sact" where
  "emit_window E args start_idx start_addr buffer decodeds =
     (let end_addr = start_addr + of_nat (length buffer);
          end_idx = wrap_i64 (start_idx + da_instruction_count args);
          before = map (\<lambda>i. invalid_memory (start_addr + as_u64 i)) [start_idx..-1];
          first = max start_idx 0;
          instr_count = int (length decodeds)
      in andThen (lift_exec (slice_range decodeds (nat first) (unat (as_u64 end_idx)))) (\<lambda>window.
         andThen (emit_loop E (unwrap_or (da_resolve_symbols args) True) start_addr buffer None window) (\<lambda>dis.
         ret (before @ dis @ map (\<lambda>i. invalid_memory (end_addr + as_u64 i)) [0..end_idx - instr_count - 1]))))"

definition handle_disassemble :: "'l env \<Rightarrow> disassemble_arguments \<Rightarrow> ('l, disassembled_instruction list) sact" where
  "handle_disassemble E args =
     andThen (lift_result (map_sum StrError id (parse_int_u64 (libs E) (da_memory_reference args)))) (\<lambda>mem_ref.
     let base_addr = (case da_offset args of Some offset \<Rightarrow> mem_ref + as_u64 offset | None \<Rightarrow> mem_ref);
         instruction_offset = unwrap_or (da_instruction_offset args) 0
     in if da_instruction_count args < 0 then bail (StrError ''Invalid instruction_count'')
        else
          andThen (reads dbg) (\<lambda>l.
          let num_before = as_u64 (- min instruction_offset 0);
              num_after = as_u64 (max (wrap_i64 (da_instruction_count args + instruction_offset)) 0);
              bytes_per_instruction = max_instruction_bytes E l;
              start_addr = saturating_sub_u64 base_addr (num_before * bytes_per_instruction);
              end_addr = saturating_add_u64 base_addr (num_after * bytes_per_instruction)
          in andThen (lift_exec (read_memory E l start_addr (end_addr - start_addr))) (\<lambda>(start_addr, buffer).
             andThen (lift_exec (align_loop E l base_addr start_addr buffer
                 [0..<min (unat bytes_per_instruction) (length buffer)])) (\<lambda>aligned. case aligned of
               None \<Rightarrow> bail (StrError (''Failed to disassemble memory at 0x'' @ show_HEX (unat base_addr) @ ''.''))
             | Some (base_index, start_addr, buffer, decodeds) \<Rightarrow>
                 emit_window E args (wrap_i64 (int base_index + instruction_offset)) start_addr buffer decodeds))))"

section \<open>The readable part is found\<close>

lemma partition_point_range_correct:
  assumes "low \<le> high" "\<And>a b. low \<le> a \<Longrightarrow> a \<le> b \<Longrightarrow> b < high \<Longrightarrow> pred b \<Longrightarrow> pred a"
  shows "low \<le> partition_point_range pred low high \<and> partition_point_range pred low high \<le> high \<and>
    (\<forall>a. low \<le> a \<longrightarrow> a < partition_point_range pred low high \<longrightarrow> pred a) \<and>
    (\<forall>a. partition_point_range pred low high \<le> a \<longrightarrow> a < high \<longrightarrow> \<not> pred a)"
  using assms
proof (induction pred low high rule: partition_point_range.induct)
  case (1 pred low high)
  show ?case
  proof (cases "low < high")
    case False
    then show ?thesis using 1(3) by (subst (1 2 3 4) partition_point_range.simps) (auto simp: not_less)
  next
    case True
    define mid where "mid = low + (high - low) div 2"
    note m = mid_less [OF True, folded mid_def]
    have suc: "a < mid + 1 \<longleftrightarrow> a \<le> mid" "mid + 1 \<le> high" "mid \<le> mid + 1" for a
      using m by (simp_all add: word_less_nat_alt word_le_nat_alt Suc_le_eq less_Suc_eq_le)
    show ?thesis
    proof (cases "pred mid")
      case p: True
      have eq: "partition_point_range pred low high = partition_point_range pred (mid + 1) high"
        using True p by (subst partition_point_range.simps) (simp add: mid_def Let_def)
      have "low \<le> a" if "mid + 1 \<le> a" for a by (rule order_trans [OF order_trans [OF m(1) suc(3)] that])
      then have IH: "mid + 1 \<le> partition_point_range pred (mid + 1) high" "partition_point_range pred (mid + 1) high \<le> high"
        "\<forall>a. mid + 1 \<le> a \<longrightarrow> a < partition_point_range pred (mid + 1) high \<longrightarrow> pred a"
        "\<forall>a. partition_point_range pred (mid + 1) high \<le> a \<longrightarrow> a < high \<longrightarrow> \<not> pred a"
        using 1(1) [OF True mid_def p suc(2)] 1(4) by blast+
      have below: "pred a" if "low \<le> a" "a \<le> mid" for a using 1(4) [OF that m(2) p] .
      have split: "pred a" if "low \<le> a" "a < partition_point_range pred (mid + 1) high" for a
        using IH(3) below that suc(1) [of a] by (cases "a \<le> mid") (simp_all add: not_less)
      show ?thesis unfolding eq
        using order_trans [OF order_trans [OF m(1) suc(3)] IH(1)] IH(2,4) split by simp
    next
      case np: False
      have eq: "partition_point_range pred low high = partition_point_range pred low mid"
        using True np by (subst partition_point_range.simps) (simp add: mid_def Let_def)
      have IH: "low \<le> partition_point_range pred low mid" "partition_point_range pred low mid \<le> mid"
        "\<forall>a. low \<le> a \<longrightarrow> a < partition_point_range pred low mid \<longrightarrow> pred a"
        "\<forall>a. partition_point_range pred low mid \<le> a \<longrightarrow> a < mid \<longrightarrow> \<not> pred a"
        using 1(2) [OF True mid_def np m(1)] 1(4) m(2) by (meson less_trans)+
      have above: "\<not> pred a" if "mid \<le> a" "a < high" for a using 1(4) [OF m(1) that] np by blast
      have split: "\<not> pred a" if "partition_point_range pred low mid \<le> a" "a < high" for a
        using IH(4) above that by (cases "a < mid") (simp_all add: not_less)
      show ?thesis unfolding eq
        using order_trans [OF IH(2) less_imp_le [OF m(2)]] IH(1,3) split by simp
    qed
  qed
qed

text \<open>
  Property C37.  When a range of memory cannot be read as a whole because its beginning is unreadable,
  what is read instead starts exactly at the first readable address: everything before it in the range
  is unreadable, everything from it on is readable.
\<close>

theorem readable_part_found:
  assumes "process_read_memory (dasm E) l start (unat count) = Inl err" "start \<le> start + count" "unat count < 2 ^ 63"
    and unreadable_first: "\<And>a b. start \<le> a \<Longrightarrow> a \<le> b \<Longrightarrow> b < start + count \<Longrightarrow>
      isl (process_read_memory (dasm E) l b 1) \<Longrightarrow> isl (process_read_memory (dasm E) l a 1)"
  shows "\<exists>first. start \<le> first \<and> first \<le> start + count \<and>
    (\<forall>a. start \<le> a \<longrightarrow> a < first \<longrightarrow> isl (process_read_memory (dasm E) l a 1)) \<and>
    (\<forall>a. first \<le> a \<longrightarrow> a < start + count \<longrightarrow> \<not> isl (process_read_memory (dasm E) l a 1)) \<and>
    read_memory E l start count =
      Done (first, case process_read_memory (dasm E) l first (unat (start + count - first)) of Inr buffer \<Rightarrow> buffer | Inl _ \<Rightarrow> [])"
proof -
  let ?pred = "\<lambda>addr. isl (process_read_memory (dasm E) l addr 1)"
  let ?first = "partition_point_range ?pred start (start + count)"
  have pred: "(\<lambda>addr. case process_read_memory (dasm E) l addr 1 of Inl _ \<Rightarrow> True | Inr _ \<Rightarrow> False) = ?pred"
    by (auto simp: fun_eq_iff isl_def split: sum.split)
  have r: "start \<le> ?first \<and> ?first \<le> start + count \<and> (\<forall>a. start \<le> a \<longrightarrow> a < ?first \<longrightarrow> ?pred a) \<and>
      (\<forall>a. ?first \<le> a \<longrightarrow> a < start + count \<longrightarrow> \<not> ?pred a)"
    by (rule partition_point_range_correct [OF assms(2)]) (erule (3) unreadable_first)
  have "unat (start + count - ?first) = unat (start + count) - unat ?first" using r by (simp add: unat_sub)
  moreover have "unat count = unat (start + count) - unat start" using unat_sub [OF assms(2)] by simp
  moreover have "unat start \<le> unat ?first" using r by (simp add: word_le_nat_alt)
  ultimately have "unat (start + count - ?first) < 2 ^ 63" using assms(3) by linarith
  then have "read_memory E l start count =
      Done (?first, case process_read_memory (dasm E) l ?first (unat (start + count - ?first)) of Inr buffer \<Rightarrow> buffer | Inl _ \<Rightarrow> [])"
    unfolding read_memory_def pred using assms(1,3)
    by (cases "process_read_memory (dasm E) l ?first (unat (start + count - ?first))") (simp_all add: resized_def Let_def)
  with r show ?thesis by blast
qed

definition sample_hole_env :: "unit env" where
  "sample_hole_env = stub_env\<lparr>dasm := stub_dasm\<lparr>process_read_memory := \<lambda>_ a n.
     if a < 42 then Inl ''unmapped'' else Inr (replicate n 7)\<rparr>\<rparr>"

lemma sample_hole [simp]:
  "process_read_memory (dasm sample_hole_env) l a n = (if a < 42 then Inl ''unmapped'' else Inr (replicate n 7))"
  by (simp add: sample_hole_env_def)

theorem readable_part_found_witness:
  "read_memory sample_hole_env () 40 4 = Done (42, [7, 7])"
proof -
  have "\<exists>first. 40 \<le> first \<and> first \<le> 40 + 4 \<and>
    (\<forall>a. 40 \<le> a \<longrightarrow> a < first \<longrightarrow> isl (process_read_memory (dasm sample_hole_env) () a 1)) \<and>
    (\<forall>a. first \<le> a \<longrightarrow> a < 40 + 4 \<longrightarrow> \<not> isl (process_read_memory (dasm sample_hole_env) () a 1)) \<and>
    read_memory sample_hole_env () 40 4 =
      Done (first, case process_read_memory (dasm sample_hole_env) () first (unat (40 + 4 - first)) of Inr buffer \<Rightarrow> buffer | Inl _ \<Rightarrow> [])"
    by (rule readable_part_found [where err = "''unmapped''"]) (auto split: if_splits intro: le_less_trans)
  then show ?thesis
  proof (elim exE conjE)
    fix first :: address
    assume f: "first \<le> 40 + 4" "\<forall>a. 40 \<le> a \<longrightarrow> a < first \<longrightarrow> isl (process_read_memory (dasm sample_hole_env) () a 1)"
      "\<forall>a. first \<le> a \<longrightarrow> a < 40 + 4 \<longrightarrow> \<not> isl (process_read_memory (dasm sample_hole_env) () a 1)"
      and r: "read_memory sample_hole_env () 40 4 =
        Done (first, case process_read_memory (dasm sample_hole_env) () first (unat (40 + 4 - first)) of Inr buffer \<Rightarrow> buffer | Inl _ \<Rightarrow> [])"
    have "\<not> 42 < first" using f(2) [rule_format, of 42] by auto
    moreover have "\<not> first < 42" using f(3) [rule_format, of first] less_trans [of first 42 44] by auto
    ultimately have "first = 42" by simp
    moreover have "replicate 2 7 = [7, 7 :: u8]" by (simp add: numeral_2_eq_2)
    ultimately show ?thesis using r by simp
  qed
qed

section \<open>Decoding ends and covers the memory\<close>

text \<open>The ranges of a decoded list follow each other from one address to another.\<close>

fun tiles :: "address \<Rightarrow> decoded list \<Rightarrow> address \<Rightarrow> bool" where
  "tiles a [] b \<longleftrightarrow> a = b"
| "tiles a (((x, y), _) # ds) b \<longleftrightarrow> x = a \<and> tiles y ds b"

lemma tiles_append: "tiles a (ds @ es) c \<longleftrightarrow> (\<exists>b. tiles a ds b \<and> tiles b es c)"
  by (induction a ds c rule: tiles.induct) auto

text \<open>What the decoder of LLDB promises: instructions are not empty and lie within the buffer.\<close>

definition decoder_sound :: "'l env \<Rightarrow> 'l \<Rightarrow> bool" where
  "decoder_sound E l \<longleftrightarrow> (\<forall>a buffer flavor.
     (\<forall>i \<in> set (get_instructions (dasm E) l a buffer flavor). 0 < instr_byte_size (dasm E) l i) \<and>
     sum_list (map (instr_byte_size (dasm E) l) (get_instructions (dasm E) l a buffer flavor)) \<le> length buffer)"

lemma take_instructions_tiles:
  assumes "sum_list (map (instr_byte_size (dasm E) l) is) \<le> length buffer"
  shows "\<exists>ds. take_instructions E l is base buffer acc =
      Done (base + of_nat (sum_list (map (instr_byte_size (dasm E) l) is)),
            drop (sum_list (map (instr_byte_size (dasm E) l) is)) buffer, acc @ ds) \<and>
    tiles base ds (base + of_nat (sum_list (map (instr_byte_size (dasm E) l) is))) \<and> map snd ds = map Inr is"
  using assms
proof (induction "is" arbitrary: base buffer acc)
  case Nil
  then show ?case by simp
next
  case (Cons i "is")
  let ?n = "instr_byte_size (dasm E) l i"
  have "sum_list (map (instr_byte_size (dasm E) l) is) \<le> length (drop ?n buffer)" using Cons.prems by simp
  from Cons.IH [OF this, of "base + of_nat ?n" "acc @ [((base, base + of_nat ?n), Inr i)]"] obtain ds where
    "take_instructions E l is (base + of_nat ?n) (drop ?n buffer) (acc @ [((base, base + of_nat ?n), Inr i)]) =
      Done (base + of_nat ?n + of_nat (sum_list (map (instr_byte_size (dasm E) l) is)),
            drop (sum_list (map (instr_byte_size (dasm E) l) is)) (drop ?n buffer), (acc @ [((base, base + of_nat ?n), Inr i)]) @ ds)"
    "tiles (base + of_nat ?n) ds (base + of_nat ?n + of_nat (sum_list (map (instr_byte_size (dasm E) l) is)))"
    "map snd ds = map Inr is" by blast
  then show ?case using Cons.prems
    by (intro exI [of _ "((base, base + of_nat ?n), Inr i) # ds"]) (simp add: Let_def add.assoc add.commute)
qed

lemma disassemble_loop_tiles:
  assumes "decoder_sound E l"
  shows "\<exists>ds. disassemble_loop E l base buffer acc = Some (Done (acc @ ds)) \<and> tiles base ds (base + of_nat (length buffer))"
proof (induction "length buffer" arbitrary: base buffer acc rule: less_induct)
  case less
  let ?is = "get_instructions (dasm E) l (from_load_address (dasm E) l base) buffer (disassembly_flavor (dasm E) l)"
  let ?sum = "sum_list (map (instr_byte_size (dasm E) l) ?is)"
  have sound: "\<forall>i \<in> set ?is. 0 < instr_byte_size (dasm E) l i" "?sum \<le> length buffer"
    using assms unfolding decoder_sound_def by blast+
  show ?case
  proof (cases buffer)
    case Nil
    then show ?thesis by (simp add: disassemble_loop.simps)
  next
    case (Cons b rest)
    show ?thesis
    proof (cases ?is)
      case none: Nil
      from less [of rest "base + 1" "acc @ [((base, base + 1), Inl b)]"] Cons obtain ds where
        "disassemble_loop E l (base + 1) rest (acc @ [((base, base + 1), Inl b)]) = Some (Done ((acc @ [((base, base + 1), Inl b)]) @ ds))"
        "tiles (base + 1) ds (base + 1 + of_nat (length rest))" by auto
      then show ?thesis using none Cons
        by (intro exI [of _ "((base, base + 1), Inl b) # ds"]) (simp add: disassemble_loop.simps [of E l base] ac_simps)
    next
      case some: (Cons i "is")
      have pos: "0 < ?sum" using sound(1) some by simp
      from take_instructions_tiles [OF sound(2), of base acc] obtain ds where ds:
        "take_instructions E l ?is base buffer acc = Done (base + of_nat ?sum, drop ?sum buffer, acc @ ds)"
        "tiles base ds (base + of_nat ?sum)" by blast
      from less [of "drop ?sum buffer" "base + of_nat ?sum" "acc @ ds"] pos sound(2) Cons obtain es where es:
        "disassemble_loop E l (base + of_nat ?sum) (drop ?sum buffer) (acc @ ds) = Some (Done ((acc @ ds) @ es))"
        "tiles (base + of_nat ?sum) es (base + of_nat ?sum + of_nat (length buffer - ?sum))" by auto
      have total: "base + of_nat ?sum + of_nat (length buffer - ?sum) = base + of_nat (length buffer)"
        using sound(2) by (simp add: add.assoc of_nat_add [symmetric] del: of_nat_add)
      have "tiles base (ds @ es) (base + of_nat (length buffer))"
        using ds(2) es(2) unfolding tiles_append total by blast
      moreover have "disassemble_loop E l base buffer acc = Some (Done (acc @ ds @ es))"
        using ds(1) es(1) Cons some by (simp add: disassemble_loop.simps [of E l base])
      ultimately show ?thesis by blast
    qed
  qed
qed

text \<open>
  Property C38.  Decoding a buffer ends, and the instructions and undecodable bytes it yields cover the
  buffer without gap or overlap, provided that LLDB's decoder only returns instructions that are not
  empty and lie within the bytes it was given.
\<close>

theorem disassembly_covers_buffer:
  assumes "decoder_sound E l"
  shows "\<exists>ds. disassemble_bytes E l base buffer = Done ds \<and> tiles base ds (base + of_nat (length buffer))"
  using disassemble_loop_tiles [OF assms, of base buffer "[]"] by (auto simp: disassemble_bytes_def)

definition sample_decoder_env :: "unit env" where
  "sample_decoder_env = stub_env\<lparr>dasm := stub_dasm\<lparr>get_instructions := \<lambda>_ _ buffer _.
     if length buffer < 2 then [] else [SBInstruction 0], instr_byte_size := \<lambda>_ _. 2\<rparr>\<rparr>"

theorem disassembly_covers_buffer_witness:
  "decoder_sound sample_decoder_env () \<and>
   (\<exists>ds. disassemble_bytes sample_decoder_env () 100 [1, 2, 3] = Done ds \<and> tiles 100 ds 103)"
proof -
  have s: "decoder_sound sample_decoder_env ()"
    by (simp add: decoder_sound_def sample_decoder_env_def stub_defs)
  then show ?thesis using disassembly_covers_buffer [OF s, of 100 "[1, 2, 3]"] by simp
qed

end
