(* ===== verification/Step_In.thy ===== *)
theory Step_In
  imports Session_Memory
begin

text \<open>
  Stepping into a chosen function, \<^verbatim>\<open>debug_session/step_in.rs\<close>: the targets of the calls in the current
  statement, and the loop that steps until execution is in the chosen one.
\<close>

section \<open>Call instructions and their targets\<close>

definition control_flow_kind_of :: "'l env \<Rightarrow> 'l \<Rightarrow> sbinstruction \<Rightarrow> control_flow_kind" where
  "control_flow_kind_of E l instr =
     (let kind = instr_control_flow_kind (frm E) l instr
      in if kind = CfUnknown then
           (if starts_with (target_triple (dasm E) l) ''arm'' then
              (let m = instr_mnemonic (dasm E) l instr
               in if m = ''bl'' then CfCall else if m = ''b'' then CfJump else CfOther)
            else kind)
         else kind)"

definition is_xdigit :: "char \<Rightarrow> bool" where
  "is_xdigit c \<longleftrightarrow> 48 \<le> byte c \<and> byte c \<le> 57 \<or> 65 \<le> byte c \<and> byte c \<le> 70 \<or> 97 \<le> byte c \<and> byte c \<le> 102"

text \<open>The regular expressions \<^verbatim>\<open>^0[xX][[:xdigit:]]+$\<close> and \<^verbatim>\<open>^\*(0[xX][[:xdigit:]]+)\(%rip\)$\<close>.\<close>

definition is_immediate :: "string \<Rightarrow> bool" where
  "is_immediate s \<longleftrightarrow> (starts_with s ''0x'' \<or> starts_with s ''0X'') \<and> drop 2 s \<noteq> [] \<and> list_all is_xdigit (drop 2 s)"

definition rip_relative :: "string \<Rightarrow> string option" where
  "rip_relative s =
     (let suf = ''(%rip)''; body = drop 1 (take (length s - length suf) s)
      in if starts_with s ''*'' \<and> length suf \<le> length s \<and> drop (length s - length suf) s = suf \<and> is_immediate body
         then Some body else None)"

fun from_le_bytes :: "u8 list \<Rightarrow> u64" where
  "from_le_bytes [] = 0"
| "from_le_bytes (b # bs) = ucast b + 256 * from_le_bytes bs"

definition instruction_target_address :: "'l env \<Rightarrow> 'l \<Rightarrow> sbinstruction \<Rightarrow> string + sbaddress" where
  "instruction_target_address E l instr =
     (let operands = instr_operands (dasm E) l instr;
          load_addr =
            (if is_immediate operands then parse_int_u64 (libs E) operands
             else case rip_relative operands of
               Some text \<Rightarrow>
                 (case parse_int_u64 (libs E) text of
                    Inl e \<Rightarrow> Inl e
                  | Inr offset \<Rightarrow>
                      (let got_ptr = addr_add_offset (frm E) l (instr_address (dasm E) l instr)
                             (offset + of_nat (instr_byte_size (dasm E) l instr))
                       in case target_read_memory (frm E) l got_ptr 8 of
                            Inl e \<Rightarrow> Inl e
                          | Inr bytes \<Rightarrow> Inr (from_le_bytes (take 8 (bytes @ replicate 8 0)))))
             | None \<Rightarrow> Inl ''Unrecognized operand form'')
      in map_sum id (from_load_address (dasm E) l) load_addr)"

text \<open>\<^verbatim>\<open>read_instructions(..., 1, None).instruction_at_index(0)\<close>.\<close>

definition instruction_at :: "'l env \<Rightarrow> 'l \<Rightarrow> sbaddress \<Rightarrow> sbinstruction" where
  "instruction_at E l addr = (case read_instructions (dasm E) l addr 1 None of
      instr # _ \<Rightarrow> instr
    | [] \<Rightarrow> no_instruction (frm E))"

definition call_target_function :: "'l env \<Rightarrow> 'l \<Rightarrow> sbinstruction \<Rightarrow> string + sbfunction" where
  "call_target_function E l instr = (case instruction_target_address E l instr of
      Inl e \<Rightarrow> Inl e
    | Inr addr \<Rightarrow>
        (case addr_function (frm E) l addr of
           Some func \<Rightarrow> Inr func
         | None \<Rightarrow>
             (let target_instr = instruction_at E l addr
              in if instr_is_valid (frm E) l target_instr \<and> control_flow_kind_of E l target_instr \<in> {CfJump, CfFarJump} then
                   (case instruction_target_address E l target_instr of
                      Inl e \<Rightarrow> Inl e
                    | Inr addr2 \<Rightarrow>
                        (case addr_function (frm E) l addr2 of
                           Some func \<Rightarrow> Inr func
                         | None \<Rightarrow> Inl ''Could not determine call target''))
                 else Inl ''Could not determine call target'')))"

section \<open>Targets of a statement\<close>

definition statement_end :: "'l env \<Rightarrow> 'l \<Rightarrow> sblineentry \<Rightarrow> sbcompileunit \<Rightarrow> address" where
  "statement_end E l curr_le cu =
     fold (\<lambda>le max_end_addr.
       if line_entry_line (dasm E) l le = line_entry_line (dasm E) l curr_le \<and>
          filespec_filename (files E) l (line_entry_file_spec (dasm E) l le) =
          filespec_filename (files E) l (line_entry_file_spec (dasm E) l curr_le)
       then max max_end_addr (load_address (dasm E) l (line_entry_end_address (frm E) l le))
       else max_end_addr) (unit_line_entries (frm E) l cu) 0"

definition statement_instructions :: "'l env \<Rightarrow> 'l \<Rightarrow> sbframe \<Rightarrow> address \<Rightarrow> sbinstruction list" where
  "statement_instructions E l frame max_end_addr =
     takeWhile (\<lambda>instr. load_address (dasm E) l (instr_address (dasm E) l instr) < max_end_addr)
       (read_instructions (dasm E) l (frame_pc_address (frm E) l frame) (ucast (max_end_addr - frame_pc (frm E) l frame)) (Some ''att''))"

definition add_target_fn :: "'l env \<Rightarrow> 'l \<Rightarrow> sbinstruction \<Rightarrow> sbfunction list \<Rightarrow> sbfunction list" where
  "add_target_fn E l instr target_fns =
     (if control_flow_kind_of E l instr \<in> {CfCall, CfFarCall} then
        (case call_target_function E l instr of
           Inl _ \<Rightarrow> target_fns
         | Inr func \<Rightarrow>
             if function_is_valid (frm E) l func \<and> addr_line_entry (dasm E) l (function_start_address (frm E) l func) \<noteq> None \<and>
                func \<notin> set target_fns
             then target_fns @ [func] else target_fns)
      else target_fns)"

definition push_target :: "'l env \<Rightarrow> address \<times> address \<Rightarrow> sbfunction \<Rightarrow> ('l, step_in_target) sact" where
  "push_target E stmt func =
     andThen (reads (\<lambda>s. int (length (step_in_targets s)))) (\<lambda>target_id.
     andThen (ask (\<lambda>l. function_display_name (frm E) l func)) (\<lambda>display_name.
     andThen (modifies (\<lambda>s. s\<lparr>step_in_targets := step_in_targets s @ [\<lparr>target_fn = func, stmt_range = stmt\<rparr>]\<rparr>)) (\<lambda>_.
     ret (default_step_in_target\<lparr>sit_id := target_id, sit_label := display_name\<rparr>))))"

definition handle_step_in_targets :: "'l env \<Rightarrow> step_in_targets_arguments \<Rightarrow> ('l, step_in_target list) sact" where
  "handle_step_in_targets E args =
     andThen (reads (\<lambda>s. get (var_refs s) (sta_frame_id args))) (\<lambda>found. case found of
       Some (StackFrame frame) \<Rightarrow>
         andThen (ask (\<lambda>l. frame_line_entry (frm E) l frame)) (\<lambda>le.
         andThen (ok_or (StrError ''No line entry for frame.'') le) (\<lambda>curr_le.
         andThen (ask (\<lambda>l. frame_compile_unit (frm E) l frame)) (\<lambda>unit.
         andThen (ok_or (StrError ''No compile unit for frame.'') unit) (\<lambda>cu.
         andThen (lift_result (map_sum StrError id (resolve_v16 (cmds E)))) (\<lambda>_.
         andThen (reads dbg) (\<lambda>l.
         let max_end_addr = statement_end E l curr_le cu;
             target_fns = fold (add_target_fn E l) (statement_instructions E l frame max_end_addr) []
         in for_collect target_fns (push_target E (frame_pc (frm E) l frame, max_end_addr))))))))
     | _ \<Rightarrow> bail (StrError ''Invalid frame id.''))"

section \<open>Stepping\<close>

text \<open>One turn of the loop; the result says whether the target is reached.\<close>

definition step_once :: "'l env \<Rightarrow> sbthread \<Rightarrow> step_in_target_internal \<Rightarrow> sbframe \<Rightarrow> ('l, bool) sact" where
  "step_once E thread target start_frame =
     andThen is_cancelled_now (\<lambda>cancelled.
     if cancelled then bail (StrError ''Cancelled'')
     else
       andThen (ask (\<lambda>l. thread_frame_at_index (thr E) l thread 0)) (\<lambda>curr_frame.
       andThen (reads dbg) (\<lambda>l.
       if \<not> frame_is_valid (frm E) l curr_frame then bail (StrError ''Invalid current frame'')
       else if frame_function (frm E) l curr_frame = target_fn target then ret True
       else if control_flow_kind_of E l (instruction_at E l (frame_pc_address (frm E) l curr_frame)) \<in> {CfJump, CfFarJump} then
         andThen (try_op (thread_step_into (thr E) thread OnlyThisThread)) (\<lambda>_. ret False)
       else (case List.find (\<lambda>(idx, frame). frame = start_frame) (enumerate 0 (take 10 (thread_frames (thr E) l thread))) of
         None \<Rightarrow> bail (StrError ''Stepped out of start_frame'')
       | Some (0, _) \<Rightarrow>
           if fst (stmt_range target) \<le> frame_pc (frm E) l curr_frame \<and> frame_pc (frm E) l curr_frame < snd (stmt_range target)
           then andThen (try_op (thread_step_into (thr E) thread OnlyThisThread)) (\<lambda>_. ret False)
           else bail (StrError ''Stepped out of stmt_range'')
       | Some (Suc _, _) \<Rightarrow> andThen (try_op (thread_step_out (thr E) thread)) (\<lambda>_. ret False)))))"

partial_function (option) step_loop ::
  "'l env \<Rightarrow> sbthread \<Rightarrow> step_in_target_internal \<Rightarrow> sbframe \<Rightarrow> 'l session \<Rightarrow> ((task error + unit) \<times> 'l session) exec option" where
  "step_loop E thread target start_frame s =
     (case step_once E thread target start_frame s of
        Panic \<Rightarrow> Some Panic
      | Done (Inl e, s') \<Rightarrow> Some (Done (Inl e, s'))
      | Done (Inr reached, s') \<Rightarrow>
          if reached then Some (Done (Inr (), s')) else step_loop E thread target start_frame s')"

text \<open>A loop that does not return is \<^const>\<open>Panic\<close> here: no result ever reaches the client.\<close>

definition step_into_target :: "'l env \<Rightarrow> sbthread \<Rightarrow> step_in_target_internal \<Rightarrow> ('l, unit) sact" where
  "step_into_target E thread target =
     andThen (lift_result (map_sum StrError id (resolve_v16 (cmds E)))) (\<lambda>_.
     with_sync_mode E
       (andThen (ask (\<lambda>l. thread_frame_at_index (thr E) l thread 0)) (\<lambda>start_frame.
        andThen (try_op (thread_step_into (thr E) thread OnlyThisThread)) (\<lambda>_.
        \<lambda>s. case step_loop E thread target start_frame s of None \<Rightarrow> Panic | Some r \<Rightarrow> r))))"

definition handle_step_in :: "'l env \<Rightarrow> step_in_arguments \<Rightarrow> ('l, unit) sact" where
  "handle_step_in E args =
     andThen (ask (\<lambda>l. process_thread_by_id (proc E) l (as_u64 (sia_thread_id args)))) (\<lambda>found.
     andThen (ok_or (StrError ''Invalid thread id.'') found) (\<lambda>thread.
     andThen (ask (\<lambda>l. thread_frame_at_index (thr E) l thread 0)) (\<lambda>frame.
     andThen (reads (\<lambda>s. case sia_target_id args of
         Some i \<Rightarrow> slice_get (step_in_targets s) (unat (as_u64 i))
       | None \<Rightarrow> None)) (\<lambda>step_target.
     andThen before_resume (\<lambda>_.
     andThen (steps_instruction E (sia_granularity args) frame) (\<lambda>step_instruction.
     if step_instruction then try_op (thread_step_instruction (thr E) thread False)
     else case step_target of
       Some target \<Rightarrow>
         andThen (log_errors (step_into_target E thread target)) (\<lambda>_. notify_process_stopped E)
     | None \<Rightarrow> try_op (thread_step_into (thr E) thread OnlyDuringStepping)))))))"

section \<open>Stepping in ends, in the right place\<close>

lemma step_once_cancelled:
  "cancel_answers s = True # bs \<Longrightarrow>
     step_once E thread target start_frame s = Done (Inl (StrError ''Cancelled''), s\<lparr>cancel_answers := bs\<rparr>)"
  by (simp add: step_once_def andThen_def is_cancelled_now_def act_eval)

lemma step_once_total: "step_once E thread target start_frame s \<noteq> Panic"
  by (auto simp: step_once_def andThen_def is_cancelled_now_def try_op_def run_def ask_def act_eval
      split: list.splits option.splits nat.splits prod.splits sum.splits if_splits)

lemma step_once_continues:
  "step_once E thread target start_frame s = Done (Inr False, s') \<Longrightarrow> cancel_answers s' = tl (cancel_answers s)"
  by (auto simp: step_once_def andThen_ok is_cancelled_now_def try_op_def run_def ask_def act_eval
      split: list.splits option.splits nat.splits prod.splits sum.splits if_splits)

lemma step_once_reached:
  "step_once E thread target start_frame s = Done (Inr True, s') \<Longrightarrow>
     frame_function (frm E) (dbg s') (thread_frame_at_index (thr E) (dbg s') thread 0) = target_fn target"
  by (auto simp: step_once_def andThen_ok is_cancelled_now_def ask_def act_eval
      split: list.splits option.splits nat.splits prod.splits sum.splits if_splits)

lemma step_loop_returns:
  assumes "True \<in> set (cancel_answers s)"
  shows "\<exists>r s'. step_loop E thread target start_frame s = Some (Done (r, s')) \<and>
    (r = Inr () \<longrightarrow> frame_function (frm E) (dbg s') (thread_frame_at_index (thr E) (dbg s') thread 0) = target_fn target)"
  using assms
proof (induction "length (cancel_answers s)" arbitrary: s)
  case 0
  then show ?case by simp
next
  case (Suc n)
  let ?once = "step_once E thread target start_frame s"
  obtain r s1 where once: "?once = Done (r, s1)" using step_once_total [of E thread target start_frame s] by (cases ?once) auto
  consider (error) e where "r = Inl e" | (reached) "r = Inr True" | (again) "r = Inr False" by (cases r) auto
  then show ?case
  proof cases
    case error
    then show ?thesis using once by (simp add: step_loop.simps [of E thread target start_frame s])
  next
    case reached
    then show ?thesis using once step_once_reached by (fastforce simp: step_loop.simps [of E thread target start_frame s])
  next
    case again
    have tl: "cancel_answers s1 = tl (cancel_answers s)" using once again step_once_continues by blast
    have "hd (cancel_answers s) \<noteq> True"
      using once again step_once_cancelled [of s "tl (cancel_answers s)" E thread target start_frame] Suc.hyps(2)
      by (cases "cancel_answers s") auto
    then have "True \<in> set (cancel_answers s1)" "n = length (cancel_answers s1)"
      using Suc.prems Suc.hyps(2) tl by (cases "cancel_answers s"; auto)+
    from Suc.hyps(1) [OF this(2,1)] show ?thesis
      using once again by (simp add: step_loop.simps [of E thread target start_frame s])
  qed
qed

text \<open>
  Property C39.  Stepping into a chosen function can always be interrupted: once the request is
  cancelled the loop ends.  When it succeeds, the innermost frame of the thread is in the chosen
  function, and in every case the debugger is back in asynchronous mode, or was never taken out of it.
\<close>

theorem step_into_target_ends:
  assumes "True \<in> set (cancel_answers s)"
  shows "\<exists>r s'. step_into_target E thread target s = Done (r, s') \<and>
    (s' = s \<and> r \<noteq> Inr () \<or>
     (\<exists>l. dbg s' = set_async_mode (cmds E) l True \<and>
       (r = Inr () \<longrightarrow> frame_function (frm E) l (thread_frame_at_index (thr E) l thread 0) = target_fn target)))"
proof (cases "resolve_v16 (cmds E)")
  case (Inl e)
  then show ?thesis by (simp add: step_into_target_def act_step)
next
  case (Inr u)
  let ?l0 = "set_async_mode (cmds E) (dbg s) False"
  let ?frame = "thread_frame_at_index (thr E) ?l0 thread 0"
  obtain r1 l1 where step: "thread_step_into (thr E) thread OnlyThisThread ?l0 = (r1, l1)" by fastforce
  obtain r2 s2 where loop: "step_loop E thread target ?frame (s\<lparr>dbg := l1\<rparr>) = Some (Done (r2, s2))"
    and reached: "r2 = Inr () \<longrightarrow> frame_function (frm E) (dbg s2) (thread_frame_at_index (thr E) (dbg s2) thread 0) = target_fn target"
    using step_loop_returns [of "s\<lparr>dbg := l1\<rparr>" E thread target ?frame] assms by auto
  show ?thesis
  proof (cases r1)
    case (Inl e)
    then show ?thesis using Inr step
      by (auto simp: step_into_target_def with_sync_mode_def act_step onResult_def act_eval)
  next
    case (Inr v)
    with \<open>resolve_v16 (cmds E) = Inr u\<close> step loop have "step_into_target E thread target s =
        Done (r2, s2\<lparr>dbg := set_async_mode (cmds E) (dbg s2) True\<rparr>)"
      by (simp add: step_into_target_def with_sync_mode_def act_step onResult_def act_eval)
    then show ?thesis using reached by auto
  qed
qed

definition sample_step_env :: "unit env" where
  "sample_step_env = stub_env\<lparr>frm := stub_frame_api\<lparr>frame_is_valid := \<lambda>_ _. True, frame_function := \<lambda>_ _. SBFunction 7\<rparr>\<rparr>"

theorem step_into_target_ends_witness:
  "\<exists>r s'. step_into_target sample_step_env (SBThread 0) \<lparr>target_fn = SBFunction 7, stmt_range = (0, 1)\<rparr>
      ((session_new () False)\<lparr>cancel_answers := [False, True]\<rparr>) = Done (r, s')"
  using step_into_target_ends [of "(session_new () False)\<lparr>cancel_answers := [False, True]\<rparr>" sample_step_env "SBThread 0"
      "\<lparr>target_fn = SBFunction 7, stmt_range = (0, 1)\<rparr>"]
  by auto

end
