(* ===== verification/Launch.thy ===== *)
theory Launch
  imports Session_Run
begin

text \<open>
  Launching, attaching, restarting and ending a debug session: \<^verbatim>\<open>debug_session/launch.rs\<close>, the terminals
  it needs (\<^verbatim>\<open>terminal.rs\<close>, \<^verbatim>\<open>debugger_terminal.rs\<close>), and the stages of the asynchronous part of a launch or an
  attach.  The code compiled for Windows only is left out; the parts that depend on the debuggee's
  platform are not.
\<close>

section \<open>File names and extensions\<close>

text \<open>The part before the last dot of a file name, and the part after it; a name that starts with its
  only dot has no extension.\<close>

definition split_extension :: "string \<Rightarrow> string \<times> string option" where
  "split_extension name =
     (let ext = rev (takeWhile (\<lambda>c. c \<noteq> CHR ''.'') (rev name));
          before = take (length name - length ext - 1) name
      in if length ext = length name \<or> before = [] then (name, None) else (before, Some ext))"

definition path_extension :: "path \<Rightarrow> string option" where
  "path_extension p = (case file_name p of None \<Rightarrow> None | Some name \<Rightarrow> snd (split_extension name))"

definition set_extension :: "string \<Rightarrow> path \<Rightarrow> path" where
  "set_extension ext p = (case file_name p of
      None \<Rightarrow> p
    | Some name \<Rightarrow>
        butlast p @ [Normal (fst (split_extension name) @ (if ext = [] then [] else CHR ''.'' # ext))])"

definition with_file_name :: "string \<Rightarrow> path \<Rightarrow> path" where
  "with_file_name name p = path_push (if file_name p = None then p else path_pop p) (Normal name)"

section \<open>Terminals\<close>

definition from_terminal_id :: "terminal_id \<Rightarrow> terminal" where
  "from_terminal_id tid = \<lparr>terminal_connection = False, terminal_name = Some tid\<rparr>"

definition input_devname :: "terminal \<Rightarrow> string option" where
  "input_devname t = (case terminal_name t of Some (TTY tty_name) \<Rightarrow> Some tty_name | _ \<Rightarrow> None)"

definition output_devname :: "terminal \<Rightarrow> string option" where
  "output_devname t = (case terminal_name t of Some (TTY tty_name) \<Rightarrow> Some tty_name | _ \<Rightarrow> None)"

text \<open>Dropping a terminal lets its agent go.\<close>

definition drop_terminal :: "terminal option \<Rightarrow> launch_response list" where
  "drop_terminal t = (case t of
      None \<Rightarrow> []
    | Some u \<Rightarrow> if terminal_connection u then [\<lparr>lr_success = True, lr_message = None\<rparr>] else [])"

definition set_debuggee_terminal :: "terminal option \<Rightarrow> ('l, unit) sact" where
  "set_debuggee_terminal t =
     modifies (\<lambda>s. s\<lparr>terminal_replies := terminal_replies s @ drop_terminal (debuggee_terminal s), debuggee_terminal := t\<rparr>)"

definition find_launcher :: "'l env \<Rightarrow> string + path" where
  "find_launcher E = (case current_exe (lnch E) of
      Inl err \<Rightarrow> Inl err
    | Inr exe \<Rightarrow>
        let current = components exe;
            with_ext = (\<lambda>p. case path_extension current of Some ext \<Rightarrow> set_extension ext p | None \<Rightarrow> p);
            launcher = with_ext (with_file_name ''codelldb-launch'' current)
        in if path_exists (lnch E) (path_str launcher) then Inr launcher
           else
             let launcher = with_ext (path_push (path_push (path_pop (path_pop launcher)) (Normal ''bin''))
                   (Normal ''codelldb-launch''))
             in if path_exists (lnch E) (path_str launcher) then Inr launcher
                else Inl ''Could not find codelldb-launch'')"

text \<open>
  \<^verbatim>\<open>Terminal::create\<close> up to the point where it waits for the agent: the result is the address on which it
  listens.  The rest takes the agent's report, or the error or timeout that came instead.
\<close>

definition terminal_start :: "'l env \<Rightarrow> run_in_terminal_kind \<Rightarrow> string \<Rightarrow> ('l, string) sact" where
  "terminal_start E kind title =
     andThen (lift_result (map_sum StrError id (bind_listener (lnch E)))) (\<lambda>addr.
     andThen (lift_result (map_sum StrError id (find_launcher E))) (\<lambda>launcher.
     andThen (modifies (hand_over_waiting (OutRequest (Req_runInTerminal
       \<lparr>rit_args = [path_str launcher, ''--connect='' @ addr, ''--clear-screen''],
        rit_args_can_be_interpreted_by_shell = None, rit_cwd = [], rit_env = [], rit_kind = Some kind,
        rit_title = Some title\<rparr>)))) (\<lambda>_.
     ret addr)))"

definition terminal_finish :: "'l env \<Rightarrow> string \<Rightarrow> string + terminal" where
  "terminal_finish E addr =
     map_sum id (\<lambda>tid. \<lparr>terminal_connection = True, terminal_name = tid\<rparr>) (terminal_agent (lnch E) addr)"

text \<open>The spawned task of \<^verbatim>\<open>create_debugger_terminal\<close>, in the same two parts.  Without a device name the
  second one panics.\<close>

definition create_debugger_terminal :: "string \<Rightarrow> ('l, unit) sact" where
  "create_debugger_terminal session_name =
     modifies (\<lambda>s. s\<lparr>spawned := spawned s @ [DebuggerTerminalTask (''CodeLLDB: '' @ session_name)]\<rparr>)"

definition debugger_terminal_failed :: "string \<Rightarrow> ('l, unit) sact" where
  "debugger_terminal_failed err =
     console_error (''Failed to launch a terminal for debugger console. ('' @ err @ '')'')"

definition debugger_terminal_ready :: "'l env \<Rightarrow> string \<Rightarrow> ('l, unit) sact" where
  "debugger_terminal_ready E addr = (case terminal_finish E addr of
      Inl err \<Rightarrow> debugger_terminal_failed err
    | Inr terminal \<Rightarrow>
        (case input_devname terminal of
           None \<Rightarrow> panic
         | Some device \<Rightarrow>
             andThen (reads dbg) (\<lambda>l.
             andThen (lift_exec (use_debugger_terminal (lnch E) device l)) (\<lambda>l'.
             modifies (\<lambda>s. s\<lparr>dbg := l', debugger_terminal := True\<rparr>)))))"

section \<open>Targets\<close>

definition create_target_from_program :: "'l env \<Rightarrow> string \<Rightarrow> ('l, sbtarget) sact" where
  "create_target_from_program E program =
     andThen (ensure_absolute_path (components program)) (\<lambda>p.
     andThen (attempt (debugger_create_target (lnch E) (Some (path_str p)))) (\<lambda>first.
     andThen (case first of
         Inr target \<Rightarrow> ret (Inr target)
       | Inl err \<Rightarrow>
           andThen (ask (platform_triple (lnch E))) (\<lambda>triple.
           if find_sub ''windows'' triple \<noteq> None \<and> path_extension p \<noteq> Some ''exe'' then
             attempt (debugger_create_target (lnch E) (Some (path_str (set_extension ''exe'' p))))
           else ret (Inl err))) (\<lambda>second.
     case second of
       Inr target \<Rightarrow> ret target
     | Inl err \<Rightarrow> bail (blame_user (StrError err)))))"

definition set_target :: "'l env \<Rightarrow> sbtarget \<Rightarrow> ('l, unit) sact" where
  "set_target E target =
     andThen (tell (\<lambda>l. listen_to_target (lnch E) l False)) (\<lambda>_.
     andThen (tell (\<lambda>l. set_session_target (lnch E) l target)) (\<lambda>_.
     andThen (modifies (\<lambda>s. s\<lparr>disasm_ranges := ranges_new\<rparr>)) (\<lambda>_.
     tell (\<lambda>l. listen_to_target (lnch E) l True))))"

text \<open>The target that the user's commands selected, or an empty one.\<close>

definition selected_or_empty_target :: "'l env \<Rightarrow> ('l, sbtarget) sact" where
  "selected_or_empty_target E =
     andThen (ask (debugger_selected_target (lnch E))) (\<lambda>target.
     andThen (ask (\<lambda>l. sbtarget_is_valid (lnch E) l target)) (\<lambda>valid.
     if valid then ret target else try_op (debugger_create_target (lnch E) None)))"

definition follow_selected_target :: "'l env \<Rightarrow> ('l, unit) sact" where
  "follow_selected_target E =
     andThen (ask (debugger_selected_target (lnch E))) (\<lambda>selected.
     andThen (ask (session_target (lnch E))) (\<lambda>current.
     if selected \<noteq> current then set_target E selected else ret ()))"

text \<open>The state of a process that was created by the user's commands.\<close>

definition check_process_create_commands :: "'l env \<Rightarrow> ('l, unit) sact" where
  "check_process_create_commands E =
     andThen (ask (process_get_state (proc E))) (\<lambda>state.
     if \<not> is_alive state then
       andThen (notify_process_terminated E) (\<lambda>_. bail (blame_user (str_error ''Process is not valid.'')))
     else if \<not> is_running state then
       andThen (ask (process_stop_restarted (proc E))) (\<lambda>restarted. case restarted of
         Some False \<Rightarrow> notify_process_stopped E
       | _ \<Rightarrow> ret ())
     else ret ())"

definition terminate_debuggee :: "'l env \<Rightarrow> bool option \<Rightarrow> ('l, unit) sact" where
  "terminate_debuggee E force_terminate =
     andThen (ask (process_is_valid (proc E))) (\<lambda>valid.
     if \<not> valid then ret ()
     else
       andThen (ask (process_get_state (proc E))) (\<lambda>state.
       if \<not> is_alive state then ret ()
       else
         andThen (reads terminate_on_disconnect) (\<lambda>default.
         if unwrap_or force_terminate default then try_op (process_kill (proc E))
         else try_op (process_detach (proc E) False))))"

section \<open>What both requests do first\<close>

fun source_map_args :: "(string \<times> string option) list \<Rightarrow> string" where
  "source_map_args [] = []"
| "source_map_args ((remote, local) # rest) =
     lldb_quoted_string remote @ '' '' @ lldb_quoted_string (unwrap_or local []) @ '' '' @ source_map_args rest"

definition init_source_map :: "'l env \<Rightarrow> (string \<times> string option) list \<Rightarrow> ('l, unit) sact" where
  "init_source_map E source_map =
     (let args = source_map_args source_map
      in if args = [] then ret ()
         else
           andThen (attempt (debugger_set_variable (lnch E) ''target.source-map'' args)) (\<lambda>r. case r of
             Inr _ \<Rightarrow> ret ()
           | Inl err \<Rightarrow> console_error (''Could not set source map: '' @ err)))"

text \<open>\<^verbatim>\<open>if let Some(x) = opt { f(x) }\<close>.\<close>

definition when_some :: "'a option \<Rightarrow> ('a \<Rightarrow> ('l, unit) sact) \<Rightarrow> ('l, unit) sact" where
  "when_some x f = (case x of None \<Rightarrow> ret () | Some y \<Rightarrow> f y)"

definition default_adapter_settings :: adapter_settings where
  "default_adapter_settings = \<lparr>as_display_format = None, as_show_disassembly = None, as_dereference_pointers = None,
     as_container_summary = None, as_evaluation_timeout = None, as_summary_timeout = None,
     as_suppress_missing_source_files = None, as_console_mode = None, as_source_languages = None,
     as_script_config = None, as_evaluate_for_hovers = None, as_command_completions = None\<rparr>"

definition init_expression_type :: "expressions option \<Rightarrow> ('l, unit) sact" where
  "init_expression_type chosen =
     andThen (when_some chosen (\<lambda>e. modifies (\<lambda>s. s\<lparr>default_expr_type := e\<rparr>))) (\<lambda>_.
     andThen (reads has_python) (\<lambda>python.
     if python then ret ()
     else
       andThen (reads default_expr_type) (\<lambda>e.
       andThen (if e = Native then ret ()
                else console_error ''Could not initialize Python interpreter - some features will be unavailable (e.g. debug visualizers).'') (\<lambda>_.
       modifies (\<lambda>s. s\<lparr>default_expr_type := Native\<rparr>)))))"

definition init_relative_path_base :: "'l env \<Rightarrow> string option \<Rightarrow> ('l, unit) sact" where
  "init_relative_path_base E chosen =
     andThen (case chosen of
         Some base \<Rightarrow> ret base
       | None \<Rightarrow> lift_result (map_sum StrError id (current_dir (lnch E)))) (\<lambda>base.
     modifies (\<lambda>s. s\<lparr>relative_path_base := Initialized (components base)\<rparr>))"

text \<open>The debugger's console gets a terminal of its own in split mode; otherwise nobody could answer a
  confirmation.\<close>

definition init_console :: "'l env \<Rightarrow> common_launch_fields \<Rightarrow> ('l, unit) sact" where
  "init_console E args_common =
     when_some (cf_adapter_settings args_common) (\<lambda>settings.
       if as_console_mode settings = Some Split then
         create_debugger_terminal (unwrap_or (cf_name args_common) ''Debug'')
       else try_op (debugger_set_variable (lnch E) ''auto-confirm'' ''true''))"

definition common_init_session :: "'l env \<Rightarrow> common_launch_fields \<Rightarrow> ('l, unit) sact" where
  "common_init_session E args_common =
     andThen (init_expression_type (cf_expressions args_common)) (\<lambda>_.
     andThen (when_some (cf_source_map args_common) (\<lambda>m. init_source_map E (jm_iter m))) (\<lambda>_.
     andThen (init_relative_path_base E (cf_relative_path_base args_common)) (\<lambda>_.
     andThen (if cf_reverse_debugging args_common = Some True then
                send_event (Ev_capabilities (default_capabilities\<lparr>cap_supports_step_back := Some True\<rparr>))
              else ret ()) (\<lambda>_.
     andThen (when_some (cf_breakpoint_mode args_common) (\<lambda>mode. modifies (\<lambda>s. s\<lparr>breakpoint_mode := mode\<rparr>))) (\<lambda>_.
     andThen (modifies (\<lambda>s. s\<lparr>graceful_shutdown := cf_graceful_shutdown args_common\<rparr>)) (\<lambda>_.
     andThen (if cf_graceful_shutdown args_common \<noteq> None then
                send_event (Ev_capabilities (default_capabilities\<lparr>cap_supports_terminate_request := Some True\<rparr>))
              else ret ()) (\<lambda>_.
     andThen (when_some (cf_adapter_settings args_common) (update_adapter_settings_and_caps E)) (\<lambda>_.
     andThen (when_some (cf_source_languages args_common) (\<lambda>langs.
       update_adapter_settings_and_caps E (default_adapter_settings\<lparr>as_source_languages := Some langs\<rparr>))) (\<lambda>_.
     andThen print_console_mode (\<lambda>_.
     andThen (when_some (cf_init_commands args_common) (exec_commands E ''initCommands'')) (\<lambda>_.
     andThen (reads has_python) (\<lambda>python.
     andThen (if python then tell (py_init_lang_support (pyt E)) else ret ()) (\<lambda>_.
     init_console E args_common)))))))))))))"

definition common_post_run :: "'l env \<Rightarrow> common_launch_fields \<Rightarrow> ('l, unit) sact" where
  "common_post_run E args_common =
     andThen (when_some (cf_post_run_commands args_common) (\<lambda>commands.
       log_errors (exec_commands E ''postRunCommands'' commands))) (\<lambda>_.
     modifies (\<lambda>s. s\<lparr>pre_terminate_commands := cf_pre_terminate_commands args_common,
       exit_commands := cf_exit_commands args_common\<rparr>))"

section \<open>Launching\<close>

definition report_launch_cfg_error :: "string \<Rightarrow> ('l, response_body) sact" where
  "report_launch_cfg_error err =
     bail (blame_user (str_error (''Could not parse launch configuration: '' @ err)))"

text \<open>The future that is returned starts with a subscription to the configuration-done channel.\<close>

definition subscribe_configuration_done :: "('l, nat) sact" where
  "subscribe_configuration_done =
     andThen (modifies (\<lambda>s. s\<lparr>config_done_receivers := Suc (config_done_receivers s)\<rparr>)) (\<lambda>_.
     reads config_done_sent)"

definition disable_symbols :: "'l env \<Rightarrow> ('l, unit) sact" where
  "disable_symbols E =
     andThen (log_errors (try_op (debugger_set_variable (lnch E) ''target.preload-symbols'' ''false''))) (\<lambda>_.
     log_errors (try_op (debugger_set_variable (lnch E) ''plugin.jit-loader.gdb.enable'' ''off'')))"

definition handle_launch :: "'l env \<Rightarrow> launch_request_arguments \<Rightarrow> ('l, response_body) sact" where
  "handle_launch E args =
     andThen (common_init_session E (la_common args)) (\<lambda>_.
     andThen (modifies (\<lambda>s. s\<lparr>no_debug := unwrap_or (la_no_debug args) False\<rparr>)) (\<lambda>_.
     andThen (if unwrap_or (la_no_debug args) False then disable_symbols E else ret ()) (\<lambda>_.
     andThen (case la_target_create_commands args of
         Some commands \<Rightarrow>
           andThen (exec_commands E ''targetCreateCommands'' commands) (\<lambda>_. selected_or_empty_target E)
       | None \<Rightarrow>
           (case la_program args of
              Some program \<Rightarrow> create_target_from_program E program
            | None \<Rightarrow> bail (blame_user (str_error ''The \"program\" attribute is required for launch.'')))) (\<lambda>target.
     andThen (set_target E target) (\<lambda>_.
     andThen (send_event Ev_initialized) (\<lambda>_.
     andThen subscribe_configuration_done (\<lambda>n.
     bail (AsyncResponse (LaunchTask n args)))))))))"

definition requested_terminal :: "launch_request_arguments \<Rightarrow> terminal_kind" where
  "requested_terminal args = (case la_terminal args of
      Some kind \<Rightarrow> kind
    | None \<Rightarrow>
        (case la_console args of
           Some InternalConsole \<Rightarrow> TkConsole
         | Some ExternalTerminal \<Rightarrow> TkExternal
         | Some IntegratedTerminal \<Rightarrow> TkIntegrated
         | None \<Rightarrow> TkIntegrated))"

text \<open>What kind of terminal is still to be created, and with which title.\<close>

definition create_terminal :: "'l env \<Rightarrow> launch_request_arguments \<Rightarrow> ('l, (run_in_terminal_kind \<times> string) option) sact" where
  "create_terminal E args =
     andThen (ask (platform_name (lnch E))) (\<lambda>name.
     if name \<noteq> ''host'' then ret None
     else
       andThen (reads client_caps) (\<lambda>caps.
       andThen (lift_exec (mi_deref caps)) (\<lambda>c.
       if \<not> unwrap_or (ia_supports_run_in_terminal_request c) False then ret None
       else
         let title = unwrap_or (cf_name (la_common args)) ''Debug''
         in case requested_terminal args of
              TkConsole \<Rightarrow> ret None
            | TkTerminalId tid \<Rightarrow>
                andThen (set_debuggee_terminal (Some (from_terminal_id tid))) (\<lambda>_. ret None)
            | TkExternal \<Rightarrow> ret (Some (RtExternal, title))
            | TkIntegrated \<Rightarrow> ret (Some (RtIntegrated, title)))))"

definition terminal_failed :: "string \<Rightarrow> ('l, unit) sact" where
  "terminal_failed err =
     console_error (''Failed to redirect stdio to a terminal. ('' @ err @ '')'' @ [LF] @
       ''Debuggee output will appear here.'')"

section \<open>The environment of the debuggee\<close>

text \<open>Folding of keys that differ only in case: the first spelling is used from then on.\<close>

definition fold_env_key :: "'l env \<Rightarrow> bool \<Rightarrow> (string \<times> string) list \<Rightarrow> string \<Rightarrow> string \<times> (string \<times> string) list" where
  "fold_env_key E ignore_case case_map k =
     (if ignore_case then
        (let uk = to_uppercase (lnch E) k
         in case hm_get case_map uk of
              Some k' \<Rightarrow> (k', case_map)
            | None \<Rightarrow> (k, hm_insert uk k case_map))
      else (k, case_map))"

definition set_env_var :: "'l env \<Rightarrow> bool \<Rightarrow> string \<times> string \<Rightarrow>
    sbenvironment \<times> (string \<times> string) list \<Rightarrow> sbenvironment \<times> (string \<times> string) list" where
  "set_env_var E ignore_case kv acc =
     (case fold_env_key E ignore_case (snd acc) (fst kv) of
        (k, case_map) \<Rightarrow> (environment_set (lnch E) (fst acc) k (snd kv), case_map))"

fun set_env_items :: "'l env \<Rightarrow> bool \<Rightarrow> (string + (string \<times> string)) list \<Rightarrow>
    sbenvironment \<times> (string \<times> string) list \<Rightarrow> string + (sbenvironment \<times> (string \<times> string) list)" where
  "set_env_items E ignore_case [] acc = Inr acc"
| "set_env_items E ignore_case (Inl err # items) acc = Inl err"
| "set_env_items E ignore_case (Inr kv # items) acc = set_env_items E ignore_case items (set_env_var E ignore_case kv acc)"

definition env_from_file :: "'l env \<Rightarrow> bool \<Rightarrow> string option \<Rightarrow>
    sbenvironment \<times> (string \<times> string) list \<Rightarrow> ('l, sbenvironment \<times> (string \<times> string) list) sact" where
  "env_from_file E ignore_case env_file acc = (case env_file of
      None \<Rightarrow> ret acc
    | Some name \<Rightarrow>
        (case read_env_file (lnch E) name of
           Inl err \<Rightarrow> andThen (console_error (''Could not read '' @ name @ '': '' @ err)) (\<lambda>_. ret acc)
         | Inr items \<Rightarrow> lift_result (map_sum StrError id (set_env_items E ignore_case items acc))))"

definition launch_env :: "'l env \<Rightarrow> launch_request_arguments \<Rightarrow> ('l, sbenvironment) sact" where
  "launch_env E args =
     andThen (ask (\<lambda>l. debugger_get_variable (lnch E) l ''target.inherit-env'')) (\<lambda>inherit_env.
     andThen (ask (platform_triple (lnch E))) (\<lambda>triple.
     let ignore_case = find_sub ''windows'' triple \<noteq> None in
     andThen (if inherit_env = Some ''true'' then ask (platform_environment (lnch E))
              else ret (environment_new (lnch E))) (\<lambda>base.
     andThen (env_from_file E ignore_case (la_env_file args) (base, [])) (\<lambda>acc.
     ret (fst (case la_env args of
         None \<Rightarrow> acc
       | Some env \<Rightarrow> fold (set_env_var E ignore_case) (jm_iter env) acc))))))"

section \<open>Standard streams\<close>

definition padded_stdio :: "(string, string option list) either option \<Rightarrow> string option list" where
  "padded_stdio stdio =
     (let names = (case stdio of
          None \<Rightarrow> []
        | Some (First name) \<Rightarrow> [Some name]
        | Some (Second names) \<Rightarrow> names)
      in names @ replicate (3 - length names) None)"

definition open_stream :: "'l env \<Rightarrow> terminal \<Rightarrow> nat \<times> string option \<Rightarrow> sblaunchinfo \<Rightarrow> sblaunchinfo" where
  "open_stream E terminal entry info =
     (let (fd, name) = entry;
          device = (case name of
             Some n \<Rightarrow> Some n
           | None \<Rightarrow> if fd = 0 then input_devname terminal else output_devname terminal)
      in case device of
           None \<Rightarrow> info
         | Some p \<Rightarrow>
             if fd = 0 then info_add_open_file_action (lnch E) info fd p True False
             else if fd = 1 \<or> fd = 2 then info_add_open_file_action (lnch E) info fd p False True
             else info_add_open_file_action (lnch E) info fd p True True)"

definition configure_stdio :: "'l env \<Rightarrow> launch_request_arguments \<Rightarrow> terminal option \<Rightarrow> sblaunchinfo \<Rightarrow> sblaunchinfo" where
  "configure_stdio E args terminal info =
     (let stdio = padded_stdio (la_stdio args)
      in case terminal of
           None \<Rightarrow> info
         | Some t \<Rightarrow> fold (open_stream E t) (zip [0..<length stdio] stdio) info)"

section \<open>Completing a launch\<close>

definition StopAtEntry :: u32 where "StopAtEntry = push_bit 2 1"
definition DisableASLR :: u32 where "DisableASLR = push_bit 3 1"

definition configure_launch_info :: "'l env \<Rightarrow> launch_request_arguments \<Rightarrow> sbenvironment \<Rightarrow> sblaunchinfo \<Rightarrow> sblaunchinfo" where
  "configure_launch_info E args env info0 =
     (let info1 = info_set_environment (lnch E) info0 env;
          info2 = (case la_args args of Some a \<Rightarrow> info_set_arguments (lnch E) info1 a | None \<Rightarrow> info1);
          info3 = (case la_cwd args of Some cwd \<Rightarrow> info_set_working_directory (lnch E) info2 cwd | None \<Rightarrow> info2)
      in if unwrap_or (la_stop_on_entry args) False
         then info_set_flags (lnch E) info3 (info_flags (lnch E) info3 OR StopAtEntry) else info3)"

definition command_line :: "string \<Rightarrow> string list \<Rightarrow> string" where
  "command_line executable args = foldl (\<lambda>line a. line @ '' '' @ a) executable args"

text \<open>On Linux: when the randomization of addresses cannot be disabled, say so and do without.\<close>

definition check_aslr :: "'l env \<Rightarrow> sblaunchinfo \<Rightarrow> ('l, sblaunchinfo) sact" where
  "check_aslr E info =
     (let flags = info_flags (lnch E) info
      in if flags AND DisableASLR \<noteq> DisableASLR then ret info
         else
           andThen (ask (aslr_restricted (lnch E))) (\<lambda>restricted.
           if \<not> restricted then ret info
           else
             andThen (console_error ''Could not disable address space layout randomization (ASLR).'') (\<lambda>_.
             andThen (console_message (''(Possibly due to running in a restricted container. '' @
               ''Add \"initCommands\":[\"settings set target.disable-aslr false\"] to the launch configuration '' @
               ''to suppress this warning.)'')) (\<lambda>_.
             ret (info_set_flags (lnch E) info (flags AND NOT DisableASLR))))))"

definition run_process_create_commands :: "'l env \<Rightarrow> string list \<Rightarrow> ('l, unit) sact" where
  "run_process_create_commands E commands =
     andThen (exec_commands E ''processCreateCommands'' commands) (\<lambda>_.
     andThen (follow_selected_target E) (\<lambda>_.
     check_process_create_commands E))"

definition launch_process :: "'l env \<Rightarrow> launch_request_arguments \<Rightarrow> sblaunchinfo \<Rightarrow> ('l, unit) sact" where
  "launch_process E args info = (case la_process_create_commands args of
      None \<Rightarrow> try_op (target_launch (lnch E) info)
    | Some commands \<Rightarrow> run_process_create_commands E commands)"

definition launch_failed :: "'l env \<Rightarrow> sblaunchinfo \<Rightarrow> task error \<Rightarrow> ('l, unit) sact" where
  "launch_failed E info err =
     (case info_working_directory (lnch E) info of
        None \<Rightarrow> bail (blame_user err)
      | Some work_dir \<Rightarrow>
          andThen (ask (\<lambda>l. platform_file_permissions (lnch E) l work_dir)) (\<lambda>permissions.
          if permissions = 0 then
            bail (BlamedError User (str_error (error_text (blame_user err) @ [LF, LF] @
              ''Possible cause: the working directory \"'' @ work_dir @ ''\" is missing or inaccessible.'')))
          else bail (blame_user err)))"

definition complete_launch :: "'l env \<Rightarrow> launch_request_arguments \<Rightarrow> ('l, response_body) sact" where
  "complete_launch E args =
     andThen (ask (target_launch_info (lnch E))) (\<lambda>info0.
     andThen (launch_env E args) (\<lambda>env.
     andThen (reads debuggee_terminal) (\<lambda>terminal.
     let info1 = configure_stdio E args terminal (configure_launch_info E args env info0) in
     andThen (tell (\<lambda>l. target_set_launch_info (lnch E) l info1)) (\<lambda>_.
     andThen (when_some (cf_pre_run_commands (la_common args)) (exec_commands E ''preRunCommands'')) (\<lambda>_.
     andThen (ask (target_launch_info (lnch E))) (\<lambda>info2.
     andThen (ask (\<lambda>l. filespec_path (files E) l (target_executable (lnch E) l))) (\<lambda>executable.
     andThen (console_message (''Launching: '' @ command_line (utf8_lossy executable) (info_arguments (lnch E) info2))) (\<lambda>_.
     andThen (check_aslr E info2) (\<lambda>info3.
     andThen (onResult (launch_process E args info3) (\<lambda>r. case r of
         Inl err \<Rightarrow> launch_failed E info3 err
       | Inr _ \<Rightarrow> ret ())) (\<lambda>_.
     andThen (ask (\<lambda>l. (process_id (proc E) l, filespec_debug (lnch E) l (target_executable (lnch E) l)))) (\<lambda>(pid, name).
     andThen (console_message (''Launched process '' @ show_nat (unat pid) @ '' from '' @ [CHR 0x27] @ name @ [CHR 0x27])) (\<lambda>_.
     andThen (modifies (\<lambda>s. s\<lparr>terminate_on_disconnect := True\<rparr>)) (\<lambda>_.
     andThen (common_post_run E (la_common args)) (\<lambda>_.
     ret Resp_launch))))))))))))))"

section \<open>Attaching\<close>

definition attach_target :: "'l env \<Rightarrow> attach_request_arguments \<Rightarrow> ('l, sbtarget) sact" where
  "attach_target E args = (case aa_target_create_commands args of
      Some commands \<Rightarrow>
        andThen (exec_commands E ''targetCreateCommands'' commands) (\<lambda>_. selected_or_empty_target E)
    | None \<Rightarrow>
        (case aa_program args of
           Some program \<Rightarrow>
             onResult (create_target_from_program E program) (\<lambda>r. case r of
               Inr target \<Rightarrow> ret target
             | Inl _ \<Rightarrow> try_op (debugger_create_target (lnch E) None))
         | None \<Rightarrow> try_op (debugger_create_target (lnch E) None)))"

definition handle_attach :: "'l env \<Rightarrow> attach_request_arguments \<Rightarrow> ('l, response_body) sact" where
  "handle_attach E args =
     andThen (common_init_session E (aa_common args)) (\<lambda>_.
     if aa_program args = None \<and> aa_pid args = None \<and> aa_target_create_commands args = None then
       bail (blame_user (str_error ''Either \"program\" or \"pid\" is required to attach.''))
     else
       andThen (attach_target E args) (\<lambda>target.
       andThen (set_target E target) (\<lambda>_.
       andThen (send_event Ev_initialized) (\<lambda>_.
       andThen subscribe_configuration_done (\<lambda>n.
       bail (AsyncResponse (AttachTask n args)))))))"

text \<open>The process to attach to: by its number, or by the executable.\<close>

definition attach_info :: "'l env \<Rightarrow> attach_request_arguments \<Rightarrow> ('l, sbattachinfo) sact" where
  "attach_info E args = (case aa_pid args of
      Some (First n) \<Rightarrow> ret (attach_set_process_id (lnch E) (attach_info_new (lnch E)) n)
    | Some (Second text) \<Rightarrow>
        (case parse_unsigned (2 ^ 64) text of
           Some n \<Rightarrow> ret (attach_set_process_id (lnch E) (attach_info_new (lnch E)) (of_nat n))
         | None \<Rightarrow> bail (blame_user (str_error ''Process id must be a positive integer.'')))
    | None \<Rightarrow>
        andThen (ask (target_executable (lnch E))) (\<lambda>executable.
        andThen (ask (\<lambda>l. filespec_is_valid (files E) l executable)) (\<lambda>valid.
        if valid then
          andThen (ask (\<lambda>l. filespec_path (files E) l executable)) (\<lambda>p.
          ret (attach_set_executable (lnch E) (attach_info_new (lnch E)) p))
        else
          (case aa_program args of
             Some program \<Rightarrow>
               andThen (ensure_absolute_path (components program)) (\<lambda>p.
               ret (attach_set_executable (lnch E) (attach_info_new (lnch E)) (path_str p)))
           | None \<Rightarrow> bail (StrError ''unreachable'')))))"

definition attach_process :: "'l env \<Rightarrow> attach_request_arguments \<Rightarrow> ('l, unit) sact" where
  "attach_process E args =
     andThen (attach_info E args) (\<lambda>info.
     andThen (attempt (target_attach (lnch E)
       (attach_set_ignore_existing (lnch E)
         (attach_set_wait_for_launch (lnch E) info (unwrap_or (aa_wait_for args) False) False) False))) (\<lambda>r. case r of
       Inl err \<Rightarrow> bail (blame_user (str_error (''Could not attach: '' @ err)))
     | Inr _ \<Rightarrow>
         if unwrap_or (aa_stop_on_entry args) False then notify_process_stopped E
         else log_errors (try_op (process_resume (proc E)))))"

definition complete_attach :: "'l env \<Rightarrow> attach_request_arguments \<Rightarrow> ('l, response_body) sact" where
  "complete_attach E args =
     andThen (when_some (cf_pre_run_commands (aa_common args)) (exec_commands E ''preRunCommands'')) (\<lambda>_.
     andThen (case aa_process_create_commands args of
         None \<Rightarrow> attach_process E args
       | Some commands \<Rightarrow> run_process_create_commands E commands) (\<lambda>_.
     andThen (ask (process_id (proc E))) (\<lambda>pid.
     andThen (console_message (''Attached to process '' @ show_nat (unat pid))) (\<lambda>_.
     andThen (modifies (\<lambda>s. s\<lparr>terminate_on_disconnect := False\<rparr>)) (\<lambda>_.
     andThen (common_post_run E (aa_common args)) (\<lambda>_.
     ret Resp_attach))))))"

section \<open>Restarting and ending\<close>

definition run_pre_terminate :: "'l env \<Rightarrow> ('l, unit) sact" where
  "run_pre_terminate E =
     andThen (reads pre_terminate_commands) (\<lambda>commands.
     when_some commands (\<lambda>c. log_errors (exec_commands E ''preTerminateCommands'' c)))"

definition handle_restart :: "'l env \<Rightarrow> restart_request_arguments \<Rightarrow> ('l, unit) sact" where
  "handle_restart E args =
     andThen (run_pre_terminate E) (\<lambda>_.
     andThen (modifies (\<lambda>s. s\<lparr>event_listener := cork (event_listener s)\<rparr>)) (\<lambda>_.
     andThen (terminate_debuggee E None) (\<lambda>_.
     andThen (modifies (\<lambda>s. s\<lparr>event_listener := uncork (event_listener s)\<rparr>)) (\<lambda>_.
     case args of
       First launch_args \<Rightarrow> andThen (complete_launch E launch_args) (\<lambda>_. ret ())
     | Second attach_args \<Rightarrow> andThen (complete_attach E attach_args) (\<lambda>_. ret ())))))"

text \<open>At most so many more times: look at the state, sleep, and stop when the state was a running one.\<close>

fun wait_for_resume :: "'l env \<Rightarrow> nat \<Rightarrow> ('l, unit) sact" where
  "wait_for_resume E 0 = ret ()"
| "wait_for_resume E (Suc n) =
     andThen (ask (process_get_state (proc E))) (\<lambda>state.
     andThen (tell (sleep_100ms (proc E))) (\<lambda>_.
     if is_running state then ret () else wait_for_resume E n))"

definition send_signal :: "'l env \<Rightarrow> string \<Rightarrow> ('l, unit) sact" where
  "send_signal E sig_name =
     andThen (ask (signals_are_valid (proc E))) (\<lambda>valid.
     if \<not> valid then bail (StrError ''The current platform does not support sending signals.'')
     else
       andThen (ask (\<lambda>l. signal_number_from_name (proc E) l sig_name)) (\<lambda>found.
       andThen (ok_or (str_error (''Invalid signal name: '' @ sig_name)) found) (\<lambda>signo.
       andThen (tell (\<lambda>l. signal_set_should_suppress (proc E) l signo False)) (\<lambda>_.
       andThen (tell (\<lambda>l. signal_set_should_stop (proc E) l signo False)) (\<lambda>_.
       andThen (tell (\<lambda>l. signal_set_should_notify (proc E) l signo False)) (\<lambda>_.
       andThen (ask (process_get_state (proc E))) (\<lambda>state.
       andThen (if \<not> is_running state then
                  andThen (log_errors (try_op (process_resume (proc E)))) (\<lambda>_. wait_for_resume E 10)
                else ret ()) (\<lambda>_.
       try_op (process_signal (proc E) signo)))))))))"

definition handle_terminate :: "'l env \<Rightarrow> ('l, unit) sact" where
  "handle_terminate E =
     andThen (reads graceful_shutdown) (\<lambda>how. case how of
       Some (First sig_name) \<Rightarrow> send_signal E sig_name
     | Some (Second commands) \<Rightarrow> exec_commands E ''gracefulShutdown'' commands
     | None \<Rightarrow> ret ())"

definition handle_disconnect :: "'l env \<Rightarrow> disconnect_arguments option \<Rightarrow> ('l, unit) sact" where
  "handle_disconnect E args =
     andThen (run_pre_terminate E) (\<lambda>_.
     andThen (set_debuggee_terminal None) (\<lambda>_.
     andThen (terminate_debuggee E (case args of Some a \<Rightarrow> dca_terminate_debuggee a | None \<Rightarrow> None)) (\<lambda>_.
     andThen (reads exit_commands) (\<lambda>commands.
     when_some commands (\<lambda>c. log_errors (exec_commands E ''exitCommands'' c))))))"

section \<open>Configuration done\<close>

text \<open>
  The message reaches those that are subscribed; without any the send fails, which is only logged.
  The response waits for them.
\<close>

definition handle_configuration_done :: "('l, unit) sact" where
  "handle_configuration_done =
     andThen (modifies (\<lambda>s. if config_done_receivers s = 0 then s else s\<lparr>config_done_sent := Suc (config_done_sent s)\<rparr>)) (\<lambda>_.
     bail (AsyncResponse AwaitConfigurationDone))"

section \<open>Tasks\<close>

text \<open>
  One stage of a task, from one point where it waits to the next.  A task that waits for something
  that has not happened stays as it is.  When a launch or an attach is over its subscription ends,
  and the result is sent by another step.  A spawned task that is over has no result to send.
\<close>

definition finish_task :: "('l, response_body) sact \<Rightarrow> ('l, task) sact" where
  "finish_task m =
     onResult m (\<lambda>r.
     andThen (modifies (\<lambda>s. s\<lparr>config_done_receivers := config_done_receivers s - 1\<rparr>)) (\<lambda>_.
     ret (Ready r)))"

fun run_task :: "'l env \<Rightarrow> task \<Rightarrow> ('l, task) sact" where
  "run_task E (LaunchTask n args) =
     andThen (reads config_done_sent) (\<lambda>sent.
     if sent \<le> n then ret (LaunchTask n args)
     else
       andThen (create_terminal E args) (\<lambda>needed. case needed of
         None \<Rightarrow> ret (CompleteLaunch args)
       | Some (kind, title) \<Rightarrow> ret (CreateTerminal kind title args)))"
| "run_task E (CreateTerminal kind title args) =
     onResult (terminal_start E kind title) (\<lambda>r. case r of
       Inr addr \<Rightarrow> ret (AwaitTerminal addr args)
     | Inl err \<Rightarrow> andThen (terminal_failed (error_text err)) (\<lambda>_. ret (CompleteLaunch args)))"
| "run_task E (AwaitTerminal addr args) =
     andThen (case terminal_finish E addr of
         Inr terminal \<Rightarrow> set_debuggee_terminal (Some terminal)
       | Inl err \<Rightarrow> terminal_failed err) (\<lambda>_.
     ret (CompleteLaunch args))"
| "run_task E (CompleteLaunch args) = finish_task (complete_launch E args)"
| "run_task E (AttachTask n args) =
     andThen (reads config_done_sent) (\<lambda>sent.
     if sent \<le> n then ret (AttachTask n args) else finish_task (complete_attach E args))"
| "run_task E AwaitConfigurationDone =
     andThen (reads config_done_receivers) (\<lambda>receivers.
     if receivers > 0 then ret AwaitConfigurationDone else ret (Ready (Inr Resp_configurationDone)))"
| "run_task E t = ret t"

fun run_spawned :: "'l env \<Rightarrow> task \<Rightarrow> ('l, task option) sact" where
  "run_spawned E (DebuggerTerminalTask title) =
     onResult (terminal_start E RtIntegrated title) (\<lambda>r. case r of
       Inr addr \<Rightarrow> ret (Some (AwaitDebuggerTerminal addr))
     | Inl err \<Rightarrow> andThen (debugger_terminal_failed (error_text err)) (\<lambda>_. ret None))"
| "run_spawned E (AwaitDebuggerTerminal addr) = andThen (debugger_terminal_ready E addr) (\<lambda>_. ret None)"
| "run_spawned E t = ret None"

end
