(* ===== verification/Launch_Laws.thy ===== *)
theory Launch_Laws
  imports Launch Stub_Env
begin

text \<open>
  What launching and restarting guarantee: the environment of the debuggee when keys differ in case,
  where its standard streams go, and what a failed restart leaves behind.
\<close>

section \<open>Environment variables that differ only in case\<close>

text \<open>The first of the keys that has the upper case of \<open>k\<close>.\<close>

definition first_spelling :: "'l env \<Rightarrow> string list \<Rightarrow> string \<Rightarrow> string" where
  "first_spelling E ks k = (case List.find (\<lambda>k'. to_uppercase (lnch E) k' = to_uppercase (lnch E) k) ks of
      Some k' \<Rightarrow> k' | None \<Rightarrow> k)"

definition spelled :: "'l env \<Rightarrow> bool \<Rightarrow> string list \<Rightarrow> string \<Rightarrow> string" where
  "spelled E ignore_case ks k = (if ignore_case then first_spelling E ks k else k)"

text \<open>Setting the variables in order, under the spellings of all of them.\<close>

definition set_spelled :: "'l env \<Rightarrow> bool \<Rightarrow> string list \<Rightarrow> (string \<times> string) list \<Rightarrow> sbenvironment \<Rightarrow> sbenvironment" where
  "set_spelled E ignore_case ks kvs env =
     fold (\<lambda>kv e. environment_set (lnch E) e (spelled E ignore_case ks (fst kv)) (snd kv)) kvs env"

lemma find_append: "List.find P (xs @ ys) = (case List.find P xs of Some x \<Rightarrow> Some x | None \<Rightarrow> List.find P ys)"
  by (induction xs) auto

text \<open>The case map knows the first spelling of the keys seen so far.\<close>

definition case_map_of :: "'l env \<Rightarrow> string list \<Rightarrow> (string \<times> string) list \<Rightarrow> bool" where
  "case_map_of E ks m \<longleftrightarrow> (\<forall>u. hm_get m u = List.find (\<lambda>k. to_uppercase (lnch E) k = u) ks)"

lemma fold_env_key_spelled:
  assumes "case_map_of E ks m"
  shows "fst (fold_env_key E True m k) = first_spelling E (ks @ k # ks') k \<and>
    case_map_of E (ks @ [k]) (snd (fold_env_key E True m k))"
  using assms by (auto simp: fold_env_key_def first_spelling_def case_map_of_def find_append hm_get_insert Let_def
      split: option.splits)

lemma set_env_vars_spelled:
  "(ignore_case \<Longrightarrow> case_map_of E ks m) \<Longrightarrow> fst (fold (set_env_var E ignore_case) kvs (env, m)) =
     set_spelled E ignore_case (ks @ map fst kvs) kvs env"
proof (induction kvs arbitrary: ks m env)
  case Nil
  then show ?case by (simp add: set_spelled_def)
next
  case (Cons kv kvs)
  obtain k v where kv: "kv = (k, v)" by (cases kv)
  show ?case
  proof (cases ignore_case)
    case True
    obtain k' m' where f: "fold_env_key E True m k = (k', m')" by (cases "fold_env_key E True m k")
    have "k' = first_spelling E (ks @ k # map fst kvs) k" "case_map_of E (ks @ [k]) m'"
      using fold_env_key_spelled [OF Cons.prems [OF True], of k "map fst kvs"] f by auto
    then show ?thesis using Cons.IH [of "ks @ [k]" m'] True f kv
      by (simp add: set_env_var_def set_spelled_def spelled_def)
  next
    case False
    then show ?thesis using Cons.IH [of "ks @ [k]" m] kv
      by (simp add: set_env_var_def set_spelled_def spelled_def fold_env_key_def)
  qed
qed

lemma set_env_items_ok: "set_env_items E ignore_case (map Inr kvs) acc = Inr (fold (set_env_var E ignore_case) kvs acc)"
  by (induction kvs arbitrary: acc) auto

text \<open>
  Property C14.  The debuggee's environment: the variables of the file come first, then those of the
  configuration, on top of the inherited ones if these are wanted.  For a Windows debuggee all
  spellings of a key that differ only in case become the first of them, wherever it came from, so that
  a later value replaces an earlier one; for others the keys are as they are given.
\<close>

theorem launch_environment_folded:
  assumes "la_env_file args = Some name" "read_env_file (lnch E) name = Inr (map Inr file)" "la_env args = Some cfg"
  shows "launch_env E args s =
    (let kvs = file @ jm_iter cfg;
         windows = (find_sub ''windows'' (platform_triple (lnch E) (dbg s)) \<noteq> None);
         base = (if debugger_get_variable (lnch E) (dbg s) ''target.inherit-env'' = Some ''true''
                 then platform_environment (lnch E) (dbg s) else environment_new (lnch E))
     in Done (Inr (set_spelled E windows (map fst kvs) kvs base), s))"
proof -
  have "case_map_of E [] []" by (simp add: case_map_of_def)
  then have "fst (fold (set_env_var E b) (file @ jm_iter cfg) (base, [])) =
      set_spelled E b (map fst (file @ jm_iter cfg)) (file @ jm_iter cfg) base" for b base
    using set_env_vars_spelled [of b E "[]" "[]" "file @ jm_iter cfg" base] by simp
  then show ?thesis
    using assms by (simp add: launch_env_def env_from_file_def act_step act_eval set_env_items_ok Let_def)
qed

definition sample_launch :: launch_request_arguments where
  "sample_launch = \<lparr>la_common = \<lparr>cf_name = None, cf_source_map = None, cf_expressions = None, cf_init_commands = None,
      cf_pre_run_commands = None, cf_post_run_commands = None, cf_graceful_shutdown = None,
      cf_pre_terminate_commands = None, cf_exit_commands = None, cf_source_languages = None,
      cf_reverse_debugging = None, cf_relative_path_base = None, cf_breakpoint_mode = None,
      cf_adapter_settings = None\<rparr>,
    la_no_debug = None, la_program = None, la_args = None, la_cwd = None, la_env = Some (JsonMap [(''PATH'', ''2'')]),
    la_env_file = Some ''.env'', la_stdio = None, la_stop_on_entry = None, la_terminal = None, la_console = None,
    la_target_create_commands = None, la_process_create_commands = None\<rparr>"

text \<open>An environment that only remembers how often \<^verbatim>\<open>Path\<close> was set, on Windows.\<close>

definition sample_windows_env :: "unit env" where
  "sample_windows_env = stub_env\<lparr>lnch := (stub_launch_api :: unit launch_api)\<lparr>
     platform_triple := (\<lambda>_. ''x86_64-pc-windows''), to_uppercase := make_ascii_uppercase,
     read_env_file := (\<lambda>_. Inr [Inr (''Path'', ''1'')]),
     environment_set := (\<lambda>e k v. case e of SBEnvironment n \<Rightarrow> SBEnvironment (if k = ''Path'' then n + 1 else n))\<rparr>\<rparr>"

theorem launch_environment_folded_witness:
  "launch_env sample_windows_env sample_launch (session_new () False) = Done (Inr (SBEnvironment 2), session_new () False)"
proof -
  have "find_sub ''windows'' ''x86_64-pc-windows'' \<noteq> None" "make_ascii_uppercase ''Path'' = make_ascii_uppercase ''PATH''"
    by code_simp+
  then show ?thesis
    using launch_environment_folded [of sample_launch "''.env''" sample_windows_env "[(''Path'', ''1'')]"
        "JsonMap [(''PATH'', ''2'')]" "session_new () False"]
    by (simp add: sample_launch_def sample_windows_env_def stub_env_def stub_launch_api_def set_spelled_def spelled_def
        first_spelling_def del: find_sub.simps)
qed

section \<open>Standard streams\<close>

text \<open>
  Without a terminal the streams named in the configuration are not opened either, and a list that is
  too short is filled up with the terminal, not with its last entry.
\<close>

lemma stdio_needs_terminal: "configure_stdio E args None info = info"
  by (simp add: configure_stdio_def)

lemma stdio_padded_with_terminal: "padded_stdio (Some (Second [Some a, Some b])) = [Some a, Some b, None]"
  by (simp add: padded_stdio_def)

section \<open>A failed restart\<close>

text \<open>When the old debuggee cannot be killed, the restart fails and the event listener stays corked.\<close>

lemma failed_restart_stays_corked:
  assumes "pre_terminate_commands s = None" "process_is_valid (proc E) (dbg s)"
    and "is_alive (process_get_state (proc E) (dbg s))" "terminate_on_disconnect s"
    and "process_kill (proc E) (dbg s) = (Inl err, l)"
  shows "\<exists>s'. handle_restart E args s = Done (Inl (StrError err), s') \<and> corked (event_listener s')"
  using assms
  by (simp add: handle_restart_def run_pre_terminate_def terminate_debuggee_def when_some_def act_step act_eval
      unwrap_or_def cork_def try_op_def run_def andThen_def del: is_alive.simps)

end
