(* ===== verification/Dispatch.thy ===== *)
theory Dispatch
  imports Step_In Disassemble Session_Events Launch
begin

text \<open>
  The main event loop, \<^verbatim>\<open>DebugSession::run\<close>, and how it dispatches requests, events and the stages of
  asynchronous responses (\<^verbatim>\<open>debug_session.rs\<close>).

  The tasks of the loop and those it spawns share the session under a lock and never hold it while they
  wait, so that one step of the model is one section under the lock.  Which step comes next is up to
  the runtime.  A panic ends the loop.
\<close>

section \<open>Requests\<close>

definition responds :: "('l, 'a) sact \<Rightarrow> ('a \<Rightarrow> response_body) \<Rightarrow> ('l, response_body) sact" where
  "responds m body = andThen m (\<lambda>r. ret (body r))"

definition report_invalid :: "string option \<Rightarrow> ('l, response_body) sact" where
  "report_invalid parsed = (case parsed of Some err \<Rightarrow> report_launch_cfg_error err | None \<Rightarrow> panic)"

text \<open>The inner \<^verbatim>\<open>match\<close>, for requests that need a debugger.\<close>

fun handle_debug_request :: "'l env \<Rightarrow> request_arguments \<Rightarrow> ('l, response_body) sact" where
  "handle_debug_request E (Req_setBreakpoints args) = responds (handle_set_breakpoints E args) Resp_setBreakpoints"
| "handle_debug_request E (Req_setInstructionBreakpoints args) =
     responds (handle_set_instruction_breakpoints E args) Resp_setInstructionBreakpoints"
| "handle_debug_request E (Req_setFunctionBreakpoints args) =
     responds (handle_set_function_breakpoints E args) Resp_setFunctionBreakpoints"
| "handle_debug_request E (Req_setExceptionBreakpoints args) =
     responds (handle_set_exception_breakpoints E args) Resp_setExceptionBreakpoints"
| "handle_debug_request E (Req_exceptionInfo args) = responds (handle_execption_info E args) Resp_exceptionInfo"
| "handle_debug_request E Req_threads = responds (handle_threads E) Resp_threads"
| "handle_debug_request E (Req_stackTrace args) = responds (handle_stack_trace E args) Resp_stackTrace"
| "handle_debug_request E (Req_scopes args) = responds (handle_scopes args) Resp_scopes"
| "handle_debug_request E (Req_variables args) = responds (handle_variables E args) Resp_variables"
| "handle_debug_request E (Req_evaluate args) = handle_evaluate E args"
| "handle_debug_request E (Req_setVariable args) = responds (handle_set_variable E args) Resp_setVariable"
| "handle_debug_request E (Req_pause args) = responds (handle_pause E) (\<lambda>_. Resp_pause)"
| "handle_debug_request E (Req_continue args) = responds (handle_continue E) Resp_continue"
| "handle_debug_request E (Req_next args) = responds (handle_next E args) (\<lambda>_. Resp_next)"
| "handle_debug_request E (Req_stepInTargets args) = responds (handle_step_in_targets E args) Resp_stepInTargets"
| "handle_debug_request E (Req_stepIn args) = responds (handle_step_in E args) (\<lambda>_. Resp_stepIn)"
| "handle_debug_request E (Req_stepOut args) = responds (handle_step_out E args) (\<lambda>_. Resp_stepOut)"
| "handle_debug_request E (Req_stepBack args) = responds (handle_step_back E args) (\<lambda>_. Resp_stepBack)"
| "handle_debug_request E (Req_reverseContinue args) =
     responds (handle_reverse_continue E args) (\<lambda>_. Resp_reverseContinue)"
| "handle_debug_request E (Req_source args) = responds (handle_source E args) Resp_source"
| "handle_debug_request E (Req_modules args) = responds (handle_modules E args) Resp_modules"
| "handle_debug_request E (Req_completions args) = responds (handle_completions E args) Resp_completions"
| "handle_debug_request E (Req_gotoTargets args) = responds (handle_goto_targets args) Resp_gotoTargets"
| "handle_debug_request E (Req_goto args) = responds (handle_goto E args) (\<lambda>_. Resp_goto)"
| "handle_debug_request E (Req_restartFrame args) = responds (handle_restart_frame E args) (\<lambda>_. Resp_restartFrame)"
| "handle_debug_request E (Req_dataBreakpointInfo args) =
     responds (handle_data_breakpoint_info E args) Resp_dataBreakpointInfo"
| "handle_debug_request E (Req_setDataBreakpoints args) =
     responds (handle_set_data_breakpoints E args) Resp_setDataBreakpoints"
| "handle_debug_request E (Req_disassemble args) = responds (handle_disassemble E args) Resp_disassemble"
| "handle_debug_request E (Req_readMemory args) = responds (handle_read_memory E args) Resp_readMemory"
| "handle_debug_request E (Req_writeMemory args) = responds (handle_write_memory E args) Resp_writeMemory"
| "handle_debug_request E (Req_symbols args) = responds (handle_symbols E args) Resp_symbols"
| "handle_debug_request E (Req_excludeCaller args) = responds (handle_exclude_caller E args) Resp_excludeCaller"
| "handle_debug_request E (Req_setExcludedCallers args) =
     responds (handle_set_excluded_callers args) (\<lambda>_. Resp_setExcludedCallers)"
| "handle_debug_request E (Req_pythonMessage args) = responds (handle_python_message E args) (\<lambda>_. Resp_pythonMessage)"
| "handle_debug_request E _ = bail (StrError ''Not implemented.'')"

text \<open>The outer \<^verbatim>\<open>match\<close>.\<close>

definition handle_request_args :: "'l env \<Rightarrow> request_arguments \<Rightarrow> ('l, response_body) sact" where
  "handle_request_args E arguments = (case arguments of
      Req_adapterSettings args \<Rightarrow> responds (handle_adapter_settings E args) (\<lambda>_. Resp_adapterSettings)
    | Req_initialize args \<Rightarrow> responds (handle_initialize E args) Resp_initialize
    | Req_launch (First args) \<Rightarrow> handle_launch E args
    | Req_launch (Second json) \<Rightarrow> report_invalid (launch_args_error (libs E) json)
    | Req_attach (First args) \<Rightarrow> handle_attach E args
    | Req_attach (Second json) \<Rightarrow> report_invalid (attach_args_error (libs E) json)
    | Req_restart (First args) \<Rightarrow> responds (handle_restart E args) (\<lambda>_. Resp_restart)
    | Req_restart (Second json) \<Rightarrow> report_invalid (restart_args_error (libs E) json)
    | Req_configurationDone \<Rightarrow> responds handle_configuration_done (\<lambda>_. Resp_configurationDone)
    | Req_terminate args \<Rightarrow> responds (handle_terminate E) (\<lambda>_. Resp_terminate)
    | Req_disconnect args \<Rightarrow> responds (handle_disconnect E args) (\<lambda>_. Resp_disconnect)
    | _ \<Rightarrow>
        andThen (reads no_debug) (\<lambda>off.
        if off then bail (StrError ''Not supported in noDebug mode.'')
        else handle_debug_request E arguments))"

definition send_response :: "u32 \<Rightarrow> task error + response_body \<Rightarrow> ('l, unit) sact" where
  "send_response rseq r =
     modifies (hand_over (OutResponse (make_response rseq r)))"

text \<open>
  The result is the task that is spawned, if any.  \<open>cancelled\<close> says whether the request's token was
  cancelled before, and \<open>answers\<close> what it will say while the request is handled.
\<close>

definition handle_request :: "'l env \<Rightarrow> u32 \<Rightarrow> request_arguments \<Rightarrow> bool \<Rightarrow> bool list \<Rightarrow> ('l, task option) sact" where
  "handle_request E rseq request_args cancelled answers =
     (if cancelled then andThen (send_response rseq (Inl (StrError ''canceled''))) (\<lambda>_. ret None)
      else
        andThen (modifies (\<lambda>s. s\<lparr>cancel_answers := answers\<rparr>)) (\<lambda>_.
        if request_args = Req_unknown then
          andThen (send_response rseq (Inl (StrError ''Not implemented.''))) (\<lambda>_. ret None)
        else
          onResult (handle_request_args E request_args) (\<lambda>r.
          andThen (modifies (\<lambda>s. s\<lparr>cancel_answers := []\<rparr>)) (\<lambda>_.
          case r of
            Inl (AsyncResponse t) \<Rightarrow> ret (Some t)
          | _ \<Rightarrow> andThen (send_response rseq r) (\<lambda>_. ret None)))))"

section \<open>Events\<close>

text \<open>A handler without a result, as a function that may also not return.\<close>

definition completes :: "('l, unit) sact \<Rightarrow> 'l session \<Rightarrow> 'l session exec option" where
  "completes m s = Some (case m s of Panic \<Rightarrow> Panic | Done (_, s') \<Rightarrow> Done s')"

definition handle_debug_event :: "'l env \<Rightarrow> sbevent \<Rightarrow> 'l session \<Rightarrow> 'l session exec option" where
  "handle_debug_event E ev = (case as_process_event ev of
      Some process_event \<Rightarrow> handle_process_event E (event_type ev) process_event
    | None \<Rightarrow> completes (case as_target_event ev of
        Some ms \<Rightarrow> handle_target_event E (event_type ev) ms
      | None \<Rightarrow> (case as_breakpoint_event ev of
          Some (bp, etype) \<Rightarrow> handle_breakpoint_event E bp etype
        | None \<Rightarrow>
            if as_thread_event ev then handle_thread_event (event_type ev)
            else if lldb_has_v15 (cmds E) then
              (case as_diagnostic_event ev of
                 Some (diag_type, message) \<Rightarrow> handle_diagnostic_event diag_type message
               | None \<Rightarrow> ret ())
            else ret ())))"

section \<open>The loop\<close>

text \<open>
  The session, and the spawned tasks that will send a response, each with the number of its request.
  An input is what the loop or one of the tasks reacts to next.
\<close>

record 'l event_loop =
  shared_session :: "'l session"
  response_tasks :: "(u32 \<times> task) list"

datatype loop_input =
    Request u32 request_arguments bool "bool list" "nat list"
  | DebugEvent sbevent
  | PythonEvent python_event
  | TaskReady nat
  | SpawnedReady nat

definition remove_nth :: "nat \<Rightarrow> 'a list \<Rightarrow> 'a list" where
  "remove_nth i xs = take i xs @ drop (Suc i) xs"

text \<open>The next stage of the \<open>i\<close>-th response task; a task that has its result sends it and is gone.\<close>

definition task_step :: "'l env \<Rightarrow> nat \<Rightarrow> 'l event_loop \<Rightarrow> 'l event_loop exec" where
  "task_step E i el =
     (if i < length (response_tasks el) then
        (case response_tasks el ! i of
           (rseq, Ready r) \<Rightarrow>
             (case send_response rseq r (shared_session el) of
                Panic \<Rightarrow> Panic
              | Done (_, s) \<Rightarrow> Done (el\<lparr>shared_session := s, response_tasks := remove_nth i (response_tasks el)\<rparr>))
         | (rseq, t) \<Rightarrow>
             (case run_task E t (shared_session el) of
                Done (Inr t', s) \<Rightarrow> Done (el\<lparr>shared_session := s, response_tasks := (response_tasks el)[i := (rseq, t')]\<rparr>)
              | _ \<Rightarrow> Panic))
      else Done el)"

definition spawned_step :: "'l env \<Rightarrow> nat \<Rightarrow> 'l session \<Rightarrow> 'l session exec" where
  "spawned_step E i s =
     (if i < length (spawned s) then
        (case run_spawned E (spawned s ! i) s of
           Done (Inr (Some t), s') \<Rightarrow> Done (s'\<lparr>spawned := (spawned s')[i := t]\<rparr>)
         | Done (Inr None, s') \<Rightarrow> Done (s'\<lparr>spawned := remove_nth i (spawned s')\<rparr>)
         | _ \<Rightarrow> Panic)
      else Done s)"

fun loop_step :: "'l env \<Rightarrow> loop_input \<Rightarrow> 'l event_loop \<Rightarrow> 'l event_loop exec option" where
  "loop_step E (Request rseq args cancelled answers clock) el = Some
     (case handle_request E rseq args cancelled answers ((shared_session el)\<lparr>clock_answers := clock\<rparr>) of
        Done (Inr (Some t), s) \<Rightarrow> Done (el\<lparr>shared_session := s, response_tasks := response_tasks el @ [(rseq, t)]\<rparr>)
      | Done (_, s) \<Rightarrow> Done (el\<lparr>shared_session := s\<rparr>)
      | Panic \<Rightarrow> Panic)"
| "loop_step E (DebugEvent ev) el =
     map_option (map_exec (\<lambda>s. el\<lparr>shared_session := s\<rparr>)) (handle_debug_event E ev (shared_session el))"
| "loop_step E (PythonEvent ev) el =
     map_option (map_exec (\<lambda>s. el\<lparr>shared_session := s\<rparr>)) (completes (handle_python_event ev) (shared_session el))"
| "loop_step E (TaskReady i) el = Some (task_step E i el)"
| "loop_step E (SpawnedReady i) el =
     Some (map_exec (\<lambda>s. el\<lparr>shared_session := s\<rparr>) (spawned_step E i (shared_session el)))"

text \<open>The loop as it is started: the settings given to the adapter have been applied.  \<open>answers\<close> is what the messages
  of the run will find in the queue of the dispatcher.\<close>

definition event_loop_new :: "'l env \<Rightarrow> 'l \<Rightarrow> bool \<Rightarrow> adapter_settings \<Rightarrow> nat option list \<Rightarrow> 'l event_loop exec" where
  "event_loop_new E l python settings answers =
     (case update_adapter_settings E settings ((session_new l python)\<lparr>queue_answers := answers\<rparr>) of
        Panic \<Rightarrow> Panic
      | Done (_, s) \<Rightarrow> Done \<lparr>shared_session = s, response_tasks = []\<rparr>)"

inductive loop_run :: "'l env \<Rightarrow> loop_input list \<Rightarrow> 'l event_loop \<Rightarrow> bool" for E where
  loop_start: "event_loop_new E l python settings answers = Done el \<Longrightarrow> loop_run E [] el"
| loop_next: "loop_run E ins el \<Longrightarrow> loop_step E i el = Some (Done el') \<Longrightarrow> loop_run E (ins @ [i]) el'"

end
