(* ===== verification/Plain_Handlers.thy ===== *)
theory Plain_Handlers
  imports Dispatch
begin

text \<open>
  What nearly all handlers have in common: they neither send a response themselves nor touch the
  configuration-done channel, and when they fail it is not with an asynchronous response.  Such an
  action is called plain.  Only a launch, an attach, \<^verbatim>\<open>configurationDone\<close> and \<^verbatim>\<open>evaluate\<close> are not.
\<close>

section \<open>Plain actions\<close>

fun is_response :: "outgoing \<Rightarrow> bool" where
  "is_response (OutResponse _) = True"
| "is_response _ = False"

definition loop_view :: "'l session \<Rightarrow> outgoing list \<times> nat \<times> nat" where
  "loop_view s = (filter is_response (handed_over s), config_done_sent s, config_done_receivers s)"

fun async_error :: "'f error \<Rightarrow> bool" where
  "async_error (AsyncResponse _) = True"
| "async_error _ = False"

fun is_async :: "'f error + 'a \<Rightarrow> bool" where
  "is_async (Inl e) = async_error e"
| "is_async (Inr _) = False"

definition plain :: "('l, 'a) sact \<Rightarrow> bool" where
  "plain m \<longleftrightarrow> (\<forall>s r s'. m s = Done (r, s') \<longrightarrow> loop_view s' = loop_view s \<and> \<not> is_async r)"

named_theorems plain_intros \<open>plain actions and ways to combine them\<close>

lemma async_blame [simp]:
  "\<not> async_error (blame_user e)" "\<not> async_error (blame_nobody e)" "\<not> async_error (str_error m)"
  by (simp_all add: blame_user_def blame_nobody_def assign_blame_def str_error_def)

lemma async_maps [simp]:
  "\<not> is_async (map_sum StrError f x)" "\<not> is_async (map_err blame_user r)" "\<not> is_async (map_err blame_nobody r)"
  by (cases x; simp) (cases r; simp add: map_err_def)+

lemma is_async_map_sum [simp]: "is_async (map_sum id f r) = is_async r"
  by (cases r) simp_all

lemma view_simps [simp]:
  "loop_view (s\<lparr>dbg := l\<rparr>) = loop_view s"
  "loop_view (s\<lparr>cancel_answers := bs\<rparr>) = loop_view s"
  "loop_view (s\<lparr>queue_answers := qs\<rparr>) = loop_view s"
  "loop_view (s\<lparr>clock_answers := ts\<rparr>) = loop_view s"
  "loop_view (s\<lparr>var_refs := t\<rparr>) = loop_view s"
  "loop_view (s\<lparr>disasm_ranges := d\<rparr>) = loop_view s"
  by (simp_all add: loop_view_def)

lemma plainI: "(\<And>s r s'. m s = Done (r, s') \<Longrightarrow> loop_view s' = loop_view s \<and> \<not> is_async r) \<Longrightarrow> plain m"
  by (auto simp: plain_def)

lemma plainD: "plain m \<Longrightarrow> m s = Done (r, s') \<Longrightarrow> loop_view s' = loop_view s \<and> \<not> is_async r"
  by (auto simp: plain_def)

lemma plain_basic [plain_intros]:
  "plain (ret x)" "plain panic" "plain (reads g)" "plain (lift_exec z)" "plain (ask q)"
  by (auto simp: plain_def act_eval ask_def lift_exec_def split: exec.splits)

lemma plain_debugger [plain_intros]: "plain (run f)" "plain (tell u)" "plain (attempt g)" "plain (try_op h)"
  by (auto simp: plain_def run_def tell_def attempt_def try_op_def andThen_def act_eval
      split: prod.splits sum.splits)

lemma plain_fail [plain_intros]:
  "\<not> async_error e \<Longrightarrow> plain (bail e)" "\<not> is_async r \<Longrightarrow> plain (lift_result r)"
  "\<not> async_error e' \<Longrightarrow> plain (ok_or e' y)"
  by (auto simp: plain_def act_eval ok_or_def split: option.splits)

lemma plain_modifies [plain_intros]: "(\<And>s. loop_view (g s) = loop_view s) \<Longrightarrow> plain (modifies g)"
  by (auto simp: plain_def act_eval)

lemma plain_andThen [plain_intros]: "plain m \<Longrightarrow> (\<And>x. plain (f x)) \<Longrightarrow> plain (andThen m f)"
  unfolding plain_def andThen_Done by fastforce

lemma plain_onResult [plain_intros]: "plain m \<Longrightarrow> (\<And>r. \<not> is_async r \<Longrightarrow> plain (h r)) \<Longrightarrow> plain (onResult m h)"
  unfolding plain_def onResult_Done by fastforce

lemma plain_for_each [plain_intros]: "(\<And>x. plain (f x)) \<Longrightarrow> plain (for_each xs f)"
  by (induction xs) (simp_all add: plain_basic plain_andThen)

lemma plain_for_collect [plain_intros]: "(\<And>x. plain (f x)) \<Longrightarrow> plain (for_collect xs f)"
  by (induction xs) (simp_all add: plain_basic plain_andThen)

lemma plain_if [plain_intros]: "(b \<Longrightarrow> plain m) \<Longrightarrow> (\<not> b \<Longrightarrow> plain n) \<Longrightarrow> plain (if b then m else n)"
  by simp

lemma plain_let [plain_intros]: "plain (f x) \<Longrightarrow> plain (let y = x in f y)"
  by simp

lemma plain_option [plain_intros]:
  "plain m \<Longrightarrow> (\<And>y. plain (n y)) \<Longrightarrow> plain (case x of None \<Rightarrow> m | Some y \<Rightarrow> n y)"
  by (simp split: option.split)

lemma plain_sum [plain_intros]:
  "(\<And>a. x = Inl a \<Longrightarrow> plain (m a)) \<Longrightarrow> (\<And>b. plain (n b)) \<Longrightarrow> plain (case x of Inl a \<Rightarrow> m a | Inr b \<Rightarrow> n b)"
  by (simp split: sum.split)

lemma plain_prod [plain_intros]: "(\<And>a b. plain (m a b)) \<Longrightarrow> plain (case x of (a, b) \<Rightarrow> m a b)"
  by (simp split: prod.split)

lemma plain_list [plain_intros]:
  "plain m \<Longrightarrow> (\<And>y ys. plain (n y ys)) \<Longrightarrow> plain (case xs of [] \<Rightarrow> m | y # ys \<Rightarrow> n y ys)"
  by (simp split: list.split)

lemma plain_either [plain_intros]:
  "(\<And>a. plain (m a)) \<Longrightarrow> (\<And>b. plain (n b)) \<Longrightarrow> plain (case x of First a \<Rightarrow> m a | Second b \<Rightarrow> n b)"
  by (simp split: either.split)

lemma plain_container [plain_intros]:
  "(\<And>f. plain (a f)) \<Longrightarrow> (\<And>f. plain (b f)) \<Longrightarrow> (\<And>f. plain (c f)) \<Longrightarrow> (\<And>f. plain (d f)) \<Longrightarrow>
     (\<And>f. plain (e f)) \<Longrightarrow> (\<And>v. plain (g v)) \<Longrightarrow> plain (case_container a b c d e g x)"
  by (simp split: container.split)

lemma plain_case_prepared [plain_intros]:
  "(\<And>e. plain (a e)) \<Longrightarrow> (\<And>e. plain (b e)) \<Longrightarrow> (\<And>e. plain (c e)) \<Longrightarrow> plain (case_prepared_expression a b c x)"
  by (simp split: prepared_expression.split)

lemma plain_bool [plain_intros]: "plain a \<Longrightarrow> plain b \<Longrightarrow> plain (case x of True \<Rightarrow> a | False \<Rightarrow> b)"
  by (simp split: bool.split)

lemma plain_mode [plain_intros]: "plain a \<Longrightarrow> plain b \<Longrightarrow> plain (case x of ModePath \<Rightarrow> a | ModeFile \<Rightarrow> b)"
  by (simp split: breakpoint_mode.split)

section \<open>Shared operations\<close>

lemma plain_cancelled [plain_intros]: "plain is_cancelled_now" "plain elapsed"
  by (auto simp: plain_def is_cancelled_now_def elapsed_def split: list.splits)

lemma plain_messages [plain_intros]:
  "plain (send_event ev)" "plain (console_message out)" "plain (console_error out)" "plain (console_message_impl c out)"
  by (auto simp: plain_def act_step console_defs loop_view_def)

lemma plain_wrappers [plain_intros]:
  "plain m \<Longrightarrow> plain (log_errors m)" "plain n \<Longrightarrow> plain (with_sync_mode E n)"
  by (auto simp: log_errors_def with_sync_mode_def intro!: plain_intros)

lemma plain_stores [plain_intros]: "plain (create_ref p k c)" "plain (dasm_from_address E a)"
  by (auto simp: plain_def create_ref_def dasm_from_address_def split: exec.splits prod.splits)

lemma plain_before_resume [plain_intros]: "plain before_resume"
  by (simp add: before_resume_def plain_modifies loop_view_def)

lemma plain_shared [plain_intros]:
  "plain (thread_by_id E tid)" "plain (ensure_absolute_path p)"
  unfolding thread_by_id_def ensure_absolute_path_def by (intro plain_intros; simp)+

lemma plain_map_filespec [plain_intros]: "plain (map_filespec_to_local E fs)"
  unfolding map_filespec_to_local_def by (intro plain_intros; simp add: loop_view_def)

lemma plain_in_disassembly [plain_intros]: "plain (in_disassembly E frame)"
  unfolding in_disassembly_def by (intro plain_intros; simp split: show_disassembly.split add: plain_intros)

section \<open>Settings and commands\<close>

lemma plain_handle_initialize [plain_intros]: "plain (handle_initialize a0 a1)"
  unfolding handle_initialize_def by (intro plain_intros; simp add: loop_view_def)

lemma plain_exec_loop [plain_intros]: "plain (exec_loop E cs)"
  by (induction cs) (auto simp: Let_def intro!: plain_intros)

lemma plain_reverse_exec [plain_intros]: "plain (reverse_exec E cs)"
  by (induction cs) (auto simp: Let_def intro!: plain_intros)

lemma plain_exec_commands [plain_intros]: "plain (exec_commands a0 a1 a2)"
  unfolding exec_commands_def by (intro plain_intros; simp add: loop_view_def)

lemma plain_print_console_mode [plain_intros]: "plain (print_console_mode)"
  unfolding print_console_mode_def by (intro plain_intros; simp add: loop_view_def)

lemma plain_update_adapter_settings [plain_intros]: "plain (update_adapter_settings E st)"
  by (auto simp: plain_def update_adapter_settings_def apply_settings_def update_languages_def update_completions_def
      update_hovers_def loop_view_def Let_def split: prod.splits option.splits if_splits)

lemma plain_update_adapter_settings_and_caps [plain_intros]: "plain (update_adapter_settings_and_caps a0 a1)"
  unfolding update_adapter_settings_and_caps_def by (intro plain_intros; simp add: loop_view_def)

lemma plain_refresh_client_display [plain_intros]: "plain (refresh_client_display a0 a1)"
  unfolding refresh_client_display_def by (intro plain_intros; simp add: loop_view_def)

lemma plain_handle_adapter_settings [plain_intros]: "plain (handle_adapter_settings a0 a1)"
  unfolding handle_adapter_settings_def by (intro plain_intros; simp add: loop_view_def)

lemma plain_handle_completions [plain_intros]: "plain (handle_completions a0 a1)"
  unfolding handle_completions_def by (intro plain_intros; simp add: loop_view_def)

section \<open>Run control\<close>

lemma plain_notify_process_running [plain_intros]: "plain (notify_process_running a0)"
  unfolding notify_process_running_def by (intro plain_intros; simp add: loop_view_def)

lemma plain_select_stopped_thread [plain_intros]: "plain (select_stopped_thread a0)"
  unfolding select_stopped_thread_def by (intro plain_intros; simp add: loop_view_def)

lemma plain_notify_process_stopped [plain_intros]: "plain (notify_process_stopped a0)"
  unfolding notify_process_stopped_def by (intro plain_intros; simp add: loop_view_def)

lemma plain_notify_process_terminated [plain_intros]: "plain (notify_process_terminated E)"
  unfolding notify_process_terminated_def
  by (intro plain_intros; simp split: process_state.split add: plain_intros)

lemma plain_handle_pause [plain_intros]: "plain (handle_pause a0)"
  unfolding handle_pause_def by (intro plain_intros; simp add: loop_view_def)

lemma plain_handle_continue [plain_intros]: "plain (handle_continue a0)"
  unfolding handle_continue_def by (intro plain_intros; simp add: loop_view_def)

lemma plain_steps_instruction [plain_intros]: "plain (steps_instruction E g f)"
  by (auto simp: steps_instruction_def split: option.split stepping_granularity.split intro!: plain_intros)

lemma plain_handle_next [plain_intros]: "plain (handle_next a0 a1)"
  unfolding handle_next_def by (intro plain_intros; simp add: loop_view_def)

lemma plain_handle_step_out [plain_intros]: "plain (handle_step_out a0 a1)"
  unfolding handle_step_out_def by (intro plain_intros; simp add: loop_view_def)

lemma plain_handle_step_back [plain_intros]: "plain (handle_step_back a0 a1)"
  unfolding handle_step_back_def by (intro plain_intros; simp add: loop_view_def)

lemma plain_handle_reverse_continue [plain_intros]: "plain (handle_reverse_continue a0 a1)"
  unfolding handle_reverse_continue_def by (intro plain_intros; simp add: loop_view_def)

lemma plain_handle_goto_targets [plain_intros]: "plain (handle_goto_targets a0)"
  unfolding handle_goto_targets_def by (intro plain_intros; simp add: loop_view_def)

lemma plain_goto_disassembly [plain_intros]: "plain (goto_disassembly a0 a1 a2 a3 a4)"
  unfolding goto_disassembly_def by (intro plain_intros; simp add: loop_view_def)

lemma plain_goto_source [plain_intros]: "plain (goto_source a0 a1 a2 a3)"
  unfolding goto_source_def by (intro plain_intros; simp add: loop_view_def)

lemma plain_handle_goto [plain_intros]: "plain (handle_goto a0 a1)"
  unfolding handle_goto_def by (intro plain_intros; simp add: loop_view_def)

lemma plain_handle_restart_frame [plain_intros]: "plain (handle_restart_frame a0 a1)"
  unfolding handle_restart_frame_def by (intro plain_intros; simp add: loop_view_def)

section \<open>Inspection\<close>

lemma plain_handle_threads [plain_intros]: "plain (handle_threads a0)"
  unfolding handle_threads_def by (intro plain_intros; simp add: loop_view_def)

lemma plain_handle_execption_info [plain_intros]: "plain (handle_execption_info a0 a1)"
  unfolding handle_execption_info_def by (intro plain_intros; simp add: loop_view_def)

lemma plain_handle_modules [plain_intros]: "plain (handle_modules a0 a1)"
  unfolding handle_modules_def by (intro plain_intros; simp add: loop_view_def)

lemma plain_source_position [plain_intros]: "plain (source_position a0 a1 a2)"
  unfolding source_position_def by (intro plain_intros; simp add: loop_view_def)

lemma plain_disassembly_position [plain_intros]: "plain (disassembly_position a0 a1 a2 a3)"
  unfolding disassembly_position_def by (intro plain_intros; simp add: loop_view_def)

lemma plain_make_stack_frame [plain_intros]: "plain (make_stack_frame a0 a1 a2 a3)"
  unfolding make_stack_frame_def by (intro plain_intros; simp add: loop_view_def)

lemma plain_stack_frames_from [plain_intros]: "plain (stack_frames_from E thread i stop)"
proof (induction E thread i stop rule: stack_frames_from.induct)
  case (1 E thread i stop)
  then show ?case
    by (subst stack_frames_from.simps) (auto intro!: plain_intros)
qed

lemma plain_handle_stack_trace [plain_intros]: "plain (handle_stack_trace a0 a1)"
  unfolding handle_stack_trace_def by (intro plain_intros; simp add: loop_view_def)

lemma plain_handle_source [plain_intros]: "plain (handle_source a0 a1)"
  unfolding handle_source_def by (intro plain_intros; simp add: loop_view_def)

lemma plain_symbol_match [plain_intros]: "plain (symbol_match a0 a1 a2)"
  unfolding symbol_match_def by (intro plain_intros; simp add: loop_view_def)

lemma plain_collect_symbols [plain_intros]: "plain (collect_symbols E args syms acc)"
  by (induction syms arbitrary: acc) (auto simp: Let_def intro!: plain_intros)

lemma plain_handle_symbols [plain_intros]: "plain (handle_symbols a0 a1)"
  unfolding handle_symbols_def by (intro plain_intros; simp add: loop_view_def)

section \<open>Events\<close>

lemma plain_handle_state_change [plain_intros]: "plain (handle_state_change E ev)"
  unfolding handle_state_change_def by (cases "pe_state ev"; simp add: plain_intros)

lemma plain_module_events [plain_intros]: "plain (module_events a0 a1 a2)"
  unfolding module_events_def by (intro plain_intros; simp add: loop_view_def)

lemma plain_handle_target_event [plain_intros]: "plain (handle_target_event a0 a1 a2)"
  unfolding handle_target_event_def by (intro plain_intros; simp add: loop_view_def)

lemma plain_handle_thread_event [plain_intros]: "plain (handle_thread_event a0)"
  unfolding handle_thread_event_def by (intro plain_intros; simp add: loop_view_def)

lemma plain_handle_diagnostic_event [plain_intros]: "plain (handle_diagnostic_event a0 a1)"
  unfolding handle_diagnostic_event_def by (intro plain_intros; simp add: loop_view_def)

lemma plain_handle_python_message [plain_intros]: "plain (handle_python_message a0 a1)"
  unfolding handle_python_message_def by (intro plain_intros; simp add: loop_view_def)

section \<open>Variables and evaluation\<close>

lemma plain_compose_container_eval_name [plain_intros]: "plain (compose_container_eval_name a0 a1)"
  unfolding compose_container_eval_name_def by (intro plain_intros; simp add: loop_view_def)

lemma plain_summary_loop [plain_intros]: "plain (summary_loop E u cs summary sep)"
  by (induction cs arbitrary: summary sep) (auto intro!: plain_intros)

lemma plain_get_container_summary [plain_intros]: "plain (get_container_summary a0 a1 a2)"
  unfolding get_container_summary_def by (intro plain_intros; simp add: loop_view_def)

lemma plain_plain_summary [plain_intros]: "plain (plain_summary a0 a1 a2)"
  unfolding plain_summary_def by (intro plain_intros; simp add: loop_view_def)

lemma plain_get_var_summary [plain_intros]: "plain (get_var_summary a0 a1 a2)"
  unfolding get_var_summary_def by (intro plain_intros; simp add: loop_view_def)

lemma plain_get_var_handle [plain_intros]: "plain (get_var_handle a0 a1 a2 a3)"
  unfolding get_var_handle_def by (intro plain_intros; simp add: loop_view_def)

lemma plain_get_mem_ref_for_var [plain_intros]: "plain (get_mem_ref_for_var a0 a1)"
  unfolding get_mem_ref_for_var_def by (intro plain_intros; simp add: loop_view_def)

lemma plain_var_to_variable [plain_intros]: "plain (var_to_variable a0 a1 a2 a3)"
  unfolding var_to_variable_def by (intro plain_intros; simp add: loop_view_def)

lemma plain_convert_loop [plain_intros]: "plain (convert_loop E vs n h d acc)"
  by (induction vs arbitrary: acc) (simp_all add: Let_def plain_intros)

lemma plain_convert_scope_values [plain_intros]: "plain (convert_scope_values a0 a1 a2 a3 a4)"
  unfolding convert_scope_values_def by (intro plain_intros; simp add: loop_view_def)

lemma plain_make_scope [plain_intros]: "plain (make_scope a0 a1 a2 a3)"
  unfolding make_scope_def by (intro plain_intros; simp add: loop_view_def)

lemma plain_handle_scopes [plain_intros]: "plain (handle_scopes a0)"
  unfolding handle_scopes_def by (intro plain_intros; simp add: loop_view_def)

lemma plain_local_variables [plain_intros]: "plain (local_variables a0 a1 a2)"
  unfolding local_variables_def by (intro plain_intros; simp add: loop_view_def)

lemma plain_static_variables [plain_intros]: "plain (static_variables a0 a1 a2 a3)"
  unfolding static_variables_def by (intro plain_intros; simp add: loop_view_def)

lemma plain_value_variables [plain_intros]: "plain (value_variables a0 a1 a2)"
  unfolding value_variables_def by (intro plain_intros; simp add: loop_view_def)

lemma plain_handle_variables [plain_intros]: "plain (handle_variables a0 a1)"
  unfolding handle_variables_def by (intro plain_intros; simp add: loop_view_def)

lemma plain_evaluate_native [plain_intros]: "plain (evaluate_native a0 a1 a2)"
  unfolding evaluate_native_def by (intro plain_intros; simp add: loop_view_def)

lemma plain_evaluate_python [plain_intros]: "plain (evaluate_python a0 a1 a2 a3)"
  unfolding evaluate_python_def by (intro plain_intros; simp add: loop_view_def)

lemma plain_evaluate_expr_in_frame [plain_intros]: "plain (evaluate_expr_in_frame E e frame)"
  unfolding evaluate_expr_in_frame_def by (intro plain_intros; cases e; auto intro!: plain_intros)

lemma plain_as_array [plain_intros]: "plain (as_array E v count)"
  unfolding as_array_def by (intro plain_intros; simp split: sum.split)

lemma plain_apply_format_spec [plain_intros]: "plain (apply_format_spec a0 a1 a2)"
  unfolding apply_format_spec_def by (intro plain_intros; simp add: loop_view_def)

lemma plain_prepared [plain_intros]: "plain (prepared a0 a1)"
  unfolding prepared_def by (intro plain_intros; simp add: loop_view_def)

lemma plain_blaming_user [plain_intros]: "plain m \<Longrightarrow> plain (blaming_user m)"
  unfolding blaming_user_def by (intro plain_intros; simp)

lemma plain_handle_evaluate_expression [plain_intros]: "plain (handle_evaluate_expression a0 a1 a2 a3)"
  unfolding handle_evaluate_expression_def by (intro plain_intros; simp add: loop_view_def)

lemma plain_handle_execute_command [plain_intros]: "plain (handle_execute_command a0 a1 a2 a3)"
  unfolding handle_execute_command_def by (intro plain_intros; simp add: loop_view_def)

lemma plain_request_frame [plain_intros]: "plain (request_frame a0 a1)"
  unfolding request_frame_def by (intro plain_intros; simp add: loop_view_def)

lemma plain_evaluate_repl [plain_intros]: "plain (evaluate_repl E mode expr frame)"
  unfolding evaluate_repl_def by (cases mode; simp add: plain_intros)

lemma plain_evaluate_in_context [plain_intros]: "plain (evaluate_in_context a0 a1 a2 a3)"
  unfolding evaluate_in_context_def by (intro plain_intros; simp add: loop_view_def)

lemma plain_handle_set_variable [plain_intros]: "plain (handle_set_variable a0 a1)"
  unfolding handle_set_variable_def by (intro plain_intros; simp add: loop_view_def)

section \<open>Breakpoints\<close>

lemma plain_make_bp_info [plain_intros]: "plain (make_bp_info a0 a1 a2 a3 a4 a5)"
  unfolding make_bp_info_def by (intro plain_intros; simp add: loop_view_def)

lemma plain_source_response [plain_intros]: "plain (source_response a0 a1 a2 a3)"
  unfolding source_response_def by (intro plain_intros; simp add: loop_view_def)

lemma plain_disassembly_response [plain_intros]: "plain (disassembly_response a0 a1 a2)"
  unfolding disassembly_response_def by (intro plain_intros; simp add: loop_view_def)

lemma plain_make_bp_response [plain_intros]: "plain (make_bp_response E info src)"
  unfolding make_bp_response_def by (cases "bi_kind info"; simp add: plain_intros)

lemma plain_set_callback [plain_intros]: "plain (set_callback a0 a1 a2)"
  unfolding set_callback_def by (intro plain_intros; simp add: loop_view_def)

lemma plain_clear_callback [plain_intros]: "plain (clear_callback a0 a1)"
  unfolding clear_callback_def by (intro plain_intros; simp add: loop_view_def)

lemma plain_clear_all_callbacks [plain_intros]: "plain (clear_all_callbacks)"
  unfolding clear_all_callbacks_def by (intro plain_intros; simp add: loop_view_def)

lemma plain_condition_error [plain_intros]: "plain (condition_error a0)"
  unfolding condition_error_def by (intro plain_intros; simp add: loop_view_def)

lemma plain_compile_condition [plain_intros]: "plain (compile_condition a0 a1 a2)"
  unfolding compile_condition_def by (intro plain_intros; simp add: loop_view_def)

lemma plain_init_bp_actions [plain_intros]: "plain (init_bp_actions a0 a1)"
  unfolding init_bp_actions_def by (intro plain_intros; simp add: loop_view_def)

lemma plain_enter_info [plain_intros]: "plain (enter_info a0)"
  unfolding enter_info_def by (intro plain_intros; simp add: loop_view_def)

lemma plain_forget_info [plain_intros]: "plain (forget_info a0)"
  unfolding forget_info_def by (intro plain_intros; simp add: loop_view_def)

lemma plain_find_or_create [plain_intros]: "plain m \<Longrightarrow> plain (find_or_create E table key m)"
  unfolding find_or_create_def by (intro plain_intros)

lemma plain_place_loop [plain_intros]: "(\<And>r. plain (put r)) \<Longrightarrow> plain (place_loop put reqs table res)"
  by (induction reqs arbitrary: table res) (auto intro!: plain_intros)

lemma plain_delete_stale [plain_intros]: "plain (delete_stale a0 a1 a2 a3)"
  unfolding delete_stale_def by (intro plain_intros; simp add: loop_view_def)

lemma plain_get_breakpoint_hint [plain_intros]: "plain (get_breakpoint_hint a0 a1 a2 a3)"
  unfolding get_breakpoint_hint_def by (intro plain_intros; simp add: loop_view_def)

lemma plain_create_source_bp [plain_intros]: "plain (create_source_bp a0 a1 a2)"
  unfolding create_source_bp_def by (intro plain_intros; simp add: loop_view_def)

lemma plain_place_source [plain_intros]: "plain (place_source a0 a1 a2 a3)"
  unfolding place_source_def by (intro plain_intros; simp add: loop_view_def)

lemma plain_set_source_table [plain_intros]: "plain (set_source_table a0 a1)"
  unfolding set_source_table_def by (intro plain_intros; simp add: loop_view_def)

lemma plain_set_source_breakpoints [plain_intros]: "plain (set_source_breakpoints a0 a1 a2)"
  unfolding set_source_breakpoints_def by (intro plain_intros; simp add: loop_view_def)

lemma plain_place_plain [plain_intros]: "plain m \<Longrightarrow> plain (place_plain E table key m kind c l h)"
  unfolding place_plain_def by (intro plain_intros)

lemma plain_place_dasm [plain_intros]: "plain (place_dasm a0 a1 a2 a3)"
  unfolding place_dasm_def by (intro plain_intros; simp add: loop_view_def)

lemma plain_set_assembly_table [plain_intros]: "plain (set_assembly_table a0 a1)"
  unfolding set_assembly_table_def by (intro plain_intros; simp add: loop_view_def)

lemma plain_set_dasm_breakpoints [plain_intros]: "plain (set_dasm_breakpoints a0 a1 a2)"
  unfolding set_dasm_breakpoints_def by (intro plain_intros; simp add: loop_view_def)

lemma plain_set_new_dasm_breakpoints [plain_intros]: "plain (set_new_dasm_breakpoints a0 a1 a2)"
  unfolding set_new_dasm_breakpoints_def by (intro plain_intros; simp add: loop_view_def)

lemma plain_handle_set_breakpoints [plain_intros]: "plain (handle_set_breakpoints a0 a1)"
  unfolding handle_set_breakpoints_def by (intro plain_intros; simp add: loop_view_def)

lemma plain_place_instruction [plain_intros]: "plain (place_instruction a0 a1 a2)"
  unfolding place_instruction_def by (intro plain_intros; simp add: loop_view_def)

lemma plain_handle_set_instruction_breakpoints [plain_intros]: "plain (handle_set_instruction_breakpoints a0 a1)"
  unfolding handle_set_instruction_breakpoints_def by (intro plain_intros; simp add: loop_view_def)

lemma plain_place_function [plain_intros]: "plain (place_function a0 a1 a2)"
  unfolding place_function_def by (intro plain_intros; simp add: loop_view_def)

lemma plain_handle_set_function_breakpoints [plain_intros]: "plain (handle_set_function_breakpoints a0 a1)"
  unfolding handle_set_function_breakpoints_def by (intro plain_intros; simp add: loop_view_def)

lemma plain_named_bp [plain_intros]: "plain (named_bp a0 a1 a2)"
  unfolding named_bp_def by (intro plain_intros; simp add: loop_view_def)

lemma plain_set_exception_breakpoint [plain_intros]: "plain (set_exception_breakpoint a0 a1)"
  unfolding set_exception_breakpoint_def by (intro plain_intros; simp add: loop_view_def)

lemma plain_drop_exception_breakpoints [plain_intros]: "plain (drop_exception_breakpoints a0)"
  unfolding drop_exception_breakpoints_def by (intro plain_intros; simp add: loop_view_def)

lemma plain_place_exception [plain_intros]: "plain (place_exception a0 a1)"
  unfolding place_exception_def by (intro plain_intros; simp add: loop_view_def)

lemma plain_handle_set_exception_breakpoints [plain_intros]: "plain (handle_set_exception_breakpoints a0 a1)"
  unfolding handle_set_exception_breakpoints_def by (intro plain_intros; simp add: loop_view_def)

lemma plain_replace_loop [plain_intros]: "(\<And>e. plain (f e)) \<Longrightarrow> plain (replace_loop f message seg n res)"
  by (induction message arbitrary: seg n res) (auto intro!: plain_intros)

lemma plain_logpoint_value [plain_intros]: "plain (logpoint_value a0 a1 a2)"
  unfolding logpoint_value_def by (intro plain_intros; simp add: loop_view_def)

lemma plain_format_logpoint_message [plain_intros]: "plain (format_logpoint_message E m frame)"
  unfolding format_logpoint_message_def replace_logpoint_expressions_def by (intro plain_intros)

lemma plain_check_condition [plain_intros]: "plain (check_condition a0 a1 a2)"
  unfolding check_condition_def by (intro plain_intros; simp add: loop_view_def)

lemma plain_set_hit_count [plain_intros]: "plain (set_hit_count a0 a1)"
  unfolding set_hit_count_def by (intro plain_intros; simp add: loop_view_def)

lemma plain_on_breakpoint_hit [plain_intros]: "plain (on_breakpoint_hit a0 a1 a2 a3)"
  unfolding on_breakpoint_hit_def by (intro plain_intros; simp add: loop_view_def)

lemma plain_handle_breakpoint_event [plain_intros]: "plain (handle_breakpoint_event a0 a1 a2)"
  unfolding handle_breakpoint_event_def by (intro plain_intros; simp add: loop_view_def)

lemma plain_update_infos [plain_intros]: "plain (update_infos a0)"
  unfolding update_infos_def by (intro plain_intros; simp add: loop_view_def)

lemma plain_exclusion_site [plain_intros]: "plain (exclusion_site E bid info)"
  unfolding exclusion_site_def by (cases "bi_kind info"; simp add: plain_intros)

lemma plain_handle_exclude_caller [plain_intros]: "plain (handle_exclude_caller a0 a1)"
  unfolding handle_exclude_caller_def by (intro plain_intros; simp add: loop_view_def)

lemma plain_handle_set_excluded_callers [plain_intros]: "plain (handle_set_excluded_callers a0)"
  unfolding handle_set_excluded_callers_def by (intro plain_intros; simp add: loop_view_def)

section \<open>Memory and data breakpoints\<close>

lemma plain_parse_u64 [plain_intros]: "plain (parse_u64 a0)"
  unfolding parse_u64_def by (intro plain_intros; simp add: loop_view_def)

lemma plain_parsed_int [plain_intros]: "plain (parsed_int r)"
  unfolding parsed_int_def by (intro plain_intros; simp)

lemma plain_watch_value [plain_intros]: "plain (watch_value a0 a1 a2 a3 a4)"
  unfolding watch_value_def by (intro plain_intros; simp add: loop_view_def)

lemma plain_watch_variable [plain_intros]: "plain (watch_variable a0 a1 a2)"
  unfolding watch_variable_def by (intro plain_intros; simp add: loop_view_def)

lemma plain_watch_address_text [plain_intros]: "plain (watch_address_text a0 a1)"
  unfolding watch_address_text_def by (intro plain_intros; simp add: loop_view_def)

lemma plain_watch_expression [plain_intros]: "plain (watch_expression a0 a1 a2)"
  unfolding watch_expression_def by (intro plain_intros; simp add: loop_view_def)

lemma plain_handle_data_breakpoint_info [plain_intros]: "plain (handle_data_breakpoint_info a0 a1)"
  unfolding handle_data_breakpoint_info_def by (intro plain_intros; simp add: loop_view_def)

lemma plain_set_watchpoint [plain_intros]: "plain (set_watchpoint a0 a1)"
  unfolding set_watchpoint_def by (intro plain_intros; simp add: loop_view_def)

lemma plain_handle_set_data_breakpoints [plain_intros]: "plain (handle_set_data_breakpoints a0 a1)"
  unfolding handle_set_data_breakpoints_def by (intro plain_intros; simp add: loop_view_def)

lemma plain_zeroed_buffer [plain_intros]: "plain (zeroed_buffer a0)"
  unfolding zeroed_buffer_def by (intro plain_intros; simp add: loop_view_def)

lemma plain_handle_read_memory [plain_intros]: "plain (handle_read_memory a0 a1)"
  unfolding handle_read_memory_def by (intro plain_intros; simp add: loop_view_def)

lemma plain_handle_write_memory [plain_intros]: "plain (handle_write_memory a0 a1)"
  unfolding handle_write_memory_def by (intro plain_intros; simp add: loop_view_def)

section \<open>Disassembly\<close>

lemma plain_line_location [plain_intros]: "plain (line_location a0 a1)"
  unfolding line_location_def by (intro plain_intros; simp add: loop_view_def)

lemma plain_decoded_instruction [plain_intros]: "plain (decoded_instruction a0 a1 a2 a3 a4 a5 a6)"
  unfolding decoded_instruction_def by (intro plain_intros; simp add: loop_view_def)

lemma plain_emit_loop [plain_intros]: "plain (emit_loop E rs a b le ds)"
proof (induction ds arbitrary: le)
  case (Cons d ds)
  then show ?case by (cases d; cases "snd d") (auto intro!: plain_intros)
qed (simp add: plain_intros)

lemma plain_emit_window [plain_intros]: "plain (emit_window a0 a1 a2 a3 a4 a5)"
  unfolding emit_window_def by (intro plain_intros; simp add: loop_view_def)

lemma plain_handle_disassemble [plain_intros]: "plain (handle_disassemble a0 a1)"
  unfolding handle_disassemble_def by (intro plain_intros; simp add: loop_view_def)

section \<open>Stepping into a target\<close>

lemma plain_push_target [plain_intros]: "plain (push_target a0 a1 a2)"
  unfolding push_target_def by (intro plain_intros; simp add: loop_view_def)

lemma plain_handle_step_in_targets [plain_intros]: "plain (handle_step_in_targets a0 a1)"
  unfolding handle_step_in_targets_def by (intro plain_intros; simp add: loop_view_def)

lemma plain_step_once [plain_intros]: "plain (step_once E thread target start_frame)"
  unfolding step_once_def by (intro plain_intros; simp split: nat.split add: plain_intros)

lemma step_loop_view:
  assumes "step_loop E thread target start_frame s = Some y"
  shows "\<forall>r s'. y = Done (r, s') \<longrightarrow> loop_view s' = loop_view s \<and> \<not> is_async r"
proof (rule step_loop.raw_induct [where P = "\<lambda>_ _ _ _ s y. \<forall>r s'. y = Done (r, s') \<longrightarrow>
    loop_view s' = loop_view s \<and> \<not> is_async r", OF _ assms], intro allI impI)
  fix f E thread target start_frame s y r s'
  assume rec: "\<And>E thread target start_frame s y. f E thread target start_frame s = Some y \<Longrightarrow>
      \<forall>r s'. y = Done (r, s') \<longrightarrow> loop_view s' = loop_view s \<and> \<not> is_async r"
    and body: "(case step_once E thread target start_frame s of
        Panic \<Rightarrow> Some Panic
      | Done (Inl e, s') \<Rightarrow> Some (Done (Inl e, s'))
      | Done (Inr reached, s') \<Rightarrow>
          if reached then Some (Done (Inr (), s')) else f E thread target start_frame s') = Some y"
    and y: "y = Done (r, s')"
  then obtain x s1 where once: "step_once E thread target start_frame s = Done (x, s1)"
    by (cases "step_once E thread target start_frame s") auto
  note view = plainD [OF plain_step_once once]
  show "loop_view s' = loop_view s \<and> \<not> is_async r"
  proof (cases "x = Inr False")
    case True
    then show ?thesis using rec [of E thread target start_frame s1 y] body once view y by simp
  next
    case False
    then show ?thesis using body once view y by (cases x) auto
  qed
qed

lemma plain_step_loop [plain_intros]:
  "plain (\<lambda>s. case step_loop E thread target start_frame s of None \<Rightarrow> Panic | Some r \<Rightarrow> r)"
  by (rule plainI) (auto dest: step_loop_view split: option.splits)

lemma plain_step_into_target [plain_intros]: "plain (step_into_target E thread target)"
  unfolding step_into_target_def by (intro plain_intros; simp)

lemma plain_handle_step_in [plain_intros]: "plain (handle_step_in a0 a1)"
  unfolding handle_step_in_def by (intro plain_intros; simp add: loop_view_def)

section \<open>Launching, attaching and ending\<close>

lemma plain_set_debuggee_terminal [plain_intros]: "plain (set_debuggee_terminal t)"
  unfolding set_debuggee_terminal_def
  by (intro plain_intros) (simp add: loop_view_def drop_terminal_def split: option.split)

lemma plain_terminal_start [plain_intros]: "plain (terminal_start a0 a1 a2)"
  unfolding terminal_start_def by (intro plain_intros; simp add: loop_view_def hand_over_waiting_def)

lemma plain_create_debugger_terminal [plain_intros]: "plain (create_debugger_terminal a0)"
  unfolding create_debugger_terminal_def by (intro plain_intros; simp add: loop_view_def)

lemma plain_debugger_terminal_failed [plain_intros]: "plain (debugger_terminal_failed a0)"
  unfolding debugger_terminal_failed_def by (intro plain_intros; simp add: loop_view_def)

lemma plain_debugger_terminal_ready [plain_intros]: "plain (debugger_terminal_ready a0 a1)"
  unfolding debugger_terminal_ready_def by (intro plain_intros; simp add: loop_view_def)

lemma plain_create_target_from_program [plain_intros]: "plain (create_target_from_program a0 a1)"
  unfolding create_target_from_program_def by (intro plain_intros; simp add: loop_view_def)

lemma plain_set_target [plain_intros]: "plain (set_target a0 a1)"
  unfolding set_target_def by (intro plain_intros; simp add: loop_view_def)

lemma plain_selected_or_empty_target [plain_intros]: "plain (selected_or_empty_target a0)"
  unfolding selected_or_empty_target_def by (intro plain_intros; simp add: loop_view_def)

lemma plain_follow_selected_target [plain_intros]: "plain (follow_selected_target a0)"
  unfolding follow_selected_target_def by (intro plain_intros; simp add: loop_view_def)

lemma plain_check_process_create_commands [plain_intros]: "plain (check_process_create_commands a0)"
  unfolding check_process_create_commands_def by (intro plain_intros; simp add: loop_view_def)

lemma plain_terminate_debuggee [plain_intros]: "plain (terminate_debuggee a0 a1)"
  unfolding terminate_debuggee_def by (intro plain_intros; simp add: loop_view_def)

lemma plain_init_source_map [plain_intros]: "plain (init_source_map a0 a1)"
  unfolding init_source_map_def by (intro plain_intros; simp add: loop_view_def)

lemma plain_when_some [plain_intros]: "(\<And>y. plain (f y)) \<Longrightarrow> plain (when_some x f)"
  unfolding when_some_def by (intro plain_intros)

lemma plain_init_expression_type [plain_intros]: "plain (init_expression_type a0)"
  unfolding init_expression_type_def by (intro plain_intros; simp add: loop_view_def)

lemma plain_init_relative_path_base [plain_intros]: "plain (init_relative_path_base a0 a1)"
  unfolding init_relative_path_base_def by (intro plain_intros; simp add: loop_view_def)

lemma plain_init_console [plain_intros]: "plain (init_console a0 a1)"
  unfolding init_console_def by (intro plain_intros; simp add: loop_view_def)

lemma plain_common_init_session [plain_intros]: "plain (common_init_session a0 a1)"
  unfolding common_init_session_def by (intro plain_intros; simp add: loop_view_def)

lemma plain_common_post_run [plain_intros]: "plain (common_post_run a0 a1)"
  unfolding common_post_run_def by (intro plain_intros; simp add: loop_view_def)

lemma plain_report_launch_cfg_error [plain_intros]: "plain (report_launch_cfg_error a0)"
  unfolding report_launch_cfg_error_def by (intro plain_intros; simp add: loop_view_def)

lemma plain_disable_symbols [plain_intros]: "plain (disable_symbols a0)"
  unfolding disable_symbols_def by (intro plain_intros; simp add: loop_view_def)

lemma plain_create_terminal [plain_intros]: "plain (create_terminal E args)"
  unfolding create_terminal_def by (cases "requested_terminal args"; simp add: plain_intros)

lemma plain_terminal_failed [plain_intros]: "plain (terminal_failed a0)"
  unfolding terminal_failed_def by (intro plain_intros; simp add: loop_view_def)

lemma plain_env_from_file [plain_intros]: "plain (env_from_file a0 a1 a2 a3)"
  unfolding env_from_file_def by (intro plain_intros; simp add: loop_view_def)

lemma plain_launch_env [plain_intros]: "plain (launch_env a0 a1)"
  unfolding launch_env_def by (intro plain_intros; simp add: loop_view_def)

lemma plain_check_aslr [plain_intros]: "plain (check_aslr a0 a1)"
  unfolding check_aslr_def by (intro plain_intros; simp add: loop_view_def)

lemma plain_run_process_create_commands [plain_intros]: "plain (run_process_create_commands a0 a1)"
  unfolding run_process_create_commands_def by (intro plain_intros; simp add: loop_view_def)

lemma plain_launch_process [plain_intros]: "plain (launch_process a0 a1 a2)"
  unfolding launch_process_def by (intro plain_intros; simp add: loop_view_def)

lemma plain_launch_failed [plain_intros]: "plain (launch_failed E info err)"
  unfolding launch_failed_def by (intro plain_intros; simp)

lemma plain_complete_launch [plain_intros]: "plain (complete_launch a0 a1)"
  unfolding complete_launch_def by (intro plain_intros; simp add: loop_view_def)

lemma plain_attach_target [plain_intros]: "plain (attach_target a0 a1)"
  unfolding attach_target_def by (intro plain_intros; simp add: loop_view_def)

lemma plain_attach_info [plain_intros]: "plain (attach_info a0 a1)"
  unfolding attach_info_def by (intro plain_intros; simp add: loop_view_def)

lemma plain_attach_process [plain_intros]: "plain (attach_process a0 a1)"
  unfolding attach_process_def by (intro plain_intros; simp add: loop_view_def)

lemma plain_complete_attach [plain_intros]: "plain (complete_attach a0 a1)"
  unfolding complete_attach_def by (intro plain_intros; simp add: loop_view_def)

lemma plain_run_pre_terminate [plain_intros]: "plain (run_pre_terminate a0)"
  unfolding run_pre_terminate_def by (intro plain_intros; simp add: loop_view_def)

lemma plain_handle_restart [plain_intros]: "plain (handle_restart a0 a1)"
  unfolding handle_restart_def by (intro plain_intros; simp add: loop_view_def)

lemma plain_wait_for_resume [plain_intros]: "plain (wait_for_resume E n)"
  by (induction n) (auto intro!: plain_intros)

lemma plain_send_signal [plain_intros]: "plain (send_signal a0 a1)"
  unfolding send_signal_def by (intro plain_intros; simp add: loop_view_def)

lemma plain_handle_terminate [plain_intros]: "plain (handle_terminate a0)"
  unfolding handle_terminate_def by (intro plain_intros; simp add: loop_view_def)

lemma plain_handle_disconnect [plain_intros]: "plain (handle_disconnect a0 a1)"
  unfolding handle_disconnect_def by (intro plain_intros; simp add: loop_view_def)

end
