(* ===== verification/Answers.thy ===== *)
theory Answers
  imports Plain_Handlers
begin

text \<open>
  Every request is answered: an abstract account of what the event loop answers, spawns and still
  owes, the proof that the loop of \<open>Dispatch\<close> refines it, and what follows for every run of the loop.
\<close>

section \<open>Commands\<close>

text \<open>The tags of requests and of response bodies on the wire (\<^verbatim>\<open>serde(tag = "command")\<close>).\<close>

fun request_command :: "request_arguments \<Rightarrow> string option" where
  "request_command (Req_initialize _) = Some ''initialize''"
| "request_command (Req_cancel _) = Some ''cancel''"
| "request_command (Req_launch _) = Some ''launch''"
| "request_command (Req_attach _) = Some ''attach''"
| "request_command (Req_restart _) = Some ''restart''"
| "request_command (Req_setBreakpoints _) = Some ''setBreakpoints''"
| "request_command (Req_setInstructionBreakpoints _) = Some ''setInstructionBreakpoints''"
| "request_command (Req_setFunctionBreakpoints _) = Some ''setFunctionBreakpoints''"
| "request_command (Req_setExceptionBreakpoints _) = Some ''setExceptionBreakpoints''"
| "request_command (Req_exceptionInfo _) = Some ''exceptionInfo''"
| "request_command Req_configurationDone = Some ''configurationDone''"
| "request_command (Req_pause _) = Some ''pause''"
| "request_command (Req_continue _) = Some ''continue''"
| "request_command (Req_next _) = Some ''next''"
| "request_command (Req_stepInTargets _) = Some ''stepInTargets''"
| "request_command (Req_stepIn _) = Some ''stepIn''"
| "request_command (Req_stepOut _) = Some ''stepOut''"
| "request_command (Req_stepBack _) = Some ''stepBack''"
| "request_command (Req_reverseContinue _) = Some ''reverseContinue''"
| "request_command Req_threads = Some ''threads''"
| "request_command (Req_stackTrace _) = Some ''stackTrace''"
| "request_command (Req_scopes _) = Some ''scopes''"
| "request_command (Req_source _) = Some ''source''"
| "request_command (Req_modules _) = Some ''modules''"
| "request_command (Req_variables _) = Some ''variables''"
| "request_command (Req_completions _) = Some ''completions''"
| "request_command (Req_gotoTargets _) = Some ''gotoTargets''"
| "request_command (Req_goto _) = Some ''goto''"
| "request_command (Req_restartFrame _) = Some ''restartFrame''"
| "request_command (Req_evaluate _) = Some ''evaluate''"
| "request_command (Req_setVariable _) = Some ''setVariable''"
| "request_command (Req_dataBreakpointInfo _) = Some ''dataBreakpointInfo''"
| "request_command (Req_setDataBreakpoints _) = Some ''setDataBreakpoints''"
| "request_command (Req_disassemble _) = Some ''disassemble''"
| "request_command (Req_readMemory _) = Some ''readMemory''"
| "request_command (Req_writeMemory _) = Some ''writeMemory''"
| "request_command (Req_terminate _) = Some ''terminate''"
| "request_command (Req_disconnect _) = Some ''disconnect''"
| "request_command (Req_runInTerminal _) = Some ''runInTerminal''"
| "request_command (Req_startDebugging _) = Some ''startDebugging''"
| "request_command (Req_adapterSettings _) = Some ''_adapterSettings''"
| "request_command (Req_symbols _) = Some ''_symbols''"
| "request_command (Req_excludeCaller _) = Some ''_excludeCaller''"
| "request_command (Req_setExcludedCallers _) = Some ''_setExcludedCallers''"
| "request_command (Req_pythonMessage _) = Some ''_pythonMessage''"
| "request_command Req_unknown = None"

fun response_command :: "response_body \<Rightarrow> string" where
  "response_command (Resp_initialize _) = ''initialize''"
| "response_command Resp_cancel = ''cancel''"
| "response_command Resp_launch = ''launch''"
| "response_command Resp_attach = ''attach''"
| "response_command Resp_restart = ''restart''"
| "response_command (Resp_setBreakpoints _) = ''setBreakpoints''"
| "response_command (Resp_setInstructionBreakpoints _) = ''setInstructionBreakpoints''"
| "response_command (Resp_setFunctionBreakpoints _) = ''setFunctionBreakpoints''"
| "response_command (Resp_setExceptionBreakpoints _) = ''setExceptionBreakpoints''"
| "response_command (Resp_exceptionInfo _) = ''exceptionInfo''"
| "response_command Resp_configurationDone = ''configurationDone''"
| "response_command Resp_pause = ''pause''"
| "response_command (Resp_continue _) = ''continue''"
| "response_command Resp_next = ''next''"
| "response_command (Resp_stepInTargets _) = ''stepInTargets''"
| "response_command Resp_stepIn = ''stepIn''"
| "response_command Resp_stepOut = ''stepOut''"
| "response_command Resp_stepBack = ''stepBack''"
| "response_command Resp_reverseContinue = ''reverseContinue''"
| "response_command (Resp_threads _) = ''threads''"
| "response_command (Resp_stackTrace _) = ''stackTrace''"
| "response_command (Resp_scopes _) = ''scopes''"
| "response_command (Resp_source _) = ''source''"
| "response_command (Resp_modules _) = ''modules''"
| "response_command (Resp_variables _) = ''variables''"
| "response_command (Resp_completions _) = ''completions''"
| "response_command (Resp_gotoTargets _) = ''gotoTargets''"
| "response_command Resp_goto = ''goto''"
| "response_command Resp_restartFrame = ''restartFrame''"
| "response_command (Resp_evaluate _) = ''evaluate''"
| "response_command (Resp_setVariable _) = ''setVariable''"
| "response_command (Resp_dataBreakpointInfo _) = ''dataBreakpointInfo''"
| "response_command (Resp_setDataBreakpoints _) = ''setDataBreakpoints''"
| "response_command (Resp_disassemble _) = ''disassemble''"
| "response_command (Resp_readMemory _) = ''readMemory''"
| "response_command (Resp_writeMemory _) = ''writeMemory''"
| "response_command Resp_terminate = ''terminate''"
| "response_command Resp_disconnect = ''disconnect''"
| "response_command (Resp_runInTerminal _) = ''runInTerminal''"
| "response_command Resp_startDebugging = ''startDebugging''"
| "response_command Resp_adapterSettings = ''_adapterSettings''"
| "response_command (Resp_symbols _) = ''_symbols''"
| "response_command (Resp_excludeCaller _) = ''_excludeCaller''"
| "response_command Resp_setExcludedCallers = ''_setExcludedCallers''"
| "response_command Resp_pythonMessage = ''_pythonMessage''"

section \<open>The abstract loop\<close>

text \<open>
  The responses handed to the outgoing queue so far, the configuration-done channel (how many messages were sent, how many
  receivers there are), and the tasks that still owe a response.
\<close>

record answering =
  sent_responses :: "outgoing list"
  done_sent :: nat
  done_receivers :: nat
  owing :: "(u32 \<times> task) list"

definition answering_of :: "'l event_loop \<Rightarrow> answering" where
  "answering_of el = \<lparr>sent_responses = filter is_response (handed_over (shared_session el)),
     done_sent = config_done_sent (shared_session el), done_receivers = config_done_receivers (shared_session el),
     owing = response_tasks el\<rparr>"

text \<open>The tasks that hold a receiver of the channel: launches and attaches that are not over.\<close>

fun subscribed :: "task \<Rightarrow> bool" where
  "subscribed (LaunchTask _ _) = True"
| "subscribed (CreateTerminal _ _ _) = True"
| "subscribed (AwaitTerminal _ _) = True"
| "subscribed (CompleteLaunch _) = True"
| "subscribed (AttachTask _ _) = True"
| "subscribed _ = False"

definition result_fits :: "string option \<Rightarrow> task error + response_body \<Rightarrow> bool" where
  "result_fits c r \<longleftrightarrow> (\<forall>b. r = Inr b \<longrightarrow> Some (response_command b) = c)"

inductive stage :: "answering \<Rightarrow> task \<Rightarrow> task \<Rightarrow> bool" for a where
  stage_blocked: "stage a t t"
| stage_terminal: "n < done_sent a \<Longrightarrow> stage a (LaunchTask n args) (CreateTerminal kind title args)"
| stage_no_terminal: "n < done_sent a \<Longrightarrow> stage a (LaunchTask n args) (CompleteLaunch args)"
| stage_listening: "stage a (CreateTerminal kind title args) (AwaitTerminal addr args)"
| stage_not_created: "stage a (CreateTerminal kind title args) (CompleteLaunch args)"
| stage_connected: "stage a (AwaitTerminal addr args) (CompleteLaunch args)"
| stage_launched: "result_fits (Some ''launch'') r \<Longrightarrow> stage a (CompleteLaunch args) (Ready r)"
| stage_attached: "n < done_sent a \<Longrightarrow> result_fits (Some ''attach'') r \<Longrightarrow> stage a (AttachTask n args') (Ready r)"
| stage_configured: "done_receivers a = 0 \<Longrightarrow> stage a AwaitConfigurationDone (Ready (Inr Resp_configurationDone))"

definition receivers_after :: "task \<Rightarrow> task \<Rightarrow> nat \<Rightarrow> nat" where
  "receivers_after t t' n = (if subscribed t \<and> \<not> subscribed t' then n - 1 else n)"

fun request_number :: "loop_input \<Rightarrow> u32 option" where
  "request_number (Request n _ _ _ _) = Some n"
| "request_number _ = None"

inductive answer_step :: "answering \<Rightarrow> loop_input \<Rightarrow> answering \<Rightarrow> bool" for a where
  answer_internal: "request_number i = None \<Longrightarrow> answer_step a i a"
| answer_now: "result_fits (request_command args) r \<Longrightarrow>
    answer_step a (Request n args c bs ts) (a\<lparr>sent_responses := sent_responses a @ [OutResponse (make_response n r)]\<rparr>)"
| answer_ready: "result_fits (request_command args) r \<Longrightarrow>
    answer_step a (Request n args c bs ts) (a\<lparr>owing := owing a @ [(n, Ready r)]\<rparr>)"
| answer_launch: "answer_step a (Request n (Req_launch (First args)) c bs ts)
    (a\<lparr>done_receivers := Suc (done_receivers a), owing := owing a @ [(n, LaunchTask (done_sent a) args)]\<rparr>)"
| answer_attach: "answer_step a (Request n (Req_attach (First args')) c bs ts)
    (a\<lparr>done_receivers := Suc (done_receivers a), owing := owing a @ [(n, AttachTask (done_sent a) args')]\<rparr>)"
| answer_configured: "answer_step a (Request n Req_configurationDone c bs ts)
    (a\<lparr>done_sent := (if done_receivers a = 0 then done_sent a else Suc (done_sent a)),
       owing := owing a @ [(n, AwaitConfigurationDone)]\<rparr>)"
| answer_stage: "k < length (owing a) \<Longrightarrow> owing a ! k = (n, t) \<Longrightarrow> stage a t t' \<Longrightarrow>
    answer_step a (TaskReady k) (a\<lparr>done_receivers := receivers_after t t' (done_receivers a), owing := (owing a)[k := (n, t')]\<rparr>)"
| answer_send: "k < length (owing a) \<Longrightarrow> owing a ! k = (n, Ready r) \<Longrightarrow>
    answer_step a (TaskReady k) (a\<lparr>sent_responses := sent_responses a @ [OutResponse (make_response n r)],
       owing := remove_nth k (owing a)\<rparr>)"

inductive_cases answer_stepE: "answer_step a i a'"
inductive_cases stageE: "stage a t t'"

section \<open>Handlers that spawn\<close>

text \<open>An action that fails plainly or ends in a subscription, with the task that \<open>T\<close> makes of it.\<close>

definition subscription :: "(nat \<Rightarrow> task) \<Rightarrow> 'l session \<Rightarrow> task error + 'a \<Rightarrow> 'l session \<Rightarrow> bool" where
  "subscription T s r s' \<longleftrightarrow>
     (\<exists>e. r = Inl e \<and> \<not> async_error e \<and> loop_view s' = loop_view s) \<or>
     r = Inl (AsyncResponse (T (config_done_sent s))) \<and>
       loop_view s' = (filter is_response (handed_over s), config_done_sent s, Suc (config_done_receivers s))"

definition subscribes :: "(nat \<Rightarrow> task) \<Rightarrow> ('l, 'a) sact \<Rightarrow> bool" where
  "subscribes T m \<longleftrightarrow> (\<forall>s r s'. m s = Done (r, s') \<longrightarrow> subscription T s r s')"

lemma subscription_view: "loop_view s1 = loop_view s \<Longrightarrow> subscription T s1 r s' = subscription T s r s'"
  by (simp add: subscription_def loop_view_def)

lemma subscribes_andThen:
  assumes m: "plain m" and f: "\<And>x. subscribes T (f x)"
  shows "subscribes T (andThen m f)"
  unfolding subscribes_def
proof (intro allI impI)
  fix s r s'
  assume "andThen m f s = Done (r, s')"
  then consider e where "m s = Done (Inl e, s')" "r = Inl e"
    | x s1 where "m s = Done (Inr x, s1)" "f x s1 = Done (r, s')"
    by (auto simp: andThen_Done)
  then show "subscription T s r s'"
  proof cases
    case 1
    then show ?thesis using plainD [OF m 1(1)] by (simp add: subscription_def)
  next
    case (2 x s1)
    have "subscription T s1 r s'" using f [of x] 2(2) by (simp add: subscribes_def)
    then show ?thesis using plainD [OF m 2(1)] subscription_view [of s1 s T r s'] by simp
  qed
qed

lemma subscribes_fail: "\<not> async_error e \<Longrightarrow> subscribes T (bail e)"
  by (auto simp: subscribes_def subscription_def act_eval)

lemma subscribes_if: "subscribes T m \<Longrightarrow> subscribes T n \<Longrightarrow> subscribes T (if b then m else n)"
  by simp

lemma subscribes_done: "subscribes T (andThen subscribe_configuration_done (\<lambda>n. bail (AsyncResponse (T n))))"
  by (auto simp: subscribes_def subscription_def subscribe_configuration_done_def act_step act_eval loop_view_def)

lemma launch_subscribes: "subscribes (\<lambda>n. LaunchTask n args) (handle_launch E args)"
  unfolding handle_launch_def
  by (intro subscribes_done subscribes_andThen plain_intros; simp add: loop_view_def)

lemma attach_subscribes: "subscribes (\<lambda>n. AttachTask n args) (handle_attach E args)"
  unfolding handle_attach_def
  by (intro subscribes_done subscribes_andThen subscribes_if subscribes_fail plain_intros; simp)

section \<open>What a handler's result is\<close>

definition yields :: "('a \<Rightarrow> bool) \<Rightarrow> ('l, 'a) sact \<Rightarrow> bool" where
  "yields P m \<longleftrightarrow> (\<forall>s x s'. m s = Done (Inr x, s') \<longrightarrow> P x)"

lemma yields_intros:
  "P x \<Longrightarrow> yields P (ret x)" "(\<And>y. yields P (f y)) \<Longrightarrow> yields P (andThen m f)"
  "(\<And>y. z = y \<Longrightarrow> yields P (g y)) \<Longrightarrow> yields P (let y = z in g y)"
  "(\<And>a b. yields P (h a b)) \<Longrightarrow> yields P (case p of (a, b) \<Rightarrow> h a b)"
  by (auto simp: yields_def act_eval andThen_ok split: prod.split)

lemma complete_yields:
  "yields (\<lambda>b. b = Resp_launch) (complete_launch E largs)" "yields (\<lambda>b. b = Resp_attach) (complete_attach E aargs)"
  unfolding complete_launch_def complete_attach_def by (intro yields_intros refl)+

text \<open>A plain action whose success is of the right kind.\<close>

definition plainly :: "string option \<Rightarrow> ('l, response_body) sact \<Rightarrow> bool" where
  "plainly c m \<longleftrightarrow> plain m \<and> yields (\<lambda>b. Some (response_command b) = c) m"

lemma plainly_responds: "plain m \<Longrightarrow> (\<And>x. Some (response_command (f x)) = c) \<Longrightarrow> plainly c (responds m f)"
  unfolding plainly_def responds_def by (intro conjI plain_andThen yields_intros plain_basic) auto

lemma plainly_fail: "\<not> async_error e \<Longrightarrow> plainly c (bail e)" "plainly c panic"
  by (auto simp: plainly_def yields_def act_eval intro: plain_intros)

lemma plainly_invalid: "plainly c (report_invalid x)"
  by (auto simp: report_invalid_def report_launch_cfg_error_def plainly_fail split: option.split)

lemmas plainly_handlers = plainly_responds plainly_fail plainly_invalid plain_intros

section \<open>Requests refine the abstract loop\<close>

definition request_effect :: "request_arguments \<Rightarrow> 'l session \<Rightarrow> task error + response_body \<Rightarrow> 'l session \<Rightarrow> bool" where
  "request_effect args s r s' \<longleftrightarrow>
     \<not> is_async r \<and> loop_view s' = loop_view s \<and> result_fits (request_command args) r \<or>
     (\<exists>q. r = Inl (AsyncResponse (Ready q)) \<and> loop_view s' = loop_view s \<and> result_fits (request_command args) q) \<or>
     (\<exists>a. args = Req_launch (First a) \<and> subscription (\<lambda>n. LaunchTask n a) s r s') \<or>
     (\<exists>a. args = Req_attach (First a) \<and> subscription (\<lambda>n. AttachTask n a) s r s') \<or>
     args = Req_configurationDone \<and> r = Inl (AsyncResponse AwaitConfigurationDone) \<and>
       loop_view s' = (filter is_response (handed_over s),
         if config_done_receivers s = 0 then config_done_sent s else Suc (config_done_sent s), config_done_receivers s)"

lemma plainly_effect: "plainly (request_command args) m \<Longrightarrow> m s = Done (r, s') \<Longrightarrow> request_effect args s r s'"
  unfolding request_effect_def plainly_def yields_def result_fits_def using plainD [of m s r s'] by blast

lemma evaluate_effect:
  assumes "handle_evaluate E args s = Done (r, s')"
  shows "request_effect (Req_evaluate args) s r s'"
proof -
  have p: "plain (request_frame E (ea_frame_id args))" by (intro plain_intros)
  have q: "plain (evaluate_in_context E (ea_context args) (ea_expression args) frame)" for frame by (intro plain_intros)
  consider e where "request_frame E (ea_frame_id args) s = Done (Inl e, s')" "r = Inl e"
    | frame s1 where "request_frame E (ea_frame_id args) s = Done (Inr frame, s1)" "s' = s1" "r = Inl (StrError ''Hovers are disabled.'')"
    | frame s1 x where "request_frame E (ea_frame_id args) s = Done (Inr frame, s1)"
        "evaluate_in_context E (ea_context args) (ea_expression args) frame s1 = Done (x, s')"
        "r = Inl (AsyncResponse (Ready (map_sum id Resp_evaluate x)))"
    using assms by (auto simp: handle_evaluate_def andThen_Done onResult_Done act_eval split: if_splits)
  then show ?thesis
  proof cases
    case 1
    then show ?thesis using plainD [OF p 1(1)] by (simp add: request_effect_def result_fits_def)
  next
    case 2
    then show ?thesis using plainD [OF p 2(1)] by (simp add: request_effect_def result_fits_def)
  next
    case (3 frame s1 x)
    have "loop_view s' = loop_view s" using plainD [OF p 3(1)] plainD [OF q 3(2)] by simp
    moreover have "result_fits (Some ''evaluate'') (map_sum id Resp_evaluate x)"
      by (cases x) (auto simp: result_fits_def)
    ultimately show ?thesis using 3(3) by (auto simp: request_effect_def)
  qed
qed

lemma debug_request_effect:
  assumes "handle_debug_request E args s = Done (r, s')"
  shows "request_effect args s r s'"
proof (cases "\<exists>e. args = Req_evaluate e")
  case True
  then show ?thesis using assms by (auto intro: evaluate_effect)
next
  case False
  then have "plainly (request_command args) (handle_debug_request E args)"
    by (cases args) (simp_all add: plainly_handlers)
  then show ?thesis using assms by (rule plainly_effect)
qed

lemma gated_request_effect:
  assumes "andThen (reads no_debug) (\<lambda>off.
    if off then bail (StrError ''Not supported in noDebug mode.'') else handle_debug_request E args) s = Done (r, s')"
  shows "request_effect args s r s'"
  using assms debug_request_effect [of E args s r s']
  by (auto simp: act_step act_eval request_effect_def result_fits_def split: if_splits)

lemma configured_effect:
  "responds handle_configuration_done (\<lambda>_. Resp_configurationDone) s = Done (r, s') \<Longrightarrow>
     request_effect Req_configurationDone s r s'"
  by (auto simp: responds_def handle_configuration_done_def act_step act_eval request_effect_def loop_view_def
      split: if_splits)

lemma request_args_effect:
  assumes "handle_request_args E args s = Done (r, s')"
  shows "request_effect args s r s'"
proof (cases args)
  case (Req_launch x)
  then show ?thesis
  proof (cases x)
    case (First a)
    then show ?thesis using assms Req_launch launch_subscribes [of a E]
      by (auto simp: handle_request_args_def subscribes_def request_effect_def)
  next
    case (Second j)
    then show ?thesis using assms Req_launch plainly_effect [OF plainly_invalid] by (auto simp: handle_request_args_def)
  qed
next
  case (Req_attach x)
  then show ?thesis
  proof (cases x)
    case (First a)
    then show ?thesis using assms Req_attach attach_subscribes [of a E]
      by (auto simp: handle_request_args_def subscribes_def request_effect_def)
  next
    case (Second j)
    then show ?thesis using assms Req_attach plainly_effect [OF plainly_invalid] by (auto simp: handle_request_args_def)
  qed
next
  case (Req_restart x)
  then have "plainly (request_command args) (handle_request_args E args)"
    by (cases x) (simp_all add: handle_request_args_def plainly_handlers)
  then show ?thesis using assms by (rule plainly_effect)
next
  case (Req_adapterSettings x)
  then have "plainly (request_command args) (handle_request_args E args)"
    by (simp add: handle_request_args_def plainly_handlers)
  then show ?thesis using assms by (rule plainly_effect)
next
  case (Req_initialize x)
  then have "plainly (request_command args) (handle_request_args E args)"
    by (simp add: handle_request_args_def plainly_handlers)
  then show ?thesis using assms by (rule plainly_effect)
next
  case (Req_terminate x)
  then have "plainly (request_command args) (handle_request_args E args)"
    by (simp add: handle_request_args_def plainly_handlers)
  then show ?thesis using assms by (rule plainly_effect)
next
  case (Req_disconnect x)
  then have "plainly (request_command args) (handle_request_args E args)"
    by (simp add: handle_request_args_def plainly_handlers)
  then show ?thesis using assms by (rule plainly_effect)
next
  case Req_configurationDone
  then show ?thesis using assms configured_effect by (simp add: handle_request_args_def)
qed (rule gated_request_effect [of E], insert assms, hypsubst, simp add: handle_request_args_def)+

definition answering_view :: "outgoing list \<times> nat \<times> nat \<Rightarrow> (u32 \<times> task) list \<Rightarrow> answering" where
  "answering_view v ts = \<lparr>sent_responses = fst v, done_sent = fst (snd v), done_receivers = snd (snd v), owing = ts\<rparr>"

lemma answering_of_view: "answering_of el = answering_view (loop_view (shared_session el)) (response_tasks el)"
  by (simp add: answering_of_def answering_view_def loop_view_def)

lemma send_response_step:
  "send_response n r s = Done (Inr (), hand_over (OutResponse (make_response n r)) s)"
  by (simp add: send_response_def act_eval)

lemma view_send:
  "loop_view s1 = loop_view s \<Longrightarrow> answering_view (loop_view (hand_over (OutResponse x) s1)) ts =
     (answering_view (loop_view s) ts)\<lparr>sent_responses := sent_responses (answering_view (loop_view s) ts) @ [OutResponse x]\<rparr>"
  by (simp add: answering_view_def loop_view_def hand_over_def)

definition spawned_tasks :: "u32 \<Rightarrow> task option \<Rightarrow> (u32 \<times> task) list" where
  "spawned_tasks n t = (case t of None \<Rightarrow> [] | Some t \<Rightarrow> [(n, t)])"

lemma answer_now_view:
  assumes "loop_view s1 = loop_view s" "result_fits (request_command args) r"
  shows "answer_step (answering_view (loop_view s) ts) (Request n args c bs clock)
    (answering_view (loop_view (hand_over (OutResponse (make_response n r)) s1)) ts)"
  unfolding view_send [OF assms(1)] using assms(2) by (rule answer_now)

lemma effect_refines:
  assumes "request_effect args s r s1"
  shows "(\<exists>t. r = Inl (AsyncResponse t) \<and> answer_step (answering_view (loop_view s) ts) (Request n args c bs clock)
            (answering_view (loop_view s1) (ts @ [(n, t)]))) \<or>
         \<not> is_async r \<and> loop_view s1 = loop_view s \<and> result_fits (request_command args) r"
proof -
  let ?a = "answering_view (loop_view s) ts"
  have ready: "result_fits (request_command args) q \<Longrightarrow> answer_step ?a (Request n args c bs clock)
      (answering_view (loop_view s) (ts @ [(n, Ready q)]))" for q
    using answer_ready [of args q ?a n c bs clock] by (simp add: answering_view_def)
  have launch: "answer_step ?a (Request n (Req_launch (First a)) c bs clock) (answering_view
      (filter is_response (handed_over s), config_done_sent s, Suc (config_done_receivers s))
      (ts @ [(n, LaunchTask (config_done_sent s) a)]))" for a
    using answer_launch [of ?a n a c bs clock] by (simp add: answering_view_def loop_view_def)
  have attach: "answer_step ?a (Request n (Req_attach (First a)) c bs clock) (answering_view
      (filter is_response (handed_over s), config_done_sent s, Suc (config_done_receivers s))
      (ts @ [(n, AttachTask (config_done_sent s) a)]))" for a
    using answer_attach [of ?a n a c bs clock] by (simp add: answering_view_def loop_view_def)
  have configured: "answer_step ?a (Request n Req_configurationDone c bs clock) (answering_view
      (filter is_response (handed_over s), if config_done_receivers s = 0 then config_done_sent s else Suc (config_done_sent s),
       config_done_receivers s) (ts @ [(n, AwaitConfigurationDone)]))"
    using answer_configured [of ?a n c bs clock]
    by (cases "config_done_receivers s = 0") (simp_all add: answering_view_def loop_view_def)
  show ?thesis
    using assms unfolding request_effect_def subscription_def
    by (elim disjE exE conjE; (simp add: ready launch attach configured del: request_command.simps)?)
      (auto simp: result_fits_def)
qed

lemma handle_request_refines:
  assumes "handle_request E n args c bs s = Done (x, s')"
  shows "\<exists>t. x = Inr t \<and> answer_step (answering_view (loop_view s) ts) (Request n args c bs clock)
    (answering_view (loop_view s') (ts @ spawned_tasks n t))"
proof (cases "c \<or> args = Req_unknown")
  case True
  then show ?thesis
    using assms answer_now_view [of s s args "Inl (StrError ''canceled'')" ts n c bs clock]
      answer_now_view [of "s\<lparr>cancel_answers := bs\<rparr>" s args "Inl (StrError ''Not implemented.'')" ts n c bs clock]
    by (auto simp: handle_request_def andThen_def send_response_step act_eval spawned_tasks_def result_fits_def
        split: if_splits)
next
  case False
  let ?s = "s\<lparr>cancel_answers := bs\<rparr>"
  obtain r s1 where args: "handle_request_args E args ?s = Done (r, s1)"
    and rest: "(case r of Inl (AsyncResponse t) \<Rightarrow> ret (Some t) | _ \<Rightarrow> andThen (send_response n r) (\<lambda>_. ret None))
      (s1\<lparr>cancel_answers := []\<rparr>) = Done (x, s')"
    using assms False by (auto simp: handle_request_def act_step onResult_Done)
  have "request_effect args ?s r s1" using args by (rule request_args_effect)
  from effect_refines [OF this, of ts n c bs clock] show ?thesis
  proof (elim disjE exE conjE)
    fix t
    assume "r = Inl (AsyncResponse t)" "answer_step (answering_view (loop_view ?s) ts) (Request n args c bs clock)
        (answering_view (loop_view s1) (ts @ [(n, t)]))"
    then show ?thesis using rest by (auto simp: act_eval spawned_tasks_def)
  next
    assume "\<not> is_async r" and v: "loop_view s1 = loop_view ?s" "result_fits (request_command args) r"
    then have "andThen (send_response n r) (\<lambda>_. ret None) (s1\<lparr>cancel_answers := []\<rparr>) = Done (x, s')"
      using rest by (cases r; cases "projl r"; auto)
    then show ?thesis
      using answer_now_view [of "s1\<lparr>cancel_answers := []\<rparr>" s args r ts n c bs clock] v
      by (auto simp: andThen_def send_response_step act_eval spawned_tasks_def)
  qed
qed

section \<open>Tasks and events refine the abstract loop\<close>

lemma terminal_start_plain: "plain (terminal_start E kind title)"
  by (intro plain_intros)

lemma finish_task_step:
  assumes "plain m" "finish_task m s = Done (x, s')"
  shows "\<exists>r s1. m s = Done (r, s1) \<and> x = Inr (Ready r) \<and> loop_view s' =
    (filter is_response (handed_over s), config_done_sent s, config_done_receivers s - 1)"
  using assms plainD [OF assms(1)]
  by (fastforce simp: finish_task_def onResult_Done act_step act_eval loop_view_def)

text \<open>What the next stage of a task does to the abstract loop.\<close>

definition stage_effect :: "'l session \<Rightarrow> task \<Rightarrow> task error + task \<Rightarrow> 'l session \<Rightarrow> bool" where
  "stage_effect s t x s' \<longleftrightarrow> (\<exists>t'. x = Inr t' \<and> stage (answering_view (loop_view s) []) t t' \<and>
     loop_view s' = (filter is_response (handed_over s), config_done_sent s, receivers_after t t' (config_done_receivers s)))"

lemma stage_effectI:
  "x = Inr t' \<Longrightarrow> stage (answering_view (loop_view s) []) t t' \<Longrightarrow> loop_view s' = loop_view s \<Longrightarrow>
     subscribed t = subscribed t' \<Longrightarrow> stage_effect s t x s'"
  by (auto simp: stage_effect_def receivers_after_def loop_view_def)

lemma done_sent_view: "done_sent (answering_view (loop_view s) ts) = config_done_sent s"
  "done_receivers (answering_view (loop_view s) ts) = config_done_receivers s"
  by (simp_all add: answering_view_def loop_view_def)

text \<open>Actions that cannot fail.\<close>

definition succeeds :: "('l, 'a) sact \<Rightarrow> bool" where
  "succeeds m \<longleftrightarrow> (\<forall>s e s'. m s \<noteq> Done (Inl e, s'))"

lemma succeeds_andThen: "succeeds m \<Longrightarrow> (\<And>x. succeeds (f x)) \<Longrightarrow> succeeds (andThen m f)"
  by (auto simp: succeeds_def andThen_Done)

lemma succeeds_basic: "succeeds (ret x)" "succeeds (reads g)" "succeeds (modifies h)" "succeeds (ask q)" "succeeds (lift_exec z)"
  by (auto simp: succeeds_def act_eval ask_def lift_exec_def split: exec.splits)

lemma succeeds_terminal:
  "succeeds (create_terminal E args)" "succeeds (terminal_failed err)" "succeeds (set_debuggee_terminal t)"
  unfolding create_terminal_def terminal_failed_def set_debuggee_terminal_def console_defs send_event_def
  by (cases "requested_terminal args"; simp add: Let_def set_debuggee_terminal_def succeeds_basic succeeds_andThen)
     (simp_all add: succeeds_basic)

lemma plain_succeeds:
  assumes "succeeds m" "plain m" "andThen m f s = Done (x, s')"
  obtains y s1 where "m s = Done (Inr y, s1)" "loop_view s1 = loop_view s" "f y s1 = Done (x, s')"
  using assms plainD [OF assms(2)] by (fastforce simp: succeeds_def andThen_Done)

lemma launch_stage:
  assumes "run_task E (LaunchTask n args) s = Done (x, s')"
  shows "stage_effect s (LaunchTask n args) x s'"
proof (cases "config_done_sent s \<le> n")
  case True
  then show ?thesis using assms by (auto simp: act_step act_eval intro!: stage_effectI stage_blocked)
next
  case False
  then have "andThen (create_terminal E args) (\<lambda>needed. case needed of
      None \<Rightarrow> ret (CompleteLaunch args) | Some (kind, title) \<Rightarrow> ret (CreateTerminal kind title args)) s = Done (x, s')"
    using assms by (simp add: act_step)
  then obtain needed s1 where v: "loop_view s1 = loop_view s" and rest: "(case needed of
      None \<Rightarrow> ret (CompleteLaunch args) | Some (kind, title) \<Rightarrow> ret (CreateTerminal kind title args)) s1 = Done (x, s')"
    by (rule plain_succeeds [OF succeeds_terminal(1) plain_create_terminal])
  show ?thesis
  proof (cases needed)
    case None
    then show ?thesis using False v rest by (auto simp: act_eval done_sent_view intro!: stage_effectI stage_no_terminal)
  next
    case (Some kt)
    then show ?thesis using False v rest
      by (cases kt) (auto simp: act_eval done_sent_view intro!: stage_effectI stage_terminal)
  qed
qed

lemma create_stage:
  assumes "run_task E (CreateTerminal kind title args) s = Done (x, s')"
  shows "stage_effect s (CreateTerminal kind title args) x s'"
proof -
  obtain r s1 where r: "terminal_start E kind title s = Done (r, s1)"
    and rest: "(case r of Inr addr \<Rightarrow> ret (AwaitTerminal addr args)
      | Inl err \<Rightarrow> andThen (terminal_failed (error_text err)) (\<lambda>_. ret (CompleteLaunch args))) s1 = Done (x, s')"
    using assms by (auto simp: onResult_Done)
  have v: "loop_view s1 = loop_view s" using plainD [OF terminal_start_plain r] by simp
  show ?thesis
  proof (cases r)
    case (Inr addr)
    then show ?thesis using rest v by (auto simp: act_eval intro!: stage_effectI stage_listening)
  next
    case (Inl err)
    then have "andThen (terminal_failed (error_text err)) (\<lambda>_. ret (CompleteLaunch args)) s1 = Done (x, s')"
      using rest by simp
    then have "loop_view s' = loop_view s1" "x = Inr (CompleteLaunch args)"
      by (auto elim: plain_succeeds [OF succeeds_terminal(2) plain_terminal_failed] simp: act_eval)
    then show ?thesis using v by (auto intro!: stage_effectI stage_not_created)
  qed
qed

lemma await_stage:
  assumes "run_task E (AwaitTerminal addr args) s = Done (x, s')"
  shows "stage_effect s (AwaitTerminal addr args) x s'"
proof -
  let ?m = "case terminal_finish E addr of Inr terminal \<Rightarrow> set_debuggee_terminal (Some terminal) | Inl err \<Rightarrow> terminal_failed err"
  have "succeeds ?m" "plain ?m" by (auto simp: succeeds_terminal split: sum.split intro!: plain_intros)
  moreover have "andThen ?m (\<lambda>_. ret (CompleteLaunch args)) s = Done (x, s')" using assms by simp
  ultimately have "loop_view s' = loop_view s" "x = Inr (CompleteLaunch args)"
    by (auto elim: plain_succeeds simp: act_eval)
  then show ?thesis by (auto intro!: stage_effectI stage_connected)
qed

lemma finish_stage:
  assumes m: "plain m" "yields (\<lambda>b. b = body) m" "Some (response_command body) = c"
    and ran: "finish_task m s = Done (x, s')" and sub: "subscribed t"
    and st: "\<And>r. result_fits c r \<Longrightarrow> stage (answering_view (loop_view s) []) t (Ready r)"
  shows "stage_effect s t x s'"
proof -
  obtain r s1 where r: "m s = Done (r, s1)" and x: "x = Inr (Ready r)" and v: "loop_view s' =
    (filter is_response (handed_over s), config_done_sent s, config_done_receivers s - 1)"
    using finish_task_step [OF m(1) ran] by blast
  have "result_fits c r" using m(2,3) r by (auto simp: result_fits_def yields_def)
  then show ?thesis using st x v sub by (auto simp: stage_effect_def receivers_after_def)
qed

lemma attach_stage:
  assumes "run_task E (AttachTask n args) s = Done (x, s')"
  shows "stage_effect s (AttachTask n args) x s'"
proof (cases "config_done_sent s \<le> n")
  case True
  then show ?thesis using assms by (auto simp: act_step act_eval intro!: stage_effectI stage_blocked)
next
  case False
  then have "finish_task (complete_attach E args) s = Done (x, s')" using assms by (simp add: act_step)
  then show ?thesis using False
    by (intro finish_stage [OF plain_complete_attach complete_yields(2), where c = "Some ''attach''"] stage_attached)
      (simp_all add: done_sent_view)
qed

lemma run_task_refines:
  assumes "run_task E t s = Done (x, s')" "\<nexists>r. t = Ready r"
  shows "stage_effect s t x s'"
proof (cases t)
  case (CompleteLaunch args)
  then show ?thesis using assms
    by (intro finish_stage [OF plain_complete_launch complete_yields(1), where c = "Some ''launch''"])
      (simp_all add: stage_launched)
next
  case AwaitConfigurationDone
  then show ?thesis using assms(1)
    by (auto simp: act_step act_eval done_sent_view split: if_splits intro!: stage_effectI
        intro: stage_blocked stage_configured)
qed (use assms in \<open>auto simp: act_eval intro!: launch_stage create_stage await_stage attach_stage stage_effectI stage_blocked
    simp del: run_task.simps(1-5)\<close>)

lemma plain_run_spawned: "plain (run_spawned E t)"
  by (cases t) (auto intro!: plain_intros split: sum.split)

lemma view_spawned: "loop_view (s\<lparr>spawned := ts\<rparr>) = loop_view s"
  by (simp add: loop_view_def)

lemma spawned_step_view:
  assumes "spawned_step E i s = Done s'"
  shows "loop_view s' = loop_view s"
  using assms plainD [OF plain_run_spawned [of E "spawned s ! i"]]
  by (fastforce simp: spawned_step_def view_spawned split: exec.splits sum.splits option.splits if_splits)

lemma completes_view: "plain m \<Longrightarrow> completes m s = Some (Done s') \<Longrightarrow> loop_view s' = loop_view s"
  by (auto simp: completes_def dest: plainD split: exec.splits prod.splits)

lemma next_read_view: "loop_view (snd (next_read E st s)) = loop_view s"
  by (simp add: next_read_def split: prod.split)

lemma view_output: "loop_view (hand_over (output_event st buffer) s) = loop_view s"
  by (simp add: loop_view_def output_event_def hand_over_def)

lemma forward_output_view:
  assumes "forward_output E st s = Some s'"
  shows "loop_view s' = loop_view s"
proof -
  obtain b where loop: "while_option (\<lambda>(buffer, s). buffer \<noteq> [])
      (\<lambda>(buffer, s). next_read E st (hand_over (output_event st buffer) s)) (next_read E st s) = Some (b, s')"
    using assms by (auto simp: forward_output_def)
  have "loop_view (snd (b, s')) = loop_view s"
    by (rule while_option_rule [OF _ loop, where P = "\<lambda>p. loop_view (snd p) = loop_view s"])
      (auto simp: next_read_view view_output split: prod.splits)
  then show ?thesis by simp
qed

lemma process_event_view:
  assumes "handle_process_event E etype ev s = Some (Done s')"
  shows "loop_view s' = loop_view s"
proof -
  let ?m = "if intersects etype Process_StateChanged then handle_state_change E ev else ret ()"
  have p: "plain ?m" by (intro plain_intros)
  obtain r s1 where r: "?m s = Done (r, s1)" using assms by (auto simp: handle_process_event_def split: exec.splits)
  have "loop_view s' = loop_view s1"
    using assms r by (auto simp: handle_process_event_def dest: forward_output_view split: if_splits)
  then show ?thesis using plainD [OF p r] by simp
qed

lemma debug_event_view:
  assumes "handle_debug_event E ev s = Some (Done s')"
  shows "loop_view s' = loop_view s"
proof (cases "as_process_event ev")
  case None
  have "plain (case as_target_event ev of
        Some ms \<Rightarrow> handle_target_event E (event_type ev) ms
      | None \<Rightarrow> (case as_breakpoint_event ev of
          Some (bp, etype) \<Rightarrow> handle_breakpoint_event E bp etype
        | None \<Rightarrow>
            if as_thread_event ev then handle_thread_event (event_type ev)
            else if lldb_has_v15 (cmds E) then
              (case as_diagnostic_event ev of
                 Some (diag_type, message) \<Rightarrow> handle_diagnostic_event diag_type message
               | None \<Rightarrow> ret ())
            else ret ()))"
    by (intro plain_intros)
  then show ?thesis using assms None by (auto simp: handle_debug_event_def dest: completes_view)
next
  case (Some pe)
  then show ?thesis using assms by (simp add: handle_debug_event_def process_event_view)
qed

lemma python_event_view:
  "completes (handle_python_event ev) s = Some (Done s') \<Longrightarrow> loop_view s' = loop_view s"
  by (cases ev) (auto simp: completes_def act_step act_eval console_defs loop_view_def hand_over_waiting_def)

lemma stage_same:
  "done_sent a = done_sent a' \<Longrightarrow> done_receivers a = done_receivers a' \<Longrightarrow> stage a t t' \<Longrightarrow> stage a' t t'"
  by (erule stage.cases) (auto intro: stage.intros)

lemma task_step_refines:
  assumes "task_step E k el = Done el'"
  shows "answer_step (answering_of el) (TaskReady k) (answering_of el')"
proof (cases "k < length (response_tasks el)")
  case False
  then show ?thesis using assms by (auto simp: task_step_def intro!: answer_internal)
next
  case True
  obtain n t where t: "response_tasks el ! k = (n, t)" by (cases "response_tasks el ! k")
  show ?thesis
  proof (cases "\<exists>r. t = Ready r")
    case True
    then obtain r where r: "t = Ready r" by blast
    have "el' = el\<lparr>shared_session := hand_over (OutResponse (make_response n r)) (shared_session el),
        response_tasks := remove_nth k (response_tasks el)\<rparr>"
      using assms t r \<open>k < length (response_tasks el)\<close> by (auto simp: task_step_def send_response_step)
    then show ?thesis
      using answer_send [of k "answering_of el" n r] t r \<open>k < length (response_tasks el)\<close>
      by (simp add: answering_of_def hand_over_def)
  next
    case False
    then obtain t' s' where ran: "run_task E t (shared_session el) = Done (Inr t', s')"
      and el': "el' = el\<lparr>shared_session := s', response_tasks := (response_tasks el)[k := (n, t')]\<rparr>"
      using assms t \<open>k < length (response_tasks el)\<close>
      by (cases t) (auto simp: task_step_def split: exec.splits sum.splits prod.splits)
    have eff: "stage (answering_view (loop_view (shared_session el)) []) t t'" "loop_view s' =
        (filter is_response (handed_over (shared_session el)), config_done_sent (shared_session el),
         receivers_after t t' (config_done_receivers (shared_session el)))"
      using run_task_refines [OF ran False] by (auto simp: stage_effect_def)
    have "stage (answering_of el) t t'"
      by (rule stage_same [OF _ _ eff(1)]) (simp_all add: answering_of_view answering_view_def)
    then show ?thesis
      using answer_stage [of k "answering_of el" n t t'] t el' eff(2) \<open>k < length (response_tasks el)\<close>
      by (simp add: answering_of_view answering_view_def loop_view_def)
  qed
qed

lemma map_exec_Done: "map_exec f m = Done y \<longleftrightarrow> (\<exists>x. m = Done x \<and> y = f x)"
  by (cases m) auto

lemma loop_step_refines:
  assumes "loop_step E i el = Some (Done el')"
  shows "answer_step (answering_of el) i (answering_of el')"
proof (cases i)
  case (Request n args c bs clock)
  let ?s = "(shared_session el)\<lparr>clock_answers := clock\<rparr>"
  obtain x s' where h: "handle_request E n args c bs ?s = Done (x, s')"
    using assms Request by (auto split: exec.splits)
  from handle_request_refines [OF this, of "response_tasks el" clock]
  obtain t where "x = Inr t" "answer_step (answering_of el) i (answering_view (loop_view s') (response_tasks el @ spawned_tasks n t))"
    using Request by (auto simp: answering_of_view)
  then show ?thesis using assms h Request by (cases t) (auto simp: answering_of_view spawned_tasks_def)
next
  case (DebugEvent ev)
  then show ?thesis using assms
    by (auto simp: answering_of_view map_exec_Done dest!: debug_event_view intro!: answer_internal)
next
  case (PythonEvent ev)
  then show ?thesis using assms
    by (auto simp: answering_of_view map_exec_Done dest!: python_event_view intro!: answer_internal)
next
  case (SpawnedReady k)
  then show ?thesis using assms
    by (auto simp: answering_of_view map_exec_Done dest!: spawned_step_view intro!: answer_internal)
qed (use assms in \<open>auto intro!: task_step_refines\<close>)

end
