(* ===== verification/Event_Loop.thy ===== *)
theory Event_Loop
  imports Answers Stub_Env
begin

text \<open>
  What the refinement of \<open>Answers\<close> gives for every run of the event loop: each request is answered
  exactly once and with a body of its own kind, and the response to \<^verbatim>\<open>configurationDone\<close> comes after
  launching and attaching.
\<close>

section \<open>Runs\<close>

definition answering_new :: answering where
  "answering_new = \<lparr>sent_responses = [], done_sent = 0, done_receivers = 0, owing = []\<rparr>"

inductive answer_run :: "loop_input list \<Rightarrow> answering \<Rightarrow> bool" where
  answer_start: "answer_run [] answering_new"
| answer_next: "answer_run ins a \<Longrightarrow> answer_step a i a' \<Longrightarrow> answer_run (ins @ [i]) a'"

lemma new_loop_answering:
  assumes "event_loop_new E l python settings answers = Done el"
  shows "answering_of el = answering_new"
proof -
  let ?s = "(session_new l python)\<lparr>queue_answers := answers\<rparr> :: 'a session"
  obtain r s where s: "update_adapter_settings E settings ?s = Done (r, s)"
    and el: "el = \<lparr>shared_session = s, response_tasks = []\<rparr>"
    using assms by (auto simp: event_loop_new_def split: exec.splits)
  have "loop_view s = loop_view ?s"
    using plainD [OF plain_update_adapter_settings s] by simp
  then show ?thesis using el
    by (simp add: answering_of_view answering_view_def answering_new_def loop_view_def session_new_def)
qed

text \<open>The loop refines the abstract one.\<close>

lemma loop_run_refines: "loop_run E ins el \<Longrightarrow> answer_run ins (answering_of el)"
  by (induction rule: loop_run.induct)
    (auto simp: new_loop_answering intro: answer_start answer_next loop_step_refines)

section \<open>Counting\<close>

lemma count_split:
  assumes "k < length xs"
  shows "length (filter P xs) =
    length (filter P (take k xs)) + (if P (xs ! k) then 1 else 0) + length (filter P (drop (Suc k) xs))"
  using arg_cong [OF id_take_nth_drop [OF assms], of "\<lambda>ys. length (filter P ys)"] by simp

lemma count_update:
  assumes "k < length xs"
  shows "length (filter P (xs[k := y])) + (if P (xs ! k) then 1 else 0) = length (filter P xs) + (if P y then 1 else 0)"
  using count_split [OF assms, of P] by (simp add: upd_conv_take_nth_drop [OF assms])

lemma count_remove:
  assumes "k < length xs"
  shows "length (filter P (remove_nth k xs)) + (if P (xs ! k) then 1 else 0) = length (filter P xs)"
  using count_split [OF assms, of P] by (simp add: remove_nth_def)

lemma set_remove: "set (remove_nth k xs) \<subseteq> set xs"
  by (auto simp: remove_nth_def dest: in_set_takeD in_set_dropD)

definition request_count :: "u32 \<Rightarrow> loop_input list \<Rightarrow> nat" where
  "request_count n ins = length (filter (\<lambda>i. request_number i = Some n) ins)"

fun responds_to :: "u32 \<Rightarrow> outgoing \<Rightarrow> bool" where
  "responds_to n (OutResponse r) = (request_seq r = n)"
| "responds_to n _ = False"

definition response_count :: "u32 \<Rightarrow> outgoing list \<Rightarrow> nat" where
  "response_count n os = length (filter (responds_to n) os)"

definition task_count :: "u32 \<Rightarrow> (u32 \<times> task) list \<Rightarrow> nat" where
  "task_count n ts = length (filter (\<lambda>p. fst p = n) ts)"

lemma response_number: "request_seq (make_response n r) = n"
  by (cases r) (auto simp: Let_def split: prod.split blame.split)

lemma response_count_filter: "response_count n (filter is_response os) = response_count n os"
proof -
  have "responds_to n o' \<and> is_response o' \<longleftrightarrow> responds_to n o'" for o' by (cases o') auto
  then show ?thesis by (simp add: response_count_def conj_commute)
qed

lemma answered_or_owed:
  "answer_run ins a \<Longrightarrow> request_count n ins = response_count n (sent_responses a) + task_count n (owing a)"
proof (induction rule: answer_run.induct)
  case answer_start
  then show ?case by (simp add: answering_new_def request_count_def response_count_def task_count_def)
next
  case (answer_next ins a i a')
  note IH = answer_next.IH [unfolded request_count_def response_count_def task_count_def]
  from answer_next.hyps(2) show ?case
  proof cases
    case (answer_stage k m t t')
    then show ?thesis using IH count_update [of k "owing a" "\<lambda>p. fst p = n" "(m, t')"]
      by (simp add: request_count_def response_count_def task_count_def split: if_splits)
  next
    case (answer_send k m r)
    then show ?thesis using IH count_remove [of k "owing a" "\<lambda>p. fst p = n"]
      by (simp add: request_count_def response_count_def task_count_def response_number split: if_splits)
  qed (use IH in \<open>simp_all add: request_count_def response_count_def task_count_def response_number\<close>)
qed

section \<open>Kinds of answers\<close>

text \<open>What a task will answer to a request with the given command.\<close>

fun task_fits :: "string option \<Rightarrow> task \<Rightarrow> bool" where
  "task_fits c (Ready r) = result_fits c r"
| "task_fits c AwaitConfigurationDone = (c = Some ''configurationDone'')"
| "task_fits c (AttachTask _ _) = (c = Some ''attach'')"
| "task_fits c (DebuggerTerminalTask _) = False"
| "task_fits c (AwaitDebuggerTerminal _) = False"
| "task_fits c _ = (c = Some ''launch'')"

lemma stage_fits: "stage a t t' \<Longrightarrow> task_fits c t \<Longrightarrow> task_fits c t'"
  by (erule stage.cases) (auto simp: result_fits_def)

definition asked :: "loop_input list \<Rightarrow> u32 \<Rightarrow> string option \<Rightarrow> bool" where
  "asked ins n c \<longleftrightarrow> (\<exists>args cancelled bs clock. Request n args cancelled bs clock \<in> set ins \<and> request_command args = c)"

definition typed_response :: "loop_input list \<Rightarrow> outgoing \<Rightarrow> bool" where
  "typed_response ins x \<longleftrightarrow> (\<exists>n r c. x = OutResponse (make_response n r) \<and> asked ins n c \<and> result_fits c r)"

definition typed_task :: "loop_input list \<Rightarrow> u32 \<times> task \<Rightarrow> bool" where
  "typed_task ins p \<longleftrightarrow> (\<exists>c. asked ins (fst p) c \<and> task_fits c (snd p))"

lemma asked_now: "asked (ins @ [Request n args c bs clock]) n (request_command args)"
  by (auto simp: asked_def)

lemma typed_later:
  "typed_response ins x \<Longrightarrow> typed_response (ins @ [i]) x" "typed_task ins p \<Longrightarrow> typed_task (ins @ [i]) p"
  by (fastforce simp: typed_response_def typed_task_def asked_def)+

lemma answers_typed:
  "answer_run ins a \<Longrightarrow> Ball (set (sent_responses a)) (typed_response ins) \<and> Ball (set (owing a)) (typed_task ins)"
proof (induction rule: answer_run.induct)
  case answer_start
  then show ?case by (simp add: answering_new_def)
next
  case (answer_next ins a i a')
  then have old: "Ball (set (sent_responses a)) (typed_response (ins @ [i]))" "Ball (set (owing a)) (typed_task (ins @ [i]))"
    using typed_later by blast+
  from answer_next.hyps(2) show ?case
  proof cases
    case (answer_now args r n c bs clock)
    then have "typed_response (ins @ [i]) (OutResponse (make_response n r))"
      using asked_now [of ins n args c bs clock] by (auto simp: typed_response_def)
    then show ?thesis using old answer_now by simp
  next
    case (answer_ready args r n c bs clock)
    then have "typed_task (ins @ [i]) (n, Ready r)"
      using asked_now [of ins n args c bs clock] by (auto simp: typed_task_def)
    then show ?thesis using old answer_ready by simp
  next
    case (answer_launch n args c bs clock)
    then have "typed_task (ins @ [i]) (n, LaunchTask (done_sent a) args)"
      using asked_now [of ins n "Req_launch (First args)" c bs clock] by (auto simp: typed_task_def)
    then show ?thesis using old answer_launch by simp
  next
    case (answer_attach n args c bs clock)
    then have "typed_task (ins @ [i]) (n, AttachTask (done_sent a) args)"
      using asked_now [of ins n "Req_attach (First args)" c bs clock] by (auto simp: typed_task_def)
    then show ?thesis using old answer_attach by simp
  next
    case (answer_configured n c bs clock)
    then have "typed_task (ins @ [i]) (n, AwaitConfigurationDone)"
      using asked_now [of ins n Req_configurationDone c bs clock] by (auto simp: typed_task_def)
    then show ?thesis using old answer_configured by simp
  next
    case (answer_stage k n t t')
    then have "typed_task (ins @ [i]) (n, t)" using old(2) by (metis nth_mem)
    then have "typed_task (ins @ [i]) (n, t')" using answer_stage stage_fits by (auto simp: typed_task_def)
    then show ?thesis using old answer_stage set_update_subset_insert [of "owing a" k "(n, t')"] by auto
  next
    case (answer_send k n r)
    then have "typed_task (ins @ [i]) (n, Ready r)" using old(2) by (metis nth_mem)
    then have "typed_response (ins @ [i]) (OutResponse (make_response n r))"
      by (auto simp: typed_task_def typed_response_def)
    then show ?thesis using old answer_send set_remove [of k "owing a"] by auto
  qed (use old in simp)
qed

section \<open>The configuration-done channel\<close>

fun stamp :: "task \<Rightarrow> nat option" where
  "stamp (LaunchTask n _) = Some n"
| "stamp (AttachTask n _) = Some n"
| "stamp _ = None"

definition channel_ok :: "answering \<Rightarrow> bool" where
  "channel_ok a \<longleftrightarrow> done_receivers a = length (filter (\<lambda>p. subscribed (snd p)) (owing a)) \<and>
     (\<forall>p \<in> set (owing a). \<forall>n. stamp (snd p) = Some n \<longrightarrow> n \<le> done_sent a)"

lemma stage_stamp: "stage a t t' \<Longrightarrow> stamp t' = Some n \<Longrightarrow> stamp t = Some n"
  by (erule stage.cases) auto

lemma stage_subscribed: "stage a t t' \<Longrightarrow> subscribed t' \<Longrightarrow> subscribed t"
  by (erule stage.cases) auto

lemma channel_invariant: "answer_run ins a \<Longrightarrow> channel_ok a"
proof (induction rule: answer_run.induct)
  case answer_start
  then show ?case by (simp add: answering_new_def channel_ok_def)
next
  case (answer_next ins a i a')
  note IH = answer_next.IH [unfolded channel_ok_def]
  from answer_next.hyps(2) show ?case
  proof cases
    case (answer_stage k n t t')
    have "length (filter (\<lambda>p. subscribed (snd p)) ((owing a)[k := (n, t')])) + (if subscribed t then 1 else 0) =
        length (filter (\<lambda>p. subscribed (snd p)) (owing a)) + (if subscribed t' then 1 else 0)"
      using count_update [OF answer_stage(3), of "\<lambda>p. subscribed (snd p)" "(n, t')"] answer_stage(4) by simp
    moreover have "m \<le> done_sent a" if p: "p \<in> set ((owing a)[k := (n, t')])" and m: "stamp (snd p) = Some m" for p m
    proof (cases "p \<in> set (owing a)")
      case True
      then show ?thesis using IH m by blast
    next
      case False
      then have "p = (n, t')" using p set_update_subset_insert [of "owing a" k "(n, t')"] by blast
      then have "stamp t = Some m" using stage_stamp [OF answer_stage(5)] m by simp
      moreover have "(n, t) \<in> set (owing a)" using nth_mem [OF answer_stage(3)] answer_stage(4) by simp
      ultimately show ?thesis using IH by fastforce
    qed
    ultimately show ?thesis
      using IH answer_stage(2) stage_subscribed [OF answer_stage(5)] by (auto simp: channel_ok_def receivers_after_def)
  next
    case (answer_send k n r)
    then show ?thesis
      using IH count_remove [OF answer_send(3), of "\<lambda>p. subscribed (snd p)"] set_remove [of k "owing a"]
      by (auto simp: channel_ok_def)
  qed (use IH in \<open>auto simp: channel_ok_def le_SucI\<close>)
qed

section \<open>Systems that answer\<close>

text \<open>Whatever refines the abstract loop has its properties; the event loop does.\<close>

locale answering_system =
  fixes runs :: "loop_input list \<Rightarrow> 'st \<Rightarrow> bool" and account :: "'st \<Rightarrow> answering"
  assumes refines: "runs ins st \<Longrightarrow> answer_run ins (account st)"
begin

lemma counted: "runs ins st \<Longrightarrow> request_count n ins = response_count n (sent_responses (account st)) + task_count n (owing (account st))"
  by (rule answered_or_owed [OF refines])

lemma typed:
  "runs ins st \<Longrightarrow> x \<in> set (sent_responses (account st)) \<Longrightarrow> typed_response ins x"
  using answers_typed [OF refines] by blast

lemma unsubscribed: "runs ins st \<Longrightarrow> done_receivers (account st) = 0 \<longleftrightarrow> (\<forall>p \<in> set (owing (account st)). \<not> subscribed (snd p))"
  using channel_invariant [OF refines] by (auto simp: channel_ok_def filter_empty_conv)

lemma stamped: "runs ins st \<Longrightarrow> p \<in> set (owing (account st)) \<Longrightarrow> stamp (snd p) = Some j \<Longrightarrow> j \<le> done_sent (account st)"
  using channel_invariant [OF refines] by (auto simp: channel_ok_def)

end

interpretation main_loop: answering_system "loop_run E" answering_of for E
  by unfold_locales (rule loop_run_refines)

section \<open>Properties of the event loop\<close>

text \<open>A short run, for the examples below: \<^verbatim>\<open>configurationDone\<close> without a launch.\<close>

definition sample_session :: "unit session" where
  "sample_session = session_new () False"

definition sample_loop :: "(outgoing \<times> nat option) list \<Rightarrow> (u32 \<times> task) list \<Rightarrow> unit event_loop" where
  "sample_loop os ts = \<lparr>shared_session = sample_session\<lparr>outgoing := os\<rparr>, response_tasks = ts\<rparr>"

definition sample_request :: loop_input where
  "sample_request = Request 1 Req_configurationDone False [] []"

definition sample_answer :: outgoing where
  "sample_answer = OutResponse \<lparr>request_seq = 1, success = True, result = Success Resp_configurationDone\<rparr>"

lemma sample_steps:
  "event_loop_new stub_env () False default_adapter_settings [] = Done (sample_loop [] [])"
  "loop_step stub_env sample_request (sample_loop [] []) = Some (Done (sample_loop [] [(1, AwaitConfigurationDone)]))"
  "loop_step stub_env (TaskReady 0) (sample_loop [] [(1, AwaitConfigurationDone)]) =
     Some (Done (sample_loop [] [(1, Ready (Inr Resp_configurationDone))]))"
  "loop_step stub_env (TaskReady 0) (sample_loop [] [(1, Ready (Inr Resp_configurationDone))]) =
     Some (Done (sample_loop [(sample_answer, Some 0)] []))"
  by (simp_all add: event_loop_new_def update_adapter_settings_def apply_settings_def update_languages_def
      update_completions_def update_hovers_def default_adapter_settings_def sample_loop_def sample_session_def
      session_new_def format_for_def unwrap_or_def sample_request_def handle_request_def handle_request_args_def responds_def
      handle_configuration_done_def onResult_def act_step act_eval task_step_def send_response_step remove_nth_def
      sample_answer_def hand_over_def next_found_def)

lemma sample_runs:
  "loop_run stub_env [sample_request] (sample_loop [] [(1, AwaitConfigurationDone)])"
  "loop_run stub_env [sample_request, TaskReady 0, TaskReady 0] (sample_loop [(sample_answer, Some 0)] [])"
proof -
  show one: "loop_run stub_env [sample_request] (sample_loop [] [(1, AwaitConfigurationDone)])"
    using loop_next [OF loop_start [OF sample_steps(1)] sample_steps(2)] by simp
  show "loop_run stub_env [sample_request, TaskReady 0, TaskReady 0] (sample_loop [(sample_answer, Some 0)] [])"
    using loop_next [OF loop_next [OF one sample_steps(3)] sample_steps(4)] by simp
qed

text \<open>
  Property C11.  Every request is answered exactly once: at every moment of every run, the number of
  requests with a given number equals the number of responses to it that were handed to the outgoing queue plus
  the number of spawned tasks that still owe it one.  A response is lost when it finds 1000 messages waiting in the
  queue, or the dispatcher gone; if every message of the run finds fewer than 1000, the responses that were handed
  over are the responses that got into the queue.
\<close>

theorem requests_answered_once:
  assumes "loop_run E ins el" and "log = outgoing (shared_session el)"
  shows "request_count n ins = response_count n (map fst log) + task_count n (response_tasks el) \<and>
    response_count n (map fst log) = response_count n (queued_messages log) +
      length (filter (\<lambda>(m, found). responds_to n m \<and> (case found of None \<Rightarrow> True | Some waiting \<Rightarrow> 1000 \<le> waiting)) log) \<and>
    (list_all (\<lambda>(m, found). \<exists>waiting < 1000. found = Some waiting) log \<longrightarrow>
      request_count n ins = response_count n (queued_messages log) + task_count n (response_tasks el))"
proof -
  have split: "response_count n (map fst log) = response_count n (queued_messages log) +
      length (filter (\<lambda>(m, found). responds_to n m \<and> (case found of None \<Rightarrow> True | Some waiting \<Rightarrow> 1000 \<le> waiting)) log)"
  proof (induction log)
    case (Cons e log)
    obtain m found where e: "e = (m, found)" by (cases e)
    show ?case using Cons
      by (cases found) (auto simp: e response_count_def queued_messages_def queue_capacity_def)
  qed (simp add: response_count_def queued_messages_def)
  have count: "request_count n ins = response_count n (map fst log) + task_count n (response_tasks el)"
    using main_loop.counted [OF assms(1), of n] by (simp add: answering_of_def response_count_filter assms(2))
  have all: "queued_messages log = map fst log" if "list_all (\<lambda>(m, found). \<exists>waiting < 1000. found = Some waiting) log"
    using that by (intro queued_messages_all) (auto simp: list_all_iff queue_capacity_def)
  show ?thesis
    by (intro conjI impI; (rule count split)?) (subst all, assumption, rule count)
qed

theorem requests_answered_once_witness:
  "request_count 1 [sample_request, TaskReady 0, TaskReady 0] = 1 \<and>
   response_count 1 (queued_messages [(sample_answer, Some 0)]) = 1"
  using requests_answered_once [OF sample_runs(2) refl, of 1]
  by (simp add: request_count_def sample_request_def sample_loop_def task_count_def)

text \<open>
  Property C19.  Answers are well typed: the body of a successful response carries the command of a
  request with that number.
\<close>

theorem responses_typed:
  assumes run: "loop_run E ins el" and sent: "OutResponse x \<in> set (handed_over (shared_session el))"
    and body: "result x = Success b"
  shows "\<exists>args cancelled bs clock. Request (request_seq x) args cancelled bs clock \<in> set ins \<and>
    request_command args = Some (response_command b)"
proof -
  have "typed_response ins (OutResponse x)"
    using main_loop.typed [OF run] sent by (auto simp: answering_of_def)
  then obtain n r c where x: "x = make_response n r" and c: "asked ins n c" "result_fits c r"
    by (auto simp: typed_response_def)
  have "r = Inr b" using body x by (cases r) (auto simp: Let_def split: prod.splits)
  then show ?thesis using c x by (auto simp: asked_def result_fits_def)
qed
theorem responses_typed_witness:
  "\<exists>args cancelled bs clock. Request 1 args cancelled bs clock \<in> set [sample_request, TaskReady 0, TaskReady 0] \<and>
    request_command args = Some ''configurationDone''"
  using responses_typed [OF sample_runs(2), of "\<lparr>request_seq = 1, success = True, result = Success Resp_configurationDone\<rparr>"
      Resp_configurationDone]
  by (simp add: sample_answer_def sample_loop_def)

text \<open>
  Property C40.  The response to \<^verbatim>\<open>configurationDone\<close> waits for launching and attaching, and releases them:
  its task gets its result exactly when no launch or attach is left among the tasks, and once the
  request has been handled, no launch or attach is waiting for it any more.
\<close>

theorem configuration_done_order:
  assumes run: "loop_run E ins el"
  shows "(k < length (response_tasks el) \<and> response_tasks el ! k = (n, AwaitConfigurationDone) \<and>
      loop_step E (TaskReady k) el = Some (Done el1) \<longrightarrow>
      (response_tasks el1 ! k = (n, Ready (Inr Resp_configurationDone)) \<longleftrightarrow>
       (\<forall>p \<in> set (response_tasks el). \<not> subscribed (snd p)))) \<and>
    (loop_step E (Request m Req_configurationDone False bs clock) el = Some (Done el2) \<longrightarrow>
      (\<forall>p \<in> set (response_tasks el2). \<forall>j. stamp (snd p) = Some j \<longrightarrow> j < config_done_sent (shared_session el2)))"
proof (intro conjI impI)
  have recv: "config_done_receivers (shared_session el) = 0 \<longleftrightarrow> (\<forall>p \<in> set (response_tasks el). \<not> subscribed (snd p))"
    using main_loop.unsubscribed [OF run] by (simp add: answering_of_def)
  {
    assume "k < length (response_tasks el) \<and> response_tasks el ! k = (n, AwaitConfigurationDone) \<and>
      loop_step E (TaskReady k) el = Some (Done el1)"
    then show "response_tasks el1 ! k = (n, Ready (Inr Resp_configurationDone)) \<longleftrightarrow>
       (\<forall>p \<in> set (response_tasks el). \<not> subscribed (snd p))"
      unfolding recv [symmetric] by (auto simp: task_step_def act_step act_eval split: if_splits)
  }
  assume "loop_step E (Request m Req_configurationDone False bs clock) el = Some (Done el2)"
  then have tasks: "response_tasks el2 = response_tasks el @ [(m, AwaitConfigurationDone)]"
    and sent: "config_done_sent (shared_session el2) = (if config_done_receivers (shared_session el) = 0
      then config_done_sent (shared_session el) else Suc (config_done_sent (shared_session el)))"
    by (auto simp: handle_request_def act_step act_eval handle_request_args_def responds_def
        handle_configuration_done_def onResult_def)
  show "\<forall>p \<in> set (response_tasks el2). \<forall>j. stamp (snd p) = Some j \<longrightarrow> j < config_done_sent (shared_session el2)"
  proof (intro ballI allI impI)
    fix p j
    assume p: "p \<in> set (response_tasks el2)" and j: "stamp (snd p) = Some j"
    then have old: "p \<in> set (response_tasks el)" using tasks by auto
    have "subscribed (snd p)" using j by (cases "snd p") auto
    then have "config_done_receivers (shared_session el) \<noteq> 0" using recv old by auto
    moreover have "j \<le> config_done_sent (shared_session el)"
      using main_loop.stamped [OF run] old j by (fastforce simp: answering_of_def)
    ultimately show "j < config_done_sent (shared_session el2)" using sent by simp
  qed
qed

theorem configuration_done_order_witness:
  "loop_run stub_env [sample_request] (sample_loop [] [(1, AwaitConfigurationDone)]) \<and>
   filter (\<lambda>p. subscribed (snd p)) (response_tasks (sample_loop [] [(1, AwaitConfigurationDone)])) = []"
  using configuration_done_order [OF sample_runs(1), of 0 1 "sample_loop [] [(1, Ready (Inr Resp_configurationDone))]"]
    sample_runs(1) sample_steps(3)
  by (simp add: sample_loop_def)

end
