(* ===== verification/Lldb_Strings.thy ===== *)
theory Lldb_Strings
  imports Rust_Text
begin

text \<open>
  Strings on the way to and from LLDB (\<^verbatim>\<open>lldb/src/strings.rs\<close>).  LLDB takes NUL-terminated strings and fills
  buffers of the caller; the functions of this file build such strings, and read a string of any length
  through a buffer that grows until the string fits.

  A pointer is null or points to a block of memory, the list of its bytes.  Reading a string from a block
  without NUL runs past its end: that is the value \<open>None\<close>.
\<close>

section \<open>Strings in memory\<close>

abbreviation NUL :: char where "NUL \<equiv> CHR 0x00"

datatype c_ptr = Null | Ptr string

text \<open>\<^verbatim>\<open>CStr::from_ptr\<close>\<close>

definition c_str :: "string \<Rightarrow> string option" where
  "c_str block = (if NUL \<in> set block then Some (takeWhile (\<lambda>c. c \<noteq> NUL) block) else None)"

lemma c_str_terminated: "NUL \<notin> set s \<Longrightarrow> c_str (s @ NUL # r) = Some s"
  by (auto simp: c_str_def takeWhile_append)

section \<open>Strings for LLDB\<close>

text \<open>Strings shorter than 256 bytes are copied to a buffer on the stack, others are allocated; only
  \<^verbatim>\<open>CString::new\<close> looks for NUL bytes.\<close>

definition with_cstr :: "string \<Rightarrow> (c_ptr \<Rightarrow> 'r) \<Rightarrow> 'r exec" where
  "with_cstr s f =
     (let buffer = replicate 256 NUL
      in if length s < length buffer
         then Done (f (Ptr (s @ NUL # drop (Suc (length s)) buffer)))
         else if NUL \<in> set s then Panic
         else Done (f (Ptr (s @ [NUL]))))"

definition with_opt_cstr :: "string option \<Rightarrow> (c_ptr \<Rightarrow> 'r) \<Rightarrow> 'r exec" where
  "with_opt_cstr s f = (case s of Some s \<Rightarrow> with_cstr s f | None \<Rightarrow> Done (f Null))"

section \<open>Strings from LLDB\<close>

text \<open>
  A function that fills a buffer: from the size of the buffer, what it writes to the beginning of the
  buffer, and the number it returns.
\<close>

type_synonym filler = "nat \<Rightarrow> string \<times> u64"

definition fill :: "string \<Rightarrow> string \<Rightarrow> string" where
  "fill written buffer = written @ drop (length written) buffer"

text \<open>
  The allocator: the block for a request of \<open>n\<close> bytes has at least \<open>n\<close> bytes, \<open>garbage\<close> being their content
  and \<open>spare n\<close> what the block has beyond.  A request above \<^verbatim>\<open>isize::MAX\<close> panics.
\<close>

record allocator =
  garbage :: "nat \<Rightarrow> char"
  spare :: "nat \<Rightarrow> string"

definition isize_max :: nat where
  "isize_max = 2 ^ 63 - 1"

definition allocate :: "allocator \<Rightarrow> nat \<Rightarrow> string exec" where
  "allocate A n = (if n > isize_max then Panic else Done (map (garbage A) [0..<n] @ spare A n))"

text \<open>
  The loop with a \<^verbatim>\<open>Vec\<close>, whose length stays 0: \<^verbatim>\<open>reserve\<close> of twice its capacity gives a new block of that size.
  For an empty block the comparison would be with the largest \<^verbatim>\<open>usize\<close>, since the difference wraps.
\<close>

function grow_loop :: "allocator \<Rightarrow> filler \<Rightarrow> nat \<Rightarrow> string option exec" where
  "grow_loop A f request =
     (case allocate A request of
        Panic \<Rightarrow> Panic
      | Done block \<Rightarrow>
          (let capacity = length block; (written, size) = f capacity
           in if sint size < 0 then Panic
              else if capacity = 0 \<or> unat size < capacity - 1 then Done (c_str (fill written block))
              else grow_loop A f (capacity * 2)))"
  by pat_completeness auto
termination
proof (relation "measure (\<lambda>(A, f, request). Suc isize_max - request)", goal_cases)
  case (2 A f request block capacity x written size)
  then have "request \<le> isize_max" "request \<le> capacity" "0 < capacity"
    by (auto simp: allocate_def split: if_splits)
  then show ?case by simp
qed simp

declare grow_loop.simps [simp del]

definition get_cstring :: "allocator \<Rightarrow> filler \<Rightarrow> string option exec" where
  "get_cstring A f =
     (let buffer = replicate 1024 NUL; (written, size) = f (length buffer)
      in if sint size < 0 then Panic
         else if unat size < length buffer - 1 then Done (c_str (fill written buffer))
         else grow_loop A f (if unat size > length buffer then unat size + 2 else length buffer * 2))"

text \<open>The length of the longest valid beginning (\<^verbatim>\<open>Utf8Error::valid_up_to\<close>).\<close>

function valid_up_to :: "string \<Rightarrow> nat" where
  "valid_up_to s =
     (if s = [] then 0
      else let (n, ok) = utf8_first s in if ok then n + valid_up_to (drop n s) else 0)"
  by pat_completeness auto
termination
proof (relation "measure length", goal_cases)
  case (2 s x n ok)
  then have "0 < n" using utf8_first_pos by (metis fst_conv neq_Nil_conv)
  with 2 show ?case by simp
qed simp

declare valid_up_to.simps [simp del]

definition get_str :: "c_ptr \<Rightarrow> string option" where
  "get_str p = (case p of
      Null \<Rightarrow> Some []
    | Ptr block \<Rightarrow>
        (case c_str block of
           None \<Rightarrow> None
         | Some cstr \<Rightarrow> Some (if utf8_valid cstr then cstr else take (valid_up_to cstr) cstr)))"

section \<open>Every string arrives\<close>

text \<open>
  What fillers of LLDB have in common: they store as much of a string as fits, with a NUL behind it, and
  return something between the number of bytes stored and the number of bytes needed for all, which may or
  may not count the NUL.
\<close>

definition stores :: "string \<Rightarrow> filler \<Rightarrow> bool" where
  "stores s f \<longleftrightarrow> NUL \<notin> set s \<and>
     (\<forall>n > 0. fst (f n) = take (n - 1) s @ [NUL] \<and>
        min (length s) (n - 1) \<le> unat (snd (f n)) \<and> unat (snd (f n)) \<le> length s + 1)"

lemma storesD:
  assumes "stores s f" "0 < n" "f n = (written, ret)"
  shows "written = take (n - 1) s @ [NUL]" "min (length s) (n - 1) \<le> unat ret" "unat ret \<le> length s + 1"
    "NUL \<notin> set s"
proof -
  have "fst (f n) = take (n - 1) s @ [NUL] \<and> min (length s) (n - 1) \<le> unat (snd (f n)) \<and>
      unat (snd (f n)) \<le> length s + 1"
    using assms(1,2) unfolding stores_def by blast
  then show "written = take (n - 1) s @ [NUL]" "min (length s) (n - 1) \<le> unat ret" "unat ret \<le> length s + 1"
    by (simp_all add: assms(3))
  show "NUL \<notin> set s" using assms(1) by (simp add: stores_def)
qed

lemma sint_small:
  fixes w :: u64
  assumes "unat w < 2 ^ 63"
  shows "\<not> sint w < 0"
proof -
  have "uint w < 2 ^ 63" using assms unfolding uint_nat by (simp only: of_nat_less_numeral_power_cancel_iff)
  then have "sint w = uint w"
    unfolding sint_uint by (intro signed_take_bit_int_eq_self) (simp_all add: order_trans [OF _ uint_nonnegative])
  then show ?thesis by simp
qed

lemma stored_string:
  assumes "stores s f" "0 < n" "f n = (written, ret)" "unat ret < n - 1"
  shows "c_str (fill written block) = Some s"
proof -
  have "length s < n - 1" using storesD(2) [OF assms(1-3)] assms(4) by auto
  then have "fill written block = s @ NUL # drop (length written) block"
    using storesD(1) [OF assms(1-3)] by (simp add: fill_def)
  then show ?thesis using storesD(4) [OF assms(1-3)] by (simp add: c_str_terminated)
qed

lemma grow_loop_stores:
  "stores s f \<Longrightarrow> 2 * length s + 4 \<le> isize_max \<Longrightarrow> 0 < request \<Longrightarrow> request \<le> isize_max \<Longrightarrow>
     grow_loop A f request = Done (Some s)"
proof (induction A f request rule: grow_loop.induct)
  case (1 A f request)
  let ?block = "map (garbage A) [0..<request] @ spare A request"
  let ?n = "length ?block"
  obtain written ret where w: "f ?n = (written, ret)" by fastforce
  have n: "0 < ?n" using "1.prems"(3) by simp
  note st = storesD [OF "1.prems"(1) n w]
  have "unat ret < 2 ^ 63" using st(3) "1.prems"(2) by (simp add: isize_max_def)
  then have ret: "\<not> sint ret < 0" by (rule sint_small)
  have alloc: "allocate A request = Done ?block" using "1.prems"(4) by (simp add: allocate_def)
  show ?case
  proof (cases "unat ret < ?n - 1")
    case True
    then show ?thesis
      using stored_string [OF "1.prems"(1) n w] alloc w ret n
      by (subst grow_loop.simps) (simp del: length_append length_map)
  next
    case False
    then have "?n * 2 \<le> isize_max" using st(3) "1.prems"(2) by linarith
    then have "grow_loop A f (?n * 2) = Done (Some s)"
      using "1.IH" [OF alloc refl, of _ written ret] w ret False n "1.prems"(1,2) by simp
    then show ?thesis
      using alloc w ret False "1.prems"(3) by (subst grow_loop.simps) (simp del: length_append length_map)
  qed
qed

lemma utf8_first_ok:
  assumes "utf8_first s = (n, True)"
  shows "n \<le> length s \<and> (utf8_valid (take n s @ t) \<longleftrightarrow> utf8_valid t)"
proof (cases s)
  case Nil
  then show ?thesis using assms by simp
next
  case (Cons a s1)
  show ?thesis
  proof (cases "byte a < 128")
    case True
    then show ?thesis using assms Cons by auto
  next
    case hi: False
    then obtain b s2 where b: "s1 = b # s2" using assms Cons by (cases s1) auto
    show ?thesis
    proof (cases "byte_in 0xC2 0xDF a")
      case True
      then show ?thesis using assms Cons b hi by (auto split: if_splits)
    next
      case no2: False
      then have so: "byte_in 0xE0 0xF4 a" "second_ok a b" using assms Cons b hi by (auto split: if_splits)
      then obtain c s3 where c: "s2 = c # s3" "is_cont c" using assms Cons b hi no2 by (cases s2) (auto split: if_splits)
      show ?thesis
      proof (cases "byte_in 0xE0 0xEF a")
        case True
        then have "byte a \<noteq> 0xF0" "byte a \<noteq> 0xF4" by (auto simp: byte_in_def)
        moreover have "n = 3" using assms Cons b c hi no2 so True by simp
        ultimately show ?thesis using Cons b c hi no2 so(2) True by (simp add: second_ok_def)
      next
        case no3: False
        then have "byte a \<noteq> 0xE0" "byte a \<noteq> 0xED" "byte_in 0xF0 0xF4 a" using so by (auto simp: byte_in_def)
        moreover obtain d s4 where d: "s3 = d # s4" "is_cont d" using assms Cons b c hi no2 no3 so by (cases s3) (auto split: if_splits)
        moreover have "n = 4" using assms Cons b c d hi no2 no3 so by simp
        ultimately show ?thesis using Cons b c d hi no2 no3 so(2) by (simp add: second_ok_def)
      qed
    qed
  qed
qed

lemma utf8_valid_first_char:
  assumes "utf8_valid (a # s)"
  shows "\<exists>k. 0 < k \<and> k \<le> Suc (length s) \<and> utf8_first (a # s @ t) = (k, True)"
proof (cases "byte a < 128")
  case True
  then show ?thesis by simp
next
  case hi: False
  then obtain b s2 where b: "s = b # s2" using assms by (cases s) auto
  show ?thesis
  proof (cases "byte_in 0xC2 0xDF a")
    case True
    then show ?thesis using assms b hi by simp
  next
    case no2: False
    then obtain c s3 where c: "s2 = c # s3" using assms b hi by (cases s2) auto
    show ?thesis
    proof (cases "byte_in 0xE0 0xEF a")
      case True
      then have "byte a \<noteq> 0xF0" "byte a \<noteq> 0xF4" "byte_in 0xE0 0xF4 a" by (auto simp: byte_in_def)
      then show ?thesis using assms b c hi no2 True by (simp add: second_ok_def split: if_splits)
    next
      case no3: False
      then obtain d s4 where d: "s3 = d # s4" "byte_in 0xF0 0xF4 a" using assms b c hi no2 by (cases s3) auto
      then have "byte a \<noteq> 0xE0" "byte a \<noteq> 0xED" "byte_in 0xE0 0xF4 a" by (auto simp: byte_in_def)
      then show ?thesis using assms b c d hi no2 no3 by (simp add: second_ok_def split: if_splits)
    qed
  qed
qed

lemma valid_up_to_valid: "utf8_valid (take (valid_up_to s) s) \<and> valid_up_to s \<le> length s"
proof (induction s rule: valid_up_to.induct)
  case (1 s)
  obtain n ok where f: "utf8_first s = (n, ok)" by fastforce
  show ?case
  proof (cases "s = [] \<or> \<not> ok")
    case True
    then show ?thesis using f by (subst (1 2) valid_up_to.simps) auto
  next
    case False
    then have ih: "utf8_valid (take (valid_up_to (drop n s)) (drop n s)) \<and> valid_up_to (drop n s) \<le> length (drop n s)"
      using "1.IH" f by auto
    have step: "valid_up_to s = n + valid_up_to (drop n s)" using False f by (subst valid_up_to.simps) simp
    have "n \<le> length s" using utf8_first_ok [of s n "[]"] f False by simp
    then show ?thesis using ih utf8_first_ok [of s n] f False unfolding step by (auto simp: take_add)
  qed
qed

lemma valid_up_to_longest: "utf8_valid (take m s) \<Longrightarrow> m \<le> length s \<Longrightarrow> m \<le> valid_up_to s"
proof (induction s arbitrary: m rule: valid_up_to.induct)
  case (1 s)
  show ?case
  proof (cases "m = 0")
    case False
    then obtain a r where s: "take m s = a # r" using "1.prems"(2) by (cases "take m s") auto
    then have eq: "s = a # r @ drop m s" by (metis append_Cons append_take_drop_id)
    obtain k where k: "0 < k" "k \<le> Suc (length r)" "utf8_first s = (k, True)"
      using utf8_valid_first_char [of a r "drop m s"] "1.prems"(1) s eq by metis
    have km: "k \<le> m" using k(2) s by (metis length_Cons length_take min.bounded_iff)
    have "s \<noteq> []" using eq by auto
    then have step: "valid_up_to s = k + valid_up_to (drop k s)" using k by (subst valid_up_to.simps) simp
    have "take m s = take k s @ take (m - k) (drop k s)" using km by (metis le_add_diff_inverse take_add)
    then have "utf8_valid (take (m - k) (drop k s))" using "1.prems"(1) utf8_first_ok [OF k(3)] by simp
    then have "m - k \<le> valid_up_to (drop k s)" using "1.IH" [OF \<open>s \<noteq> []\<close> k(3) [symmetric]] "1.prems"(2) by simp
    then show ?thesis using step by simp
  qed simp
qed

text \<open>
  Property C23.  Whatever the convention of the LLDB function for its return value, \<open>get_cstring\<close> returns
  after finitely many calls with the whole string: not a part of it that happened to fit, and never by running
  past the end of a buffer, whatever the buffer contained and however generous the allocator is.
\<close>

theorem get_cstring_complete:
  assumes "stores s f" "2 * length s + 4 \<le> isize_max"
  shows "get_cstring A f = Done (Some s)"
proof -
  obtain written ret where w: "f 1024 = (written, ret)" by fastforce
  note st = storesD [OF assms(1) _ w, simplified]
  have "unat ret < 2 ^ 63" using st(3) assms(2) by (simp add: isize_max_def)
  then have ret: "\<not> sint ret < 0" by (rule sint_small)
  show ?thesis
  proof (cases "unat ret < 1023")
    case True
    then show ?thesis
      using stored_string [OF assms(1) _ w, of "replicate 1024 NUL"] w ret by (simp add: get_cstring_def)
  next
    case False
    let ?request = "if unat ret > 1024 then unat ret + 2 else 2048"
    have "?request \<le> isize_max" using st(3) assms(2) by (simp add: isize_max_def)
    then have "grow_loop A f ?request = Done (Some s)" by (intro grow_loop_stores assms) simp
    then show ?thesis using w ret False by (auto simp: get_cstring_def split: if_splits)
  qed
qed

theorem get_cstring_complete_witness:
  "get_cstring \<lparr>garbage = \<lambda>_. CHR ''?'', spare = \<lambda>_. ''??''\<rparr>
     (\<lambda>n. (take (n - 1) (replicate 3000 (CHR ''x'')) @ [NUL], 3000)) = Done (Some (replicate 3000 (CHR ''x'')))"
  by (rule get_cstring_complete) (simp_all add: stores_def isize_max_def)

text \<open>
  What LLDB finds behind the pointer of \<open>with_cstr\<close>: the string, up to its first NUL; but a long string with a
  NUL makes the adapter panic.
\<close>

lemma with_cstr_arrives:
  "with_cstr s (\<lambda>p. case p of Null \<Rightarrow> None | Ptr block \<Rightarrow> c_str block) =
     (if length s < 256 \<or> NUL \<notin> set s then Done (Some (takeWhile (\<lambda>c. c \<noteq> NUL) s)) else Panic)"
proof -
  have eq: "c_str (s @ NUL # r) = Some (takeWhile (\<lambda>c. c \<noteq> NUL) s)" for r
    by (induction s) (auto simp: c_str_def)
  show ?thesis unfolding with_cstr_def Let_def length_replicate by (simp only: c_ptr.case eq) auto
qed

text \<open>A text from LLDB is always valid, and is the longest valid beginning of what LLDB stored.\<close>

lemma get_str_longest:
  assumes "c_str block = Some s"
  obtains n where "get_str (Ptr block) = Some (take n s)" "utf8_valid (take n s)"
    "\<And>m. m \<le> length s \<Longrightarrow> utf8_valid (take m s) \<Longrightarrow> m \<le> n"
proof (cases "utf8_valid s")
  case True
  then show ?thesis using that [of "length s"] assms by (simp add: get_str_def)
next
  case False
  then show ?thesis
    using that [of "valid_up_to s"] assms valid_up_to_valid valid_up_to_longest by (simp add: get_str_def)
qed

text \<open>Together: a text without NUL survives the way to LLDB and back.\<close>

lemma string_round_trip:
  assumes "NUL \<notin> set s" "utf8_valid s"
  shows "with_cstr s get_str = Done (Some s)"
  using assms c_str_terminated [OF assms(1)] by (simp add: with_cstr_def get_str_def)

section \<open>Iterators, validity, errors\<close>

text \<open>
  What the wrapper classes of the crate have in common besides strings: iteration over an indexed collection
  (\<^verbatim>\<open>SBIterator\<close>), objects that may be invalid (\<^verbatim>\<open>IsValid::check\<close>), and calls that report an error in an object
  (\<^verbatim>\<open>SBError::into_result\<close>).
\<close>

lemma unat_next:
  fixes w v :: u32
  assumes "w < v"
  shows "unat (w + 1) = Suc (unat w)"
  using assms unsigned_less [of v, where 'a = nat] by (simp add: unat_word_ariths word_less_nat_alt)

record 'a sb_iterator =
  iter_size :: u32
  iter_get_item :: "u32 \<Rightarrow> 'a"
  iter_index :: u32

definition sb_iterator_new :: "u32 \<Rightarrow> (u32 \<Rightarrow> 'a) \<Rightarrow> 'a sb_iterator" where
  "sb_iterator_new n get_item = \<lparr>iter_size = n, iter_get_item = get_item, iter_index = 0\<rparr>"

definition sb_iterator_next :: "'a sb_iterator \<Rightarrow> ('a \<times> 'a sb_iterator) option" where
  "sb_iterator_next it =
     (if iter_index it < iter_size it
      then let it = it\<lparr>iter_index := iter_index it + 1\<rparr> in Some (iter_get_item it (iter_index it - 1), it)
      else None)"

function sb_iterator_collect :: "'a sb_iterator \<Rightarrow> 'a list" where
  "sb_iterator_collect it = (case sb_iterator_next it of None \<Rightarrow> [] | Some (x, it') \<Rightarrow> x # sb_iterator_collect it')"
  by pat_completeness auto
termination
proof (relation "measure (\<lambda>it. unat (iter_size it) - unat (iter_index it))", goal_cases)
  case (2 it r x it')
  then have less: "iter_index it < iter_size it" and it': "it' = it\<lparr>iter_index := iter_index it + 1\<rparr>"
    by (auto simp: sb_iterator_next_def Let_def split: if_splits)
  then have "unat (iter_index it + 1) = Suc (unat (iter_index it))"
    by (intro unat_next)
  then show ?case using less by (simp add: it' word_less_nat_alt)
qed simp

declare sb_iterator_collect.simps [simp del]

definition check :: "('a \<Rightarrow> bool) \<Rightarrow> 'a \<Rightarrow> 'a option" where
  "check is_valid x = (if is_valid x then Some x else None)"

definition into_result :: "('e \<Rightarrow> bool) \<Rightarrow> 'e \<Rightarrow> 'e + unit" where
  "into_result is_failure e = (if is_failure e then Inl e else Inr ())"

text \<open>\<^verbatim>\<open>SBEnvironment::set\<close>: the last argument of the C++ function is a constant.\<close>

definition environment_set_wrapper :: "(c_ptr \<Rightarrow> c_ptr \<Rightarrow> bool \<Rightarrow> 'r) \<Rightarrow> string \<Rightarrow> string \<Rightarrow> bool \<Rightarrow> 'r exec" where
  "environment_set_wrapper set_var name val overwrite =
     (case with_cstr name (\<lambda>n. with_cstr val (\<lambda>v. set_var n v True)) of Panic \<Rightarrow> Panic | Done r \<Rightarrow> r)"

text \<open>Iteration yields every element once, in order.\<close>

lemma sb_iterator_from:
  assumes "iter_index it \<le> iter_size it"
  shows "sb_iterator_collect it = map (\<lambda>i. iter_get_item it (of_nat i)) [unat (iter_index it)..<unat (iter_size it)]"
  using assms
proof (induction it rule: sb_iterator_collect.induct)
  case (1 it)
  show ?case
  proof (cases "iter_index it < iter_size it")
    case True
    let ?it = "it\<lparr>iter_index := iter_index it + 1\<rparr>"
    have suc: "unat (iter_index it + 1) = Suc (unat (iter_index it))"
      using True by (rule unat_next)
    have next_it: "sb_iterator_next it = Some (iter_get_item it (iter_index it), ?it)"
      using True by (simp add: sb_iterator_next_def)
    have "iter_index ?it \<le> iter_size ?it" using True suc by (simp add: word_le_nat_alt word_less_nat_alt)
    then have "sb_iterator_collect ?it = map (\<lambda>i. iter_get_item it (of_nat i)) [Suc (unat (iter_index it))..<unat (iter_size it)]"
      using "1.IH" [OF next_it refl] suc by simp
    then show ?thesis
      using True next_it by (subst sb_iterator_collect.simps) (simp add: word_less_nat_alt upt_conv_Cons)
  next
    case False
    then show ?thesis by (subst sb_iterator_collect.simps) (simp add: sb_iterator_next_def word_less_nat_alt)
  qed
qed

lemma sb_iterator_complete:
  "sb_iterator_collect (sb_iterator_new n get_item) = map (\<lambda>i. get_item (of_nat i)) [0..<unat n]"
  using sb_iterator_from [of "sb_iterator_new n get_item"] by (simp add: sb_iterator_new_def)

text \<open>Asking not to overwrite a variable makes no difference.\<close>

lemma environment_set_overwrites: "environment_set_wrapper f name val False = environment_set_wrapper f name val True"
  by (simp add: environment_set_wrapper_def)

end
