(* ===== verification/Console.thy ===== *)
theory Console
  imports Messages Lldb_Strings
begin

text \<open>
  The console of the debugger (\<^verbatim>\<open>DebugSession::pipe_console_ouput\<close>): what LLDB and Python print to a pipe is
  sent to the client as output events, by lines.  The lines are cut by a \<^verbatim>\<open>LineWriter\<close> of the standard library
  around a \<^verbatim>\<open>Cursor\<close> into a vector; both are modelled as the library implements them.
\<close>

section \<open>Cursor and line writer\<close>

record line_writer =
  pending :: string
  cursor_data :: string
  cursor_pos :: nat

definition line_writer_new :: line_writer where
  "line_writer_new = \<lparr>pending = [], cursor_data = [], cursor_pos = 0\<rparr>"

text \<open>The capacity of the buffer of a \<^verbatim>\<open>LineWriter\<close>.\<close>

definition writer_capacity :: nat where
  "writer_capacity = 1024"

definition cursor_write :: "string \<Rightarrow> line_writer \<Rightarrow> line_writer" where
  "cursor_write buf w =
     w\<lparr>cursor_data := take (cursor_pos w) (cursor_data w) @ buf @ drop (cursor_pos w + length buf) (cursor_data w),
       cursor_pos := cursor_pos w + length buf\<rparr>"

definition flush_buf :: "line_writer \<Rightarrow> line_writer" where
  "flush_buf w = (if pending w = [] then w else (cursor_write (pending w) w)\<lparr>pending := []\<rparr>)"

text \<open>\<^verbatim>\<open>BufWriter::write\<close>: what does not fit flushes the buffer, and what is as large as the buffer bypasses it.\<close>

definition buf_write :: "string \<Rightarrow> line_writer \<Rightarrow> line_writer" where
  "buf_write buf w =
     (if length buf < writer_capacity - length (pending w) then w\<lparr>pending := pending w @ buf\<rparr>
      else let w = (if length buf > writer_capacity - length (pending w) then flush_buf w else w)
           in if length buf \<ge> writer_capacity then cursor_write buf w else w\<lparr>pending := pending w @ buf\<rparr>)"

text \<open>\<^verbatim>\<open>LineWriter::write\<close>: everything up to the last newline goes to the cursor, the rest is buffered as far as it
  fits.\<close>

definition after_newline :: "string \<Rightarrow> string" where
  "after_newline s = rev (takeWhile (\<lambda>c. c \<noteq> LF) (rev s))"

definition line_write :: "string \<Rightarrow> line_writer \<Rightarrow> line_writer" where
  "line_write buf w =
     (if LF \<notin> set buf
      then buf_write buf (if pending w \<noteq> [] \<and> last (pending w) = LF then flush_buf w else w)
      else let tail = after_newline buf;
               lines = take (length buf - length tail) buf;
               w = cursor_write lines (flush_buf w)
           in w\<lparr>pending := pending w @ take (writer_capacity - length (pending w)) tail\<rparr>)"

section \<open>The loop\<close>

definition console_event :: "string \<Rightarrow> event_body" where
  "console_event out =
     Ev_output (default_output_event_body\<lparr>oe_output := utf8_lossy out, oe_category := Some ''console''\<rparr>)"

text \<open>A read of the pipe fails, or returns at most 1024 bytes, none at the end of the stream.\<close>

type_synonym console_read = "unit + string"

text \<open>What one read adds to the events, and the writer afterwards.\<close>

definition console_chunk :: "string \<Rightarrow> line_writer \<Rightarrow> string option \<times> line_writer" where
  "console_chunk data w =
     (let w = line_write data w
      in if cursor_pos w > 0 then (Some (take (cursor_pos w) (cursor_data w)), w\<lparr>cursor_pos := 0\<rparr>) else (None, w))"

fun pipe_console_ouput :: "console_read list \<Rightarrow> line_writer \<Rightarrow> event_body list \<times> line_writer" where
  "pipe_console_ouput [] w = ([], w)"
| "pipe_console_ouput (Inl _ # reads) w = pipe_console_ouput reads w"
| "pipe_console_ouput (Inr data # reads) w =
     (if data = [] then ([], w)
      else let (out, w) = console_chunk data w; (events, w') = pipe_console_ouput reads w
           in (case out of None \<Rightarrow> events | Some text \<Rightarrow> console_event text # events, w'))"

section \<open>Nothing is lost or reordered\<close>

text \<open>Between reads the cursor is at its start, and only an unfinished line is kept back.\<close>

definition console_inv :: "line_writer \<Rightarrow> bool" where
  "console_inv w \<longleftrightarrow> cursor_pos w = 0 \<and> LF \<notin> set (pending w) \<and> length (pending w) \<le> writer_capacity"

lemma console_inv_new: "console_inv line_writer_new"
  by (simp add: console_inv_def line_writer_new_def)

lemma cursor_write_fields [simp]:
  "pending (cursor_write buf w) = pending w" "cursor_pos (cursor_write buf w) = cursor_pos w + length buf"
  by (simp_all add: cursor_write_def)

text \<open>The bytes before the position of the cursor.\<close>

definition written :: "line_writer \<Rightarrow> string" where
  "written w = take (cursor_pos w) (cursor_data w)"

lemma written_cursor_write:
  "cursor_pos w \<le> length (cursor_data w) \<Longrightarrow> written (cursor_write buf w) = written w @ buf"
  by (simp add: written_def cursor_write_def)

lemma after_newline_split:
  "\<exists>lines. s = lines @ after_newline s \<and> LF \<notin> set (after_newline s) \<and> (LF \<in> set s \<longrightarrow> lines \<noteq> [] \<and> last lines = LF)"
proof -
  let ?d = "dropWhile (\<lambda>c. c \<noteq> LF) (rev s)"
  have "s = rev (takeWhile (\<lambda>c. c \<noteq> LF) (rev s) @ ?d)" by simp
  then have s: "s = rev ?d @ after_newline s" unfolding after_newline_def by (metis rev_append)
  have "LF \<notin> set (after_newline s)" by (auto simp: after_newline_def dest: set_takeWhileD)
  moreover have "rev ?d \<noteq> [] \<and> last (rev ?d) = LF" if "LF \<in> set s"
  proof -
    have ne: "?d \<noteq> []" using that by (auto simp: dropWhile_eq_Nil_conv)
    then show ?thesis using hd_dropWhile [OF ne] by (simp add: last_rev)
  qed
  ultimately show ?thesis using s by blast
qed

lemma flush_buf_fields:
  assumes "cursor_pos w \<le> length (cursor_data w)"
  shows "pending (flush_buf w) = []" "written (flush_buf w) = written w @ pending w"
    "cursor_pos (flush_buf w) \<le> length (cursor_data (flush_buf w))"
  using assms by (auto simp: flush_buf_def written_def cursor_write_def)

lemma line_write_newline:
  assumes "console_inv w" "length data \<le> 1024" "LF \<in> set data"
  shows "\<exists>lines. data = lines @ after_newline data \<and> lines \<noteq> [] \<and> last lines = LF \<and>
    written (line_write data w) = pending w @ lines \<and> pending (line_write data w) = after_newline data \<and>
    0 < cursor_pos (line_write data w)"
proof -
  obtain lines where l: "data = lines @ after_newline data" "lines \<noteq> []" "last lines = LF"
    using after_newline_split [of data] assms(3) by blast
  have cur: "cursor_pos w \<le> length (cursor_data w)" using assms(1) by (simp add: console_inv_def)
  note f = flush_buf_fields [OF cur]
  have "length data = length lines + length (after_newline data)" by (subst l(1)) simp
  then have "length (after_newline data) < 1024" using l(2) assms(2) by (cases lines) auto
  moreover have "take (length data - length (after_newline data)) data = lines"
    using l(1) by (metis add_diff_cancel_right' append_eq_conv_conj length_append)
  moreover have "written w = []" using assms(1) by (simp add: console_inv_def written_def)
  ultimately have "written (line_write data w) = pending w @ lines" "pending (line_write data w) = after_newline data"
    using assms(3) f written_cursor_write [OF f(3), of lines]
    by (simp_all add: line_write_def Let_def writer_capacity_def written_def)
  moreover have "0 < cursor_pos (line_write data w)"
    using \<open>take _ data = lines\<close> l(2) assms(3) by (simp add: line_write_def Let_def)
  ultimately show ?thesis using l by blast
qed

lemma line_write_no_newline:
  assumes "console_inv w" "length data \<le> 1024" "LF \<notin> set data"
  shows "written (line_write data w) @ pending (line_write data w) = pending w @ data \<and>
    length (pending (line_write data w)) \<le> 1024 \<and>
    (length (pending w @ data) < 1024 \<longrightarrow> cursor_pos (line_write data w) = 0)"
proof -
  have cur: "cursor_pos w \<le> length (cursor_data w)" "written w = []" "cursor_pos w = 0" "length (pending w) \<le> 1024"
    using assms(1) by (simp_all add: console_inv_def written_def writer_capacity_def)
  note f = flush_buf_fields [OF cur(1)]
  have "pending w = [] \<or> last (pending w) \<noteq> LF" using assms(1) last_in_set by (fastforce simp: console_inv_def)
  then have w: "line_write data w = buf_write data w" using assms(3) by (auto simp: line_write_def)
  show ?thesis
    unfolding w using assms(2) cur f written_cursor_write [OF cur(1), of data] written_cursor_write [OF f(3), of data]
    by (cases "pending w") (auto simp: buf_write_def Let_def writer_capacity_def written_def)
qed

lemma cursor_in_data:
  assumes "console_inv w" "LF \<notin> set data"
  shows "cursor_pos (line_write data w) \<le> length (cursor_data (line_write data w))"
proof -
  have cw: "cursor_pos v \<le> length (cursor_data v) \<Longrightarrow> cursor_pos (cursor_write b v) \<le> length (cursor_data (cursor_write b v))" for b v
    by (simp add: cursor_write_def)
  have cur: "cursor_pos w \<le> length (cursor_data w)" using assms(1) by (simp add: console_inv_def)
  have bw: "cursor_pos v \<le> length (cursor_data v) \<Longrightarrow> cursor_pos (buf_write b v) \<le> length (cursor_data (buf_write b v))" for b v
    using flush_buf_fields(3) [of v] cw [of v b] cw [of "flush_buf v" b] by (simp add: buf_write_def Let_def del: cursor_write_fields)
  show ?thesis using assms(2) bw [OF cur] bw [OF flush_buf_fields(3) [OF cur]] by (simp add: line_write_def)
qed

lemma console_chunk_cases:
  assumes "console_inv w" "length data \<le> 1024" "console_chunk data w = (out, w')"
  shows "console_inv w' \<and> (case out of None \<Rightarrow> [] | Some t \<Rightarrow> t) @ pending w' = pending w @ data \<and>
    (\<forall>t. out = Some t \<longrightarrow> t \<noteq> [] \<and> (LF \<in> set data \<or> length (pending w @ data) < 1024 \<longrightarrow> last t = LF))"
proof -
  let ?w = "line_write data w"
  have out: "out = (if cursor_pos ?w > 0 then Some (written ?w) else None)" "pending w' = pending ?w" "cursor_pos w' = 0"
    using assms(3) by (auto simp: console_chunk_def written_def Let_def split: if_splits)
  have w0: "cursor_pos ?w = 0 \<Longrightarrow> written ?w = []" by (simp add: written_def)
  show ?thesis
  proof (cases "LF \<in> set data")
    case True
    then obtain lines where l: "data = lines @ after_newline data" "lines \<noteq> []" "last lines = LF"
      "written ?w = pending w @ lines" "pending ?w = after_newline data" "0 < cursor_pos ?w"
      using line_write_newline [OF assms(1,2)] by blast
    have "length data = length lines + length (after_newline data)" by (subst l(1)) simp
    then have "length (after_newline data) \<le> writer_capacity" using assms(2) by (simp add: writer_capacity_def)
    moreover have "LF \<notin> set (after_newline data)" using after_newline_split by blast
    moreover have "pending w @ data = (pending w @ lines) @ after_newline data" using l(1) by simp
    ultimately show ?thesis using out l by (simp add: console_inv_def)
  next
    case False
    note n = line_write_no_newline [OF assms(1,2) False]
    have "LF \<notin> set (written ?w @ pending ?w)" using n False assms(1) by (metis Un_iff console_inv_def set_append)
    then have "LF \<notin> set (pending ?w)" by simp
    moreover have "written ?w \<noteq> []" if "cursor_pos ?w > 0" using that cursor_in_data [OF assms(1) False] by (auto simp: written_def)
    ultimately show ?thesis using out n w0 False by (auto simp: console_inv_def writer_capacity_def)
  qed
qed

text \<open>No line of a text is as long as the buffer.\<close>

definition short_lines :: "string \<Rightarrow> bool" where
  "short_lines s \<longleftrightarrow> (\<forall>u v t. s = u @ v @ t \<longrightarrow> LF \<notin> set v \<longrightarrow> length v < 1024)"

lemma short_lines_suffix: "short_lines (u @ v) \<Longrightarrow> short_lines v"
  unfolding short_lines_def by (metis append_assoc)

lemma short_lines_prefix: "short_lines (v @ t) \<Longrightarrow> LF \<notin> set v \<Longrightarrow> length v < 1024"
  unfolding short_lines_def by (metis append_Nil)

lemma pipe_console_texts:
  "console_inv w \<Longrightarrow> list_all (\<lambda>d. d \<noteq> [] \<and> length d \<le> 1024) chunks \<Longrightarrow>
   pipe_console_ouput (map Inr chunks) w = (events, w') \<Longrightarrow>
   \<exists>texts. events = map console_event texts \<and> concat texts @ pending w' = pending w @ concat chunks \<and> console_inv w' \<and>
     (short_lines (pending w @ concat chunks) \<longrightarrow> list_all (\<lambda>t. t \<noteq> [] \<and> last t = LF) texts)"
proof (induction chunks arbitrary: w events)
  case Nil
  then show ?case by auto
next
  case (Cons d chunks)
  obtain out v where c: "console_chunk d w = (out, v)" by fastforce
  obtain evs where p: "pipe_console_ouput (map Inr chunks) v = (evs, w')" using Cons.prems c by (auto split: prod.splits)
  have d: "length d \<le> 1024" "d \<noteq> []" using Cons.prems(2) by auto
  note ch = console_chunk_cases [OF Cons.prems(1) d(1) c]
  let ?front = "case out of None \<Rightarrow> [] | Some t \<Rightarrow> t"
  obtain texts where t: "evs = map console_event texts" "concat texts @ pending w' = pending v @ concat chunks" "console_inv w'"
    "short_lines (pending v @ concat chunks) \<longrightarrow> list_all (\<lambda>t. t \<noteq> [] \<and> last t = LF) texts"
    using Cons.IH [OF _ _ p] ch Cons.prems(2) by auto
  let ?texts = "case out of None \<Rightarrow> texts | Some x \<Rightarrow> x # texts"
  have "events = map console_event ?texts" using Cons.prems(3) c p t(1) d(2) by (auto split: option.splits)
  moreover have all: "pending w @ d @ concat chunks = ?front @ pending v @ concat chunks"
    using ch by (metis append_assoc)
  then have "concat ?texts @ pending w' = pending w @ concat (d # chunks)" using t(2) by (auto split: option.splits)
  moreover have "list_all (\<lambda>t. t \<noteq> [] \<and> last t = LF) ?texts" if short: "short_lines (pending w @ concat (d # chunks))"
  proof -
    have "short_lines (pending v @ concat chunks)" using short all short_lines_suffix by auto
    moreover have "LF \<in> set d \<or> length (pending w @ d) < 1024"
      using short short_lines_prefix [of "pending w @ d" "concat chunks"] Cons.prems(1) by (auto simp: console_inv_def)
    ultimately show ?thesis using t(4) ch by (auto split: option.splits)
  qed
  ultimately show ?case using t(3) by blast
qed

text \<open>Text that ends with a newline can be cut off valid text.\<close>

lemma utf8_continuation:
  "utf8_first (a # s) = (k, True) \<Longrightarrow> list_all (\<lambda>c. 128 \<le> byte c) (take (k - 1) s)"
  by (auto simp: is_cont_def byte_in_def second_ok_def split: list.splits if_splits)

lemma utf8_valid_newline:
  "utf8_valid (u @ LF # v) \<Longrightarrow> utf8_valid (u @ [LF]) \<and> utf8_valid v"
proof (induction u rule: length_induct)
  case (1 u)
  show ?case
  proof (cases u)
    case Nil
    then show ?thesis using "1.prems" by simp
  next
    case (Cons a r)
    let ?s = "u @ LF # v"
    obtain k where k: "0 < k" "utf8_first ?s = (k, True)"
      using utf8_valid_first_char [of a "r @ LF # v" "[]"] "1.prems" Cons by auto
    note ok = utf8_first_ok [OF k(2)]
    have "k \<le> length u"
    proof (rule ccontr)
      assume "\<not> k \<le> length u"
      then have "LF \<in> set (take (k - 1) (r @ LF # v))" using Cons by (cases "k - 1 - length r") auto
      moreover have "list_all (\<lambda>c. 128 \<le> byte c) (take (k - 1) (r @ LF # v))"
        using utf8_continuation [of a "r @ LF # v" k] k(2) by (simp only: Cons append_Cons)
      ultimately show False by (auto simp: list_all_iff simp del: take_append)
    qed
    then have t: "take k ?s = take k u" "drop k ?s = drop k u @ LF # v" by simp_all
    have "utf8_valid (drop k u @ LF # v)" using ok [of "drop k ?s"] "1.prems" t(2) by (metis append_take_drop_id)
    moreover have "length (drop k u) < length u" using k(1) Cons by simp
    ultimately have "utf8_valid (drop k u @ [LF])" "utf8_valid v" using "1.IH" by blast+
    then show ?thesis using ok [of "drop k u @ [LF]"] t(1) by (metis append_assoc append_take_drop_id)
  qed
qed

lemma lines_valid:
  "list_all (\<lambda>t. t \<noteq> [] \<and> last t = LF) texts \<Longrightarrow> utf8_valid (concat texts @ rest) \<Longrightarrow> list_all utf8_valid texts"
proof (induction texts)
  case (Cons t texts)
  then have "t \<noteq> []" "last t = LF" by simp_all
  then obtain u where "t = u @ [LF]" by (metis append_butlast_last_id)
  then show ?case using Cons utf8_valid_newline [of u "concat texts @ rest"] by auto
qed simp

text \<open>
  Property C24.  Everything printed to the console is sent, in order: the texts of the output events
  followed by what is kept back are what was read, however it was cut into reads.  (The loop waits while the outgoing
  queue is full, so that it drops nothing as long as the dispatcher runs.)  Only an unfinished line is kept
  back, and at most as much as the buffer holds.  If the text is valid and its lines are shorter than the buffer,
  every event consists of whole lines and shows them exactly.
\<close>

theorem console_by_lines:
  assumes "list_all (\<lambda>d. d \<noteq> [] \<and> length d \<le> 1024) chunks"
    and "pipe_console_ouput (map Inr chunks) line_writer_new = (events, w)"
  shows "\<exists>texts. events = map console_event texts \<and> concat texts @ pending w = concat chunks \<and>
    LF \<notin> set (pending w) \<and> length (pending w) \<le> 1024 \<and>
    (short_lines (concat chunks) \<and> utf8_valid (concat chunks) \<longrightarrow>
       list_all (\<lambda>t. last t = LF) texts \<and>
       events = map (\<lambda>t. Ev_output (default_output_event_body\<lparr>oe_output := t, oe_category := Some ''console''\<rparr>)) texts)"
proof -
  obtain texts where t: "events = map console_event texts" "concat texts @ pending w = concat chunks" "console_inv w"
    "short_lines (concat chunks) \<longrightarrow> list_all (\<lambda>t. t \<noteq> [] \<and> last t = LF) texts"
    using pipe_console_texts [OF console_inv_new assms] by (auto simp: line_writer_new_def)
  have "list_all (\<lambda>t. last t = LF) texts \<and> list_all utf8_valid texts"
    if "short_lines (concat chunks)" "utf8_valid (concat chunks)"
    using that t(2,4) lines_valid [of texts "pending w"] by (auto simp: list_all_iff)
  then show ?thesis
    using t by (intro exI [of _ texts]) (auto simp: console_inv_def writer_capacity_def console_event_def utf8_lossy_valid list_all_iff)
qed

text \<open>A line that arrives in two reads is sent when it is complete, the beginning of the next one is not.\<close>

theorem console_by_lines_witness:
  "\<exists>texts. fst (pipe_console_ouput (map Inr [''ab'', ''c'' @ [LF] @ ''d'']) line_writer_new) = map console_event texts \<and>
     concat texts @ ''d'' = ''abc'' @ [LF] @ ''d''"
proof -
  let ?chunks = "[''ab'', ''c'' @ [LF] @ ''d'']"
  obtain events w where p: "pipe_console_ouput (map Inr ?chunks) line_writer_new = (events, w)" by fastforce
  then have "pending w = ''d''"
    by (auto simp: console_chunk_def line_write_def buf_write_def line_writer_new_def writer_capacity_def Let_def
        after_newline_def flush_buf_def cursor_write_def split: prod.splits if_splits)
  then show ?thesis using console_by_lines [OF _ p] p by auto
qed

end
