(* ===== verification/Python_Interface.thy ===== *)
theory Python_Interface
  imports Session_Events Fsutil
begin

text \<open>
  The interface to the Python interpreter inside LLDB (\<^verbatim>\<open>python.rs\<close>).  One interface
  serves all debug sessions of the process.  Rust calls Python through eight function pointers, which Python
  hands over when it is initialized; Python sends events through a callback that routes them to the channel of
  a session.

  What is behind the pointers, and LLDB's command interpreter, are parameters: the record \<open>py_abi\<close> says what a
  call of a pointer does to the state of the debugger and the interpreter.
\<close>

section \<open>The interface\<close>

text \<open>The result of a call; it stays \<open>PyInvalid\<close> when Python does not write to it.\<close>

datatype 'a py_result = PyInvalid | PyOk 'a | PyErr string

datatype exec_context = InFrame sbframe | InTarget sbtarget

fun eval_context_code :: "eval_context \<Rightarrow> int" where
  "eval_context_code StatementsContext = 0"
| "eval_context_code PythonExpressionContext = 1"
| "eval_context_code SimpleExpressionContext = 2"

record python_calls =
  pc_session_init :: u64
  pc_session_deinit :: u64
  pc_interrupt :: u64
  pc_drop_pyobject :: u64
  pc_handle_message :: u64
  pc_compile_code :: u64
  pc_evaluate_as_sbvalue :: u64
  pc_evaluate_as_bool :: u64

text \<open>
  What happens when a pointer is called as a function of one of the eight types.  \<open>init_calls\<close> are the pointers
  that Python passes to the callback while a command runs, call by call.  The last two are the JSON of
  settings and of events.
\<close>

record 'l py_abi =
  call_session_init :: "u64 \<Rightarrow> u64 \<Rightarrow> nat \<Rightarrow> 'l \<Rightarrow> 'l"
  call_session_deinit :: "u64 \<Rightarrow> u64 \<Rightarrow> 'l \<Rightarrow> 'l"
  call_interrupt :: "u64 \<Rightarrow> 'l \<Rightarrow> 'l"
  call_drop_pyobject :: "u64 \<Rightarrow> pyobject \<Rightarrow> 'l \<Rightarrow> 'l"
  call_handle_message :: "u64 \<Rightarrow> string \<Rightarrow> 'l \<Rightarrow> bool \<times> 'l"
  call_compile_code :: "u64 \<Rightarrow> string \<Rightarrow> string \<Rightarrow> 'l \<Rightarrow> pyobject py_result \<times> 'l"
  call_evaluate_as_sbvalue :: "u64 \<Rightarrow> pyobject \<Rightarrow> exec_context \<Rightarrow> int \<Rightarrow> 'l \<Rightarrow> sbvalue py_result \<times> 'l"
  call_evaluate_as_bool :: "u64 \<Rightarrow> pyobject \<Rightarrow> exec_context \<Rightarrow> int \<Rightarrow> 'l \<Rightarrow> bool py_result \<times> 'l"
  init_calls :: "string \<Rightarrow> 'l \<Rightarrow> u64 list list"
  debug_text :: "command_result \<Rightarrow> string"
  dummy_target :: sbtarget
  settings_to_json :: "adapter_settings \<Rightarrow> string + string"
  event_from_json :: "string \<Rightarrow> python_event option"

text \<open>A channel of \<^verbatim>\<open>tokio::sync::mpsc\<close>, with room for 100 events.\<close>

record event_channel =
  queued :: "python_event list"
  receiver_alive :: bool

definition channel_capacity :: nat where
  "channel_capacity = 100"

text \<open>\<open>event_channels\<close> are the channels created so far; a sender is the position of its channel.\<close>

record python_interface =
  adapter_dir :: string
  py :: "python_calls must_initialize"
  session_event_senders :: "(u64 \<times> nat) list"
  event_channels :: "event_channel list"

section \<open>Initialization\<close>

datatype log_level = LevelOff | LevelError | LevelWarn | LevelInfo | LevelDebug | LevelTrace

fun py_log_level :: "log_level \<Rightarrow> nat" where
  "py_log_level LevelError = 40"
| "py_log_level LevelWarn = 30"
| "py_log_level LevelInfo = 20"
| "py_log_level LevelDebug = 10"
| "py_log_level LevelTrace = 0"
| "py_log_level LevelOff = 0"

definition init_callback :: "python_interface \<Rightarrow> u64 list \<Rightarrow> python_interface" where
  "init_callback interface pointers =
     (if length pointers \<noteq> 8 then interface
      else interface\<lparr>py := Initialized
        \<lparr>pc_session_init = pointers ! 0, pc_session_deinit = pointers ! 1, pc_interrupt = pointers ! 2,
         pc_drop_pyobject = pointers ! 3, pc_handle_message = pointers ! 4, pc_compile_code = pointers ! 5,
         pc_evaluate_as_sbvalue = pointers ! 6, pc_evaluate_as_bool = pointers ! 7\<rparr>\<rparr>)"

text \<open>\<^verbatim>\<open>Path::join\<close> with a relative path, and the text of a pointer.\<close>

definition join_path :: "string \<Rightarrow> string \<Rightarrow> string" where
  "join_path dir rel = (if dir = [] \<or> last dir = CHR ''/'' then dir @ rel else dir @ ''/'' @ rel)"

definition show_pointer :: "u64 \<Rightarrow> string" where
  "show_pointer p = ''0x'' @ show_hex (unat p)"

definition import_command :: "string \<Rightarrow> string" where
  "import_command script = ''command script import '' @ lldb_quoted_string script"

definition initialize_command :: "u64 \<Rightarrow> u64 \<Rightarrow> u64 \<Rightarrow> log_level \<Rightarrow> string" where
  "initialize_command callback interface event_callback level =
     ''script codelldb.interface.initialize('' @ show_pointer callback @ '', '' @ show_pointer interface @ '', '' @
     show_pointer event_callback @ '', '' @ show_nat (py_log_level level) @ '')''"

text \<open>The addresses of the two callbacks and of the interface are what the linker and the allocator chose.\<close>

definition initialize ::
  "'l command_api \<Rightarrow> 'l py_abi \<Rightarrow> u64 \<Rightarrow> u64 \<Rightarrow> u64 \<Rightarrow> log_level \<Rightarrow> string \<Rightarrow> 'l \<Rightarrow> (string + python_interface) \<times> 'l" where
  "initialize C P callback address event_callback level dir l =
     (let (result, l) = handle_command C l (import_command (join_path dir ''scripts/codelldb''))
      in if \<not> cmd_succeeded result then (Inl (debug_text P result), l)
         else
           let interface = \<lparr>adapter_dir = dir, py = NotInitialized, session_event_senders = [], event_channels = []\<rparr>;
               command = initialize_command callback address event_callback level;
               interface = foldl init_callback interface (init_calls P command l);
               (result, l) = handle_command C l command
           in if \<not> cmd_succeeded result then (Inl (debug_text P result), l)
              else if \<not> is_initialized (py interface) then (Inl ''Could not initialize Python environment.'', l)
              else let (_, l) = handle_command C l (import_command (join_path dir ''scripts/debugger.py''))
                   in (Inr interface, l))"

section \<open>Sessions\<close>

text \<open>The event channel of the new session is the last one of the result.\<close>

definition new_session :: "'l py_abi \<Rightarrow> u64 \<Rightarrow> nat \<Rightarrow> python_interface \<times> 'l \<Rightarrow> (python_interface \<times> 'l) exec" where
  "new_session P debugger_id console_fd = (\<lambda>(interface, l).
     exec_bind (mi_deref (py interface)) (\<lambda>calls.
       let channel = length (event_channels interface)
       in Done (interface\<lparr>event_channels := event_channels interface @ [\<lparr>queued = [], receiver_alive = True\<rparr>],
             session_event_senders := hm_insert debugger_id channel (session_event_senders interface)\<rparr>,
           call_session_init P (pc_session_init calls) debugger_id console_fd l)))"

text \<open>\<^verbatim>\<open>try_send\<close> fails, which is only logged, when the channel is full or nobody receives any more.\<close>

definition try_send :: "python_event \<Rightarrow> event_channel \<Rightarrow> event_channel" where
  "try_send ev ch =
     (if receiver_alive ch \<and> length (queued ch) < channel_capacity then ch\<lparr>queued := queued ch @ [ev]\<rparr> else ch)"

definition dispatch_python_event :: "u64 \<Rightarrow> python_event \<Rightarrow> python_interface \<Rightarrow> python_interface" where
  "dispatch_python_event session_id ev interface =
     (case hm_get (session_event_senders interface) session_id of
        Some k \<Rightarrow> interface\<lparr>event_channels := (event_channels interface)[k := try_send ev (event_channels interface ! k)]\<rparr>
      | None \<Rightarrow> interface)"

text \<open>A \<^verbatim>\<open>c_int\<close> is sign-extended by \<^verbatim>\<open>as u64\<close>.\<close>

definition python_event_callback :: "'l py_abi \<Rightarrow> 32 word \<Rightarrow> string \<Rightarrow> python_interface \<Rightarrow> python_interface" where
  "python_event_callback P session_id event interface =
     (case event_from_json P event of
        Some ev \<Rightarrow> dispatch_python_event (scast session_id) ev interface
      | None \<Rightarrow> interface)"

definition drop_session :: "'l py_abi \<Rightarrow> u64 \<Rightarrow> python_interface \<times> 'l \<Rightarrow> (python_interface \<times> 'l) exec" where
  "drop_session P debugger_id = (\<lambda>(interface, l).
     exec_bind (mi_deref (py interface)) (\<lambda>calls.
       Done (interface\<lparr>session_event_senders := hm_remove debugger_id (session_event_senders interface)\<rparr>,
         call_session_deinit P (pc_session_deinit calls) debugger_id l)))"

text \<open>The receiving end, in the event loop of the session, and its end.\<close>

definition receive_event :: "nat \<Rightarrow> python_interface \<Rightarrow> python_event option \<times> python_interface" where
  "receive_event k interface =
     (case queued (event_channels interface ! k) of
        [] \<Rightarrow> (None, interface)
      | ev # evs \<Rightarrow> (Some ev, interface\<lparr>event_channels := (event_channels interface)[k := (event_channels interface ! k)\<lparr>queued := evs\<rparr>]\<rparr>))"

definition close_receiver :: "nat \<Rightarrow> python_interface \<Rightarrow> python_interface" where
  "close_receiver k interface =
     interface\<lparr>event_channels := (event_channels interface)[k := \<lparr>queued = [], receiver_alive = False\<rparr>]\<rparr>"

section \<open>Calls into Python\<close>

text \<open>The outcome of a call, as the caller sees it.\<close>

fun py_outcome :: "'a py_result \<Rightarrow> string + 'a" where
  "py_outcome (PyOk x) = Inr x"
| "py_outcome (PyErr e) = Inl e"
| "py_outcome PyInvalid = Inl ''Evaluation failed''"

definition session_handle_message :: "'l py_abi \<Rightarrow> python_interface \<Rightarrow> string \<Rightarrow> 'l \<Rightarrow> (bool \<times> 'l) exec" where
  "session_handle_message P interface json l =
     exec_bind (mi_deref (py interface)) (\<lambda>calls. Done (call_handle_message P (pc_handle_message calls) json l))"

definition session_compile_code ::
  "'l py_abi \<Rightarrow> python_interface \<Rightarrow> string \<Rightarrow> string \<Rightarrow> 'l \<Rightarrow> ((string + pyobject) \<times> 'l) exec" where
  "session_compile_code P interface expr filename l =
     exec_bind (mi_deref (py interface)) (\<lambda>calls.
       let (r, l) = call_compile_code P (pc_compile_code calls) expr filename l in Done (py_outcome r, l))"

definition drop_code :: "'l py_abi \<Rightarrow> python_interface \<Rightarrow> pyobject \<Rightarrow> 'l \<Rightarrow> 'l exec" where
  "drop_code P interface obj l =
     exec_bind (mi_deref (py interface)) (\<lambda>calls. Done (call_drop_pyobject P (pc_drop_pyobject calls) obj l))"

definition session_evaluate ::
  "'l py_abi \<Rightarrow> python_interface \<Rightarrow> pyobject \<Rightarrow> exec_context \<Rightarrow> eval_context \<Rightarrow> 'l \<Rightarrow> ((string + sbvalue) \<times> 'l) exec" where
  "session_evaluate P interface code context ctx l =
     exec_bind (mi_deref (py interface)) (\<lambda>calls.
       let (r, l) = call_evaluate_as_sbvalue P (pc_evaluate_as_sbvalue calls) code context (eval_context_code ctx) l
       in Done (py_outcome r, l))"

definition session_evaluate_as_bool ::
  "'l py_abi \<Rightarrow> python_interface \<Rightarrow> pyobject \<Rightarrow> exec_context \<Rightarrow> eval_context \<Rightarrow> 'l \<Rightarrow> ((string + bool) \<times> 'l) exec" where
  "session_evaluate_as_bool P interface code context ctx l =
     exec_bind (mi_deref (py interface)) (\<lambda>calls.
       let (r, l) = call_evaluate_as_bool P (pc_evaluate_as_bool calls) code context (eval_context_code ctx) l
       in Done (py_outcome r, l))"

text \<open>The settings go to Python as a string literal in a statement; the code object is dropped at the end.\<close>

definition settings_statement :: "string \<Rightarrow> string" where
  "settings_statement settings_json =
     ''codelldb.interface.update_adapter_settings('' @ replicate 3 (CHR 0x22) @ settings_json @ replicate 3 (CHR 0x22) @
     '', globals())''"

definition session_update_adapter_settings ::
  "'l py_abi \<Rightarrow> python_interface \<Rightarrow> adapter_settings \<Rightarrow> 'l \<Rightarrow> ((string + unit) \<times> 'l) exec" where
  "session_update_adapter_settings P interface settings l =
     (case settings_to_json P settings of
        Inl err \<Rightarrow> Done (Inl err, l)
      | Inr settings_json \<Rightarrow>
          exec_bind (session_compile_code P interface (settings_statement settings_json) ''<string>'' l) (\<lambda>(r, l).
            case r of
              Inl err \<Rightarrow> Done (Inl err, l)
            | Inr code \<Rightarrow>
                exec_bind (session_evaluate P interface code (InTarget (dummy_target P)) StatementsContext l) (\<lambda>(r, l).
                exec_bind (drop_code P interface code l) (\<lambda>l. Done (map_sum id (\<lambda>_. ()) r, l)))))"

text \<open>The directory above the adapter's has to exist.\<close>

definition parent_dir :: "string \<Rightarrow> string option" where
  "parent_dir path =
     (let p = rev (dropWhile (\<lambda>c. c = CHR ''/'') (rev path))
      in if p = [] then None
         else if CHR ''/'' \<notin> set p then Some []
         else Some (let front = rev (dropWhile (\<lambda>c. c \<noteq> CHR ''/'') (rev p)); q = rev (dropWhile (\<lambda>c. c = CHR ''/'') (rev front))
                    in if q = [] then ''/'' else q))"

definition session_init_lang_support ::
  "'l command_api \<Rightarrow> 'l py_abi \<Rightarrow> python_interface \<Rightarrow> 'l \<Rightarrow> ((string + unit) \<times> 'l) exec" where
  "session_init_lang_support C P interface l =
     exec_bind (the_exec (parent_dir (adapter_dir interface))) (\<lambda>dir.
       let lang_support = join_path dir ''lang_support'';
           (result, l) = handle_command C l (''command script import '' @ [CHR 0x27] @ lang_support @ [CHR 0x27])
       in Done (if cmd_succeeded result then Inr () else Inl (debug_text P result), l))"

definition interrupt_sender :: "'l py_abi \<Rightarrow> python_interface \<Rightarrow> ('l \<Rightarrow> 'l) exec" where
  "interrupt_sender P interface =
     exec_bind (mi_deref (py interface)) (\<lambda>calls. Done (call_interrupt P (pc_interrupt calls)))"

section \<open>An interface that was set up can be used\<close>

lemma init_callback_py:
  "py (init_callback interface p) =
     (if length p = 8
      then Initialized
        \<lparr>pc_session_init = p ! 0, pc_session_deinit = p ! 1, pc_interrupt = p ! 2, pc_drop_pyobject = p ! 3,
         pc_handle_message = p ! 4, pc_compile_code = p ! 5, pc_evaluate_as_sbvalue = p ! 6, pc_evaluate_as_bool = p ! 7\<rparr>
      else py interface)"
  by (simp add: init_callback_def)

lemma foldl_init_callback:
  "is_initialized (py (foldl init_callback interface calls)) \<longleftrightarrow>
     is_initialized (py interface) \<or> list_ex (\<lambda>p. length p = 8) calls"
  by (induction calls arbitrary: interface) (simp_all add: init_callback_py)

lemma initialized_deref: "is_initialized m \<Longrightarrow> \<exists>x. mi_deref m = Done x"
  by (cases m) simp_all

text \<open>\<open>initialize\<close> returns only interfaces on which no call can panic for want of pointers.\<close>

lemma initialize_initialized:
  assumes "initialize C P callback address event_callback level dir l = (Inr interface, l')"
  shows "is_initialized (py interface) \<and> session_event_senders interface = [] \<and> event_channels interface = []"
proof -
  have "session_event_senders (foldl init_callback i calls) = session_event_senders i"
    "event_channels (foldl init_callback i calls) = event_channels i" for i calls
    by (induction calls arbitrary: i) (simp_all add: init_callback_def)
  then show ?thesis using assms by (auto simp: initialize_def Let_def split: prod.splits if_splits)
qed

section \<open>Events reach the session they are addressed to\<close>

text \<open>What may happen to the interface, in any order.\<close>

datatype py_op =
    OpNew u64 nat
  | OpDrop u64
  | OpEvent "32 word" string
  | OpReceive nat
  | OpClose nat

fun py_step :: "'l py_abi \<Rightarrow> py_op \<Rightarrow> python_interface \<times> 'l \<Rightarrow> (python_event option \<times> python_interface \<times> 'l) exec" where
  "py_step P (OpNew d fd) st = exec_bind (new_session P d fd st) (\<lambda>st. Done (None, st))"
| "py_step P (OpDrop d) st = exec_bind (drop_session P d st) (\<lambda>st. Done (None, st))"
| "py_step P (OpEvent sid event) (interface, l) = Done (None, python_event_callback P sid event interface, l)"
| "py_step P (OpReceive k) (interface, l) = (let (ev, interface) = receive_event k interface in Done (ev, interface, l))"
| "py_step P (OpClose k) (interface, l) = Done (None, close_receiver k interface, l)"

text \<open>A run of such steps, with what was received on channel \<open>k\<close>.\<close>

fun py_run :: "'l py_abi \<Rightarrow> nat \<Rightarrow> py_op list \<Rightarrow> python_interface \<times> 'l \<Rightarrow> (python_event list \<times> python_interface \<times> 'l) exec" where
  "py_run P k [] st = Done ([], st)"
| "py_run P k (op # ops) st =
     exec_bind (py_step P op st) (\<lambda>(ev, st).
     exec_bind (py_run P k ops st) (\<lambda>(evs, st).
       Done ((case ev of Some e \<Rightarrow> if op = OpReceive k then e # evs else evs | None \<Rightarrow> evs), st)))"

text \<open>The events that Python addresses to a session, and whether its channel has room for them when they arrive.\<close>

definition event_for :: "'l py_abi \<Rightarrow> u64 \<Rightarrow> py_op \<Rightarrow> python_event option" where
  "event_for P d op = (case op of OpEvent sid event \<Rightarrow> if scast sid = d then event_from_json P event else None | _ \<Rightarrow> None)"

definition addressed :: "'l py_abi \<Rightarrow> u64 \<Rightarrow> py_op list \<Rightarrow> python_event list" where
  "addressed P d ops = List.map_filter (event_for P d) ops"

fun has_room :: "'l py_abi \<Rightarrow> u64 \<Rightarrow> nat \<Rightarrow> py_op list \<Rightarrow> python_interface \<times> 'l \<Rightarrow> bool" where
  "has_room P d k [] st = True"
| "has_room P d k (op # ops) st =
     ((event_for P d op = None \<or> length (queued (event_channels (fst st) ! k)) < channel_capacity) \<and>
      (case py_step P op st of Panic \<Rightarrow> False | Done (_, st) \<Rightarrow> has_room P d k ops st))"

text \<open>Session \<open>d\<close> and no other sends to channel \<open>k\<close>, and somebody receives.\<close>

definition owns :: "python_interface \<Rightarrow> u64 \<Rightarrow> nat \<Rightarrow> bool" where
  "owns interface d k \<longleftrightarrow> is_initialized (py interface) \<and> k < length (event_channels interface) \<and>
     receiver_alive (event_channels interface ! k) \<and> length (queued (event_channels interface ! k)) \<le> channel_capacity \<and>
     (\<forall>d'. hm_get (session_event_senders interface) d' = Some k \<longleftrightarrow> d' = d)"

text \<open>Steps that leave the session and its receiver in place.\<close>

fun keeps_session :: "u64 \<Rightarrow> nat \<Rightarrow> py_op \<Rightarrow> bool" where
  "keeps_session d k (OpNew d' fd) \<longleftrightarrow> d' \<noteq> d"
| "keeps_session d k (OpDrop d') \<longleftrightarrow> d' \<noteq> d"
| "keeps_session d k (OpClose k') \<longleftrightarrow> k' \<noteq> k"
| "keeps_session d k _ \<longleftrightarrow> True"

text \<open>What a step does to the queue of channel \<open>k\<close>.\<close>

definition queue_step :: "'l py_abi \<Rightarrow> u64 \<Rightarrow> nat \<Rightarrow> py_op \<Rightarrow> python_event list \<Rightarrow> python_event list" where
  "queue_step P d k op q =
     (case event_for P d op of
        Some ev \<Rightarrow> if length q < channel_capacity then q @ [ev] else q
      | None \<Rightarrow> if op = OpReceive k then tl q else q)"

lemma owns_other_channel:
  "owns interface d k \<Longrightarrow> j \<noteq> k \<Longrightarrow> owns (interface\<lparr>event_channels := (event_channels interface)[j := ch]\<rparr>) d k"
  unfolding owns_def by simp

lemma owns_own_channel:
  "owns interface d k \<Longrightarrow> receiver_alive ch \<Longrightarrow> length (queued ch) \<le> channel_capacity \<Longrightarrow>
   owns (interface\<lparr>event_channels := (event_channels interface)[k := ch]\<rparr>) d k"
  unfolding owns_def by simp

lemma callback_owned:
  assumes "owns interface d k"
  shows "owns (python_event_callback P sid event interface) d k \<and>
    queued (event_channels (python_event_callback P sid event interface) ! k) =
      queue_step P d k (OpEvent sid event) (queued (event_channels interface ! k))"
proof (cases "event_from_json P event")
  case None
  then show ?thesis using assms by (simp add: python_event_callback_def queue_step_def event_for_def)
next
  case (Some ev)
  show ?thesis
  proof (cases "scast sid = d")
    case True
    then have "hm_get (session_event_senders interface) (scast sid) = Some k" using assms by (simp add: owns_def)
    then have cb: "python_event_callback P sid event interface =
        interface\<lparr>event_channels := (event_channels interface)[k := try_send ev (event_channels interface ! k)]\<rparr>"
      using Some by (simp add: python_event_callback_def dispatch_python_event_def)
    have own: "receiver_alive (event_channels interface ! k)" "length (queued (event_channels interface ! k)) \<le> channel_capacity"
      "k < length (event_channels interface)" using assms by (simp_all add: owns_def)
    then have "owns (python_event_callback P sid event interface) d k"
      unfolding cb by (intro owns_own_channel assms) (simp_all add: try_send_def)
    moreover have "event_for P d (OpEvent sid event) = Some ev" using Some True by (simp add: event_for_def)
    ultimately show ?thesis using own by (simp add: cb queue_step_def try_send_def)
  next
    case False
    then have "hm_get (session_event_senders interface) (scast sid) \<noteq> Some k" using assms by (simp add: owns_def)
    show ?thesis
    proof (cases "hm_get (session_event_senders interface) (scast sid)")
      case None
      then show ?thesis
        using assms Some False by (simp add: python_event_callback_def dispatch_python_event_def queue_step_def event_for_def)
    next
      case (Some j)
      then have "j \<noteq> k" using \<open>hm_get _ _ \<noteq> Some k\<close> by simp
      then show ?thesis
        using assms Some False \<open>event_from_json P event = Some ev\<close> owns_other_channel
        by (simp add: python_event_callback_def dispatch_python_event_def queue_step_def event_for_def)
    qed
  qed
qed

lemma py_step_owned:
  assumes "owns interface d k" "keeps_session d k op"
  shows "\<exists>ev interface' l'. py_step P op (interface, l) = Done (ev, interface', l') \<and> owns interface' d k \<and>
    queued (event_channels interface' ! k) = queue_step P d k op (queued (event_channels interface ! k)) \<and>
    (op = OpReceive k \<longrightarrow> queued (event_channels interface ! k) = (case ev of Some e \<Rightarrow> [e] | None \<Rightarrow> []) @ queued (event_channels interface' ! k))"
proof -
  obtain calls where calls: "py interface = Initialized calls" using assms(1) by (cases "py interface") (auto simp: owns_def)
  have k: "k < length (event_channels interface)" using assms(1) by (simp add: owns_def)
  show ?thesis
  proof (cases op)
    case (OpNew d' fd)
    then have "d' \<noteq> d" using assms(2) by simp
    then show ?thesis
      using assms(1) OpNew calls k
      by (auto simp: new_session_def owns_def hm_get_insert queue_step_def event_for_def nth_append Let_def)
  next
    case (OpDrop d')
    then show ?thesis
      using assms calls by (auto simp: drop_session_def owns_def hm_get_remove queue_step_def event_for_def)
  next
    case (OpEvent sid event)
    then show ?thesis using callback_owned [OF assms(1), of P sid event] by simp
  next
    case (OpReceive j)
    show ?thesis
    proof (cases "j = k")
      case True
      then show ?thesis
        using assms(1) OpReceive
        by (auto simp: receive_event_def owns_def queue_step_def event_for_def split: list.split)
    next
      case False
      then show ?thesis
        using assms(1) OpReceive owns_other_channel
        by (auto simp: receive_event_def queue_step_def event_for_def split: list.split)
    qed
  next
    case (OpClose j)
    then show ?thesis
      using assms owns_other_channel by (auto simp: close_receiver_def queue_step_def event_for_def)
  qed
qed

lemma py_run_owned:
  assumes "owns interface d k" "list_all (keeps_session d k) ops"
  shows "\<exists>evs interface' l'. py_run P k ops (interface, l) = Done (evs, interface', l') \<and> owns interface' d k \<and>
    subseq (evs @ queued (event_channels interface' ! k)) (queued (event_channels interface ! k) @ addressed P d ops) \<and>
    (has_room P d k ops (interface, l) \<longrightarrow>
      evs @ queued (event_channels interface' ! k) = queued (event_channels interface ! k) @ addressed P d ops)"
  using assms
proof (induction ops arbitrary: interface l)
  case Nil
  then show ?case by (simp add: addressed_def)
next
  case (Cons op ops)
  let ?q = "queued (event_channels interface ! k)"
  obtain ev i1 l1 where st: "py_step P op (interface, l) = Done (ev, i1, l1)" "owns i1 d k"
    "queued (event_channels i1 ! k) = queue_step P d k op ?q"
    "op = OpReceive k \<longrightarrow> ?q = (case ev of Some e \<Rightarrow> [e] | None \<Rightarrow> []) @ queued (event_channels i1 ! k)"
    using py_step_owned [OF Cons.prems(1), of op P l] Cons.prems(2) unfolding list.pred_inject by blast
  obtain evs i2 l2 where run: "py_run P k ops (i1, l1) = Done (evs, i2, l2)" "owns i2 d k"
    "subseq (evs @ queued (event_channels i2 ! k)) (queued (event_channels i1 ! k) @ addressed P d ops)"
    "has_room P d k ops (i1, l1) \<longrightarrow>
       evs @ queued (event_channels i2 ! k) = queued (event_channels i1 ! k) @ addressed P d ops"
    using Cons.IH [OF st(2), of l1] Cons.prems(2) unfolding list.pred_inject by blast
  let ?out = "case ev of Some e \<Rightarrow> if op = OpReceive k then e # evs else evs | None \<Rightarrow> evs"
  let ?front = "if op = OpReceive k then (case ev of Some e \<Rightarrow> [e] | None \<Rightarrow> []) else []"
  let ?new = "case event_for P d op of Some e \<Rightarrow> [e] | None \<Rightarrow> []"
  have all: "py_run P k (op # ops) (interface, l) = Done (?out, i2, l2)" using st(1) run(1) by simp
  have addr: "addressed P d (op # ops) = ?new @ addressed P d ops"
    by (simp add: addressed_def map_filter_simps split: option.split)
  have front: "?front @ evs = ?out"
    by (simp split: option.split)
  have qn: "?q @ ?new = ?front @ queued (event_channels i1 ! k)"
    if "event_for P d op = None \<or> length ?q < channel_capacity"
    using that st(3,4) by (auto simp: queue_step_def event_for_def split: option.splits)
  have "event_for P d op \<noteq> None \<Longrightarrow> op \<noteq> OpReceive k" by (auto simp: event_for_def)
  then have "subseq (?front @ queued (event_channels i1 ! k)) (?q @ ?new)"
    using qn st(3) by (cases "event_for P d op = None \<or> length ?q < channel_capacity") (auto simp: queue_step_def)
  then have "subseq ((?front @ queued (event_channels i1 ! k)) @ addressed P d ops) ((?q @ ?new) @ addressed P d ops)"
    by (rule list_emb_append_mono) simp
  moreover have "subseq (?front @ evs @ queued (event_channels i2 ! k)) (?front @ queued (event_channels i1 ! k) @ addressed P d ops)"
    using run(3) by (rule list_emb_append_mono [OF subseq_order.refl])
  ultimately have "subseq (?out @ queued (event_channels i2 ! k)) (?q @ addressed P d (op # ops))"
    unfolding addr front [symmetric] append_assoc by (rule subseq_order.trans [rotated])
  moreover have "?out @ queued (event_channels i2 ! k) = ?q @ addressed P d (op # ops)"
    if "has_room P d k (op # ops) (interface, l)"
  proof -
    have "event_for P d op = None \<or> length ?q < channel_capacity" "has_room P d k ops (i1, l1)" using that st(1) by auto
    then show ?thesis using qn run(4) unfolding addr front [symmetric] by (metis append_assoc)
  qed
  ultimately show ?case using all run(2) by blast
qed

text \<open>Every sender belongs to a channel that exists.\<close>

definition python_ok :: "python_interface \<Rightarrow> bool" where
  "python_ok interface \<longleftrightarrow> is_initialized (py interface) \<and>
     (\<forall>d j. hm_get (session_event_senders interface) d = Some j \<longrightarrow> j < length (event_channels interface))"

lemma python_ok_callback [inv_intros]: "python_ok interface \<Longrightarrow> python_ok (python_event_callback P sid event interface)"
  by (auto simp: python_ok_def python_event_callback_def dispatch_python_event_def split: option.split)

lemma python_ok_receive [inv_intros]: "python_ok interface \<Longrightarrow> python_ok (snd (receive_event k interface))"
  by (auto simp: python_ok_def receive_event_def split: list.split)

lemma python_ok_new:
  assumes "python_ok interface" "new_session P d fd (interface, l) = Done (interface', l')"
  shows "python_ok interface'"
proof -
  obtain calls where "py interface = Initialized calls" using assms(1) by (cases "py interface") (auto simp: python_ok_def)
  then show ?thesis
    using assms by (auto simp: new_session_def python_ok_def hm_get_insert Let_def less_Suc_eq split: if_splits)
qed

lemma python_ok_drop:
  assumes "python_ok interface" "drop_session P d (interface, l) = Done (interface', l')"
  shows "python_ok interface'"
proof -
  obtain calls where "py interface = Initialized calls" using assms(1) by (cases "py interface") (auto simp: python_ok_def)
  then show ?thesis using assms by (auto simp: drop_session_def python_ok_def hm_get_remove split: if_splits)
qed

lemma exec_bind_eq_Done: "exec_bind m f = Done y \<longleftrightarrow> (\<exists>x. m = Done x \<and> f x = Done y)"
  by (cases m) simp_all

lemma python_ok_step:
  assumes "python_ok interface" "py_step P op (interface, l) = Done (ev, interface', l')"
  shows "python_ok interface'"
proof (cases op)
  case (OpNew d fd)
  then show ?thesis using assms python_ok_new by (auto simp: exec_bind_eq_Done)
next
  case (OpDrop d)
  then show ?thesis using assms python_ok_drop by (auto simp: exec_bind_eq_Done)
next
  case (OpEvent sid event)
  then show ?thesis using assms python_ok_callback by auto
next
  case (OpReceive k)
  then show ?thesis using assms python_ok_receive [of interface k] by (auto split: prod.splits)
next
  case (OpClose k)
  then show ?thesis using assms by (auto simp: close_receiver_def python_ok_def)
qed

lemma python_ok_run: "python_ok interface \<Longrightarrow> py_run P k ops (interface, l) = Done (evs, interface', l') \<Longrightarrow> python_ok interface'"
proof (induction ops arbitrary: interface l evs)
  case (Cons op ops)
  then obtain ev i1 l1 evs1 where "py_step P op (interface, l) = Done (ev, i1, l1)"
    "py_run P k ops (i1, l1) = Done (evs1, interface', l')"
    by (auto simp: exec_bind_eq_Done split: prod.splits)
  then show ?case by (intro Cons.IH [OF python_ok_step [OF Cons.prems(1)]])
qed simp

lemma new_session_owns:
  assumes "python_ok interface" "new_session P d fd (interface, l) = Done (interface', l')"
  shows "owns interface' d (length (event_channels interface)) \<and>
    queued (event_channels interface' ! length (event_channels interface)) = []"
proof -
  let ?k = "length (event_channels interface)"
  obtain calls where "py interface = Initialized calls" using assms(1) by (cases "py interface") (auto simp: python_ok_def)
  moreover have "hm_get (session_event_senders interface) d' \<noteq> Some ?k" for d'
    using assms(1) unfolding python_ok_def by (metis less_irrefl)
  ultimately show ?thesis using assms(2) by (auto simp: new_session_def owns_def hm_get_insert Let_def split: if_splits)
qed

text \<open>An interpreter whose commands succeed and which hands over eight pointers, for examples.\<close>

definition sample_commands :: "unit command_api" where
  "sample_commands =
     \<lparr>handle_command = \<lambda>l _. (\<lparr>cmd_succeeded = True, cmd_output = [], cmd_error = []\<rparr>, l),
      handle_command_with_context = \<lambda>l _ _. (\<lparr>cmd_succeeded = True, cmd_output = [], cmd_error = []\<rparr>, l),
      set_immediate_output_file = \<lambda>l. (Inr (), l), interpreter_completions = \<lambda>_ _ _. None, set_async_mode = \<lambda>l _. l,
      lldb_has_v15 = True, resolve_v16 = Inr ()\<rparr>"

definition sample_abi :: "unit py_abi" where
  "sample_abi =
     \<lparr>call_session_init = \<lambda>_ _ _ l. l, call_session_deinit = \<lambda>_ _ l. l, call_interrupt = \<lambda>_ l. l,
      call_drop_pyobject = \<lambda>_ _ l. l, call_handle_message = \<lambda>_ _ l. (True, l),
      call_compile_code = \<lambda>_ _ _ l. (PyInvalid, l), call_evaluate_as_sbvalue = \<lambda>_ _ _ _ l. (PyInvalid, l),
      call_evaluate_as_bool = \<lambda>_ _ _ _ l. (PyInvalid, l), init_calls = \<lambda>_ _. [[1, 2, 3, 4, 5, 6, 7, 8]],
      debug_text = \<lambda>_. [], dummy_target = SBTarget 0, settings_to_json = \<lambda>_. Inr [],
      event_from_json = \<lambda>s. Some (DebuggerMessage s ''console'')\<rparr>"

definition sample_interface :: python_interface where
  "sample_interface = \<lparr>adapter_dir = ''/a'', py = Initialized
     \<lparr>pc_session_init = 1, pc_session_deinit = 2, pc_interrupt = 3, pc_drop_pyobject = 4, pc_handle_message = 5,
      pc_compile_code = 6, pc_evaluate_as_sbvalue = 7, pc_evaluate_as_bool = 8\<rparr>,
     session_event_senders = [], event_channels = []\<rparr>"

definition sample_interface2 :: python_interface where
  "sample_interface2 = sample_interface\<lparr>session_event_senders := [(7, 0)],
     event_channels := [\<lparr>queued = [], receiver_alive = True\<rparr>]\<rparr>"

definition sample_interface3 :: python_interface where
  "sample_interface3 = sample_interface\<lparr>session_event_senders := [(7, 0), (8, 1)],
     event_channels := [\<lparr>queued = [], receiver_alive = True\<rparr>, \<lparr>queued = [], receiver_alive = True\<rparr>]\<rparr>"

lemma sample_initialize:
  "initialize sample_commands sample_abi 1 2 3 LevelInfo ''/a'' () = (Inr sample_interface, ())"
  by (simp add: initialize_def sample_commands_def sample_abi_def sample_interface_def init_callback_def Let_def)

lemma sample_before: "py_run sample_abi 0 [OpNew 7 3] (sample_interface, ()) = Done ([], sample_interface2, ())"
  by (simp add: new_session_def sample_interface_def sample_interface2_def sample_abi_def Let_def)

text \<open>
  Property C17.  Events of Python scripts reach the session they are addressed to and no other.  Take an interface
  that was initialized, after any number of sessions, events and receives, and a new session \<open>d\<close> with its
  channel \<open>k\<close>.  As long as that session and its receiver live, whatever else happens, nothing panics; what was
  received on the channel followed by what is waiting in it are events addressed to \<open>d\<close>, in the order in which they
  were sent; at most 100 events wait; and all events addressed to \<open>d\<close> are among them if the channel had room
  whenever one arrived.
\<close>

theorem python_events_routed:
  assumes "initialize C P callback address event_callback level dir l0 = (Inr i0, l1)"
    and "py_run P j before (i0, l1) = Done (old, i1, l2)"
    and "new_session P d fd (i1, l2) = Done st" "k = length (event_channels i1)"
    and "list_all (keeps_session d k) ops"
  shows "\<exists>evs i2 l3. py_run P k ops st = Done (evs, i2, l3) \<and>
    subseq (evs @ queued (event_channels i2 ! k)) (addressed P d ops) \<and> length (queued (event_channels i2 ! k)) \<le> 100 \<and>
    (has_room P d k ops st \<longrightarrow> evs @ queued (event_channels i2 ! k) = addressed P d ops)"
proof -
  have "python_ok i0" using initialize_initialized [OF assms(1)] by (simp add: python_ok_def)
  then have ok: "python_ok i1" by (rule python_ok_run [OF _ assms(2)])
  obtain i l where st: "st = (i, l)" by fastforce
  have "owns i d k" "queued (event_channels i ! k) = []"
    using new_session_owns [OF ok, of P d fd l2 i l] assms(3,4) st by auto
  then show ?thesis
    using py_run_owned [OF _ assms(5), of i P l] unfolding st by (auto simp: owns_def channel_capacity_def)
qed

text \<open>Two sessions; of the three events, those for session 8 arrive, one of them is received.\<close>

theorem python_events_routed_witness:
  "\<exists>evs i2 l3. py_run sample_abi 1 [OpEvent 8 ''x'', OpEvent 7 ''y'', OpReceive 1, OpEvent 8 ''z'']
       (sample_interface3, ()) = Done (evs, i2, l3) \<and>
     evs @ queued (event_channels i2 ! 1) = [DebuggerMessage ''x'' ''console'', DebuggerMessage ''z'' ''console'']"
proof -
  let ?ops = "[OpEvent 8 ''x'', OpEvent 7 ''y'', OpReceive 1, OpEvent 8 ''z'']"
  let ?st = "(sample_interface3, ())"
  have new: "new_session sample_abi 8 4 (sample_interface2, ()) = Done ?st"
    by (simp add: new_session_def sample_interface_def sample_interface2_def sample_interface3_def sample_abi_def Let_def)
  have k: "1 = length (event_channels sample_interface2)" by (simp add: sample_interface2_def)
  have "has_room sample_abi 8 1 ?ops ?st"
    by (simp add: sample_interface_def sample_interface3_def sample_abi_def Let_def event_for_def
        python_event_callback_def dispatch_python_event_def try_send_def channel_capacity_def receive_event_def)
  moreover have "addressed sample_abi 8 ?ops = [DebuggerMessage ''x'' ''console'', DebuggerMessage ''z'' ''console'']"
    by (simp add: addressed_def map_filter_simps event_for_def sample_abi_def)
  ultimately show ?thesis
    using python_events_routed [OF sample_initialize sample_before new k, of ?ops] by auto
qed

end
