(* ===== verification/Shared_Session.thy ===== *)
theory Shared_Session
  imports Rust_Prelude
begin

text \<open>
  The session behind its lock (\<^verbatim>\<open>shared.rs\<close>).  Tasks on several threads use the session by passing a function to
  \<^verbatim>\<open>map\<close>, which waits for the lock, or to \<^verbatim>\<open>try_map\<close>, which does not; the lock is released when the function has
  returned.  The rest of the development takes each such section as one step; this theory says why that is
  right.
\<close>

section \<open>The shared value\<close>

record 'a shared =
  inner :: 'a
  held_by :: "nat option"
  strong_count :: nat

definition shared_new :: "'a \<Rightarrow> 'a shared" where
  "shared_new x = \<lparr>inner = x, held_by = None, strong_count = 1\<rparr>"

definition shared_clone :: "'a shared \<Rightarrow> 'a shared" where
  "shared_clone s = s\<lparr>strong_count := strong_count s + 1\<rparr>"

definition ref_count :: "'a shared \<Rightarrow> nat" where
  "ref_count s = strong_count s"

text \<open>
  Task \<open>i\<close> takes the lock, applies its function, and gives the lock back.  A task that finds the lock taken waits,
  that is, it takes no step (\<^verbatim>\<open>lock\<close>), or fails (\<^verbatim>\<open>try_lock\<close>).
\<close>

datatype 'a task =
    Wants "'a \<Rightarrow> 'a" bool
  | Holds "'a \<Rightarrow> 'a"
  | Applied
  | Returned bool

definition lock :: "nat \<Rightarrow> 'a shared \<Rightarrow> 'a shared option" where
  "lock i s = (if held_by s = None then Some (s\<lparr>held_by := Some i\<rparr>) else None)"

definition unlock :: "'a shared \<Rightarrow> 'a shared" where
  "unlock s = s\<lparr>held_by := None\<rparr>"

text \<open>One step of task \<open>i\<close> in \<^verbatim>\<open>map\<close> or, when the flag is set, in \<^verbatim>\<open>try_map\<close>.\<close>

definition shared_step :: "nat \<Rightarrow> 'a task list \<Rightarrow> 'a shared \<Rightarrow> ('a task list \<times> 'a shared) option" where
  "shared_step i tasks s =
     (case tasks ! i of
        Wants f once \<Rightarrow>
          (case lock i s of
             Some s' \<Rightarrow> Some (tasks[i := Holds f], s')
           | None \<Rightarrow> if once then Some (tasks[i := Returned False], s) else None)
      | Holds f \<Rightarrow> Some (tasks[i := Applied], s\<lparr>inner := f (inner s)\<rparr>)
      | Applied \<Rightarrow> Some (tasks[i := Returned True], unlock s)
      | Returned _ \<Rightarrow> None)"

section \<open>Sections do not overlap\<close>

text \<open>Runs of tasks in any interleaving, with the functions in the order in which they were applied.\<close>

inductive shared_run :: "'a task list \<Rightarrow> 'a \<Rightarrow> 'a task list \<Rightarrow> 'a shared \<Rightarrow> ('a \<Rightarrow> 'a) list \<Rightarrow> bool"
  for tasks0 x0 where
  begin_run: "shared_run tasks0 x0 tasks0 (shared_new x0) []"
| other_step: "shared_run tasks0 x0 tasks s fs \<Longrightarrow> i < length tasks \<Longrightarrow> \<not> (\<exists>f. tasks ! i = Holds f) \<Longrightarrow>
    shared_step i tasks s = Some (tasks', s') \<Longrightarrow> shared_run tasks0 x0 tasks' s' fs"
| apply_step: "shared_run tasks0 x0 tasks s fs \<Longrightarrow> i < length tasks \<Longrightarrow> tasks ! i = Holds f \<Longrightarrow>
    shared_step i tasks s = Some (tasks', s') \<Longrightarrow> shared_run tasks0 x0 tasks' s' (fs @ [f])"

fun in_section :: "'a task \<Rightarrow> bool" where
  "in_section (Holds _) \<longleftrightarrow> True"
| "in_section Applied \<longleftrightarrow> True"
| "in_section _ \<longleftrightarrow> False"

fun is_fresh :: "'a task \<Rightarrow> bool" where
  "is_fresh (Wants _ _) \<longleftrightarrow> True"
| "is_fresh _ \<longleftrightarrow> False"

text \<open>
  At every moment the value is the result of the applied functions one after the other, as if each had run alone, and
  the only task inside its section is the holder of the lock.
\<close>

theorem sections_atomic:
  assumes "shared_run tasks0 x0 tasks s fs" "list_all is_fresh tasks0"
  shows "inner s = fold (\<lambda>f x. f x) fs x0 \<and>
    (\<forall>i < length tasks. in_section (tasks ! i) \<longleftrightarrow> held_by s = Some i)"
  using assms
proof (induction rule: shared_run.induct)
  case begin_run
  have "\<not> in_section (tasks0 ! i)" if "i < length tasks0" for i
    using begin_run that by (cases "tasks0 ! i") (auto simp: list_all_length dest: spec [of _ i])
  then show ?case by (simp add: shared_new_def)
next
  case (other_step tasks s fs i tasks' s')
  then have ih: "inner s = fold (\<lambda>f x. f x) fs x0" "\<And>j. j < length tasks \<Longrightarrow> in_section (tasks ! j) \<longleftrightarrow> held_by s = Some j" by auto
  show ?case
  proof (cases "tasks ! i")
    case (Wants f once)
    then show ?thesis
      using other_step.hyps ih ih(2) [OF other_step.hyps(2)]
      by (auto simp: shared_step_def lock_def nth_list_update split: option.splits if_splits)
  next
    case Applied
    then show ?thesis
      using other_step.hyps ih ih(2) [OF other_step.hyps(2)] by (auto simp: shared_step_def unlock_def nth_list_update split: if_splits)
  qed (use other_step.hyps in \<open>auto simp: shared_step_def\<close>)
next
  case (apply_step tasks s fs i f tasks' s')
  then have ih: "inner s = fold (\<lambda>f x. f x) fs x0" "\<And>j. j < length tasks \<Longrightarrow> in_section (tasks ! j) \<longleftrightarrow> held_by s = Some j" by auto
  then have "held_by s = Some i" using apply_step.hyps by (metis in_section.simps(1))
  then show ?case using apply_step.hyps ih by (auto simp: shared_step_def nth_list_update split: if_splits)
qed

end
