(* ===== verification/Server.thy ===== *)
theory Server
  imports Python_Interface Launch
begin

text \<open>
  The entry points: \<^verbatim>\<open>bin/main.rs\<close>, which chooses and loads the LLDB library, and \<^verbatim>\<open>debug_server\<close> of \<^verbatim>\<open>lib.rs\<close>, which
  initializes LLDB and Python and runs debug sessions over the standard streams, over one outgoing connection, or over
  incoming connections.  Sockets and the sessions themselves are parameters: the model says which actions the
  server takes, in which order, and how it ends.
\<close>

section \<open>Command line\<close>

record cli =
  cli_liblldb :: "string option"
  cli_port :: "u16 option"
  cli_connect :: "u16 option"
  cli_auth_token :: "string option"
  cli_multi_session :: bool
  cli_settings :: "string option"

text \<open>The library next to the executable's directory, unless one is given.\<close>

definition liblldb_path :: "cli \<Rightarrow> string \<Rightarrow> path \<Rightarrow> path" where
  "liblldb_path c dylib_extension exe =
     (case cli_liblldb c of
        Some p \<Rightarrow> components p
      | None \<Rightarrow>
          let codelldb_dir = path_pop exe
          in path_push (path_push (path_push (path_pop codelldb_dir) (Normal ''lldb'')) (Normal ''lib''))
               (Normal (''liblldb.'' @ dylib_extension)))"

definition parse_settings :: "(string \<Rightarrow> string + adapter_settings) \<Rightarrow> cli \<Rightarrow> adapter_settings" where
  "parse_settings from_json c =
     (case cli_settings c of
        Some s \<Rightarrow> (case from_json s of Inr settings \<Rightarrow> settings | Inl _ \<Rightarrow> default_adapter_settings)
      | None \<Rightarrow> default_adapter_settings)"

text \<open>Whether to use the standard streams, the port, and whether to connect to it.\<close>

definition choose_transport :: "cli \<Rightarrow> bool \<times> u16 \<times> bool" where
  "choose_transport c =
     (case cli_connect c of
        Some port \<Rightarrow> (False, port, True)
      | None \<Rightarrow> (case cli_port c of Some port \<Rightarrow> (False, port, False) | None \<Rightarrow> (True, 0, False)))"

section \<open>The server\<close>

type_synonym socket_addr = "(u8 \<times> u8 \<times> u8 \<times> u8) \<times> u16"

text \<open>A session runs over a stream until it ends.\<close>

datatype server_action =
    ConnectSocket socket_addr
  | BindSocket socket_addr
  | AcceptConnection
  | WriteHeader string
  | RunSession

text \<open>
  What the operating system answers: to connecting, to writing, to binding, and to one \<^verbatim>\<open>accept\<close> after the other; when
  the answers of the last list are used up, the server waits.
\<close>

record sockets =
  connect_error :: "string option"
  header_error :: "string option"
  bind_error :: "string option"
  accept_errors :: "string option list"

datatype server_end = Finished | Failed string | Waiting

fun accept_loop :: "bool \<Rightarrow> string option list \<Rightarrow> server_action list \<times> server_end" where
  "accept_loop multi [] = ([AcceptConnection], Waiting)"
| "accept_loop multi (Some err # accepts) = ([AcceptConnection], Failed err)"
| "accept_loop multi (None # accepts) =
     (let (actions, e) = (if multi then accept_loop multi accepts else ([], Finished))
      in (AcceptConnection # RunSession # actions, e))"

definition auth_header :: "string \<Rightarrow> string" where
  "auth_header token = ''Auth-Token: '' @ token @ [CR, LF]"

definition serve :: "sockets \<Rightarrow> cli \<Rightarrow> server_action list \<times> server_end" where
  "serve S c =
     (let (use_stdio, port, connect) = choose_transport c; addr = ((127, 0, 0, 1), port)
      in if use_stdio then ([RunSession], Finished)
         else if connect then
           (case connect_error S of
              Some err \<Rightarrow> ([ConnectSocket addr], Failed err)
            | None \<Rightarrow>
                (case cli_auth_token c of
                   None \<Rightarrow> ([ConnectSocket addr, RunSession], Finished)
                 | Some token \<Rightarrow>
                     (case header_error S of
                        Some err \<Rightarrow> ([ConnectSocket addr], Failed err)
                      | None \<Rightarrow> ([ConnectSocket addr, WriteHeader (auth_header token), RunSession], Finished))))
         else
           (case bind_error S of
              Some err \<Rightarrow> ([BindSocket addr], Failed err)
            | None \<Rightarrow> (let (actions, e) = accept_loop (cli_multi_session c) (accept_errors S) in (BindSocket addr # actions, e))))"

text \<open>
  \<^verbatim>\<open>debug_server\<close>: the startup command of the environment, Python, which may be missing, then serving, whose error is
  unwrapped.  The result has the settings, the Python interface and the actions; while the server waits there is none.
\<close>

definition debug_server ::
  "'l command_api \<Rightarrow> 'l py_abi \<Rightarrow> (string \<Rightarrow> string + adapter_settings) \<Rightarrow> sockets \<Rightarrow> string option \<Rightarrow> string \<Rightarrow>
     u64 \<times> u64 \<times> u64 \<Rightarrow> log_level \<Rightarrow> cli \<Rightarrow> 'l \<Rightarrow>
     (adapter_settings \<times> python_interface option \<times> server_action list \<times> 'l) exec option" where
  "debug_server C P from_json S startup dir addresses level c l =
     (let settings = parse_settings from_json c;
          l = (case startup of Some command \<Rightarrow> snd (handle_command C l command) | None \<Rightarrow> l);
          (callback, address, event_callback) = addresses;
          (r, l) = initialize C P callback address event_callback level dir l;
          python = (case r of Inr interface \<Rightarrow> Some interface | Inl _ \<Rightarrow> None);
          (actions, e) = serve S c
      in case e of
           Waiting \<Rightarrow> None
         | Failed _ \<Rightarrow> Some Panic
         | Finished \<Rightarrow> Some (Done (settings, python, actions, l)))"

section \<open>What the server does\<close>

fun socket_of :: "server_action \<Rightarrow> socket_addr option" where
  "socket_of (ConnectSocket a) = Some a"
| "socket_of (BindSocket a) = Some a"
| "socket_of _ = None"

definition sessions :: "server_action list \<Rightarrow> nat" where
  "sessions actions = length (filter (\<lambda>a. a = RunSession) actions)"

lemma accept_loop_single: "accept_loop False accepts = (actions, Finished) \<Longrightarrow> actions = [AcceptConnection, RunSession]"
  by (induction False accepts rule: accept_loop.induct) auto

lemma accept_loop_multi: "snd (accept_loop True accepts) \<noteq> Finished"
  by (induction "True" accepts rule: accept_loop.induct) (auto split: prod.splits)

lemma accept_loop_actions: "set (fst (accept_loop multi accepts)) \<subseteq> {AcceptConnection, RunSession}"
  by (induction multi accepts rule: accept_loop.induct) (auto split: prod.splits)

text \<open>
  The server only ever uses the loopback interface; without \<^verbatim>\<open>--multi-session\<close> it runs exactly one session before
  it ends; as a listening server with \<^verbatim>\<open>--multi-session\<close> it never ends by itself; and the token of the command line is
  sent only to a client that the adapter connects to itself.
\<close>

theorem server_sessions:
  shows "(\<forall>a \<in> set (fst (serve S c)). socket_of a = None \<or> (\<exists>port. socket_of a = Some ((127, 0, 0, 1), port))) \<and>
    (snd (serve S c) = Finished \<longrightarrow> sessions (fst (serve S c)) = 1) \<and>
    (cli_multi_session c \<and> cli_connect c = None \<and> cli_port c \<noteq> None \<longrightarrow> snd (serve S c) \<noteq> Finished) \<and>
    (cli_connect c = None \<longrightarrow> (\<forall>h. WriteHeader h \<notin> set (fst (serve S c))))"
proof (cases "cli_connect c")
  case (Some port)
  then show ?thesis by (auto simp: serve_def choose_transport_def sessions_def Let_def split: option.split)
next
  case None
  show ?thesis
  proof (cases "cli_port c")
    case p: None
    then show ?thesis using None by (simp add: serve_def choose_transport_def sessions_def)
  next
    case (Some port)
    obtain actions e where l: "accept_loop (cli_multi_session c) (accept_errors S) = (actions, e)" by fastforce
    have "set actions \<subseteq> {AcceptConnection, RunSession}" using accept_loop_actions [of "cli_multi_session c" "accept_errors S"] l by simp
    moreover have "e = Finished \<Longrightarrow> \<not> cli_multi_session c"
      using accept_loop_multi [of "accept_errors S"] l by auto
    moreover have "e = Finished \<Longrightarrow> actions = [AcceptConnection, RunSession]"
      using accept_loop_single [of "accept_errors S" actions] l calculation(2) by simp
    ultimately show ?thesis
      using None Some l by (auto simp: serve_def choose_transport_def sessions_def Let_def split: option.splits)
  qed
qed

end
