(* ===== verification/Terminal_Agent.thy ===== *)
theory Terminal_Agent
  imports Launch
begin

text \<open>
  The program \<^verbatim>\<open>codelldb-launch\<close> (\<^verbatim>\<open>codelldb-launch/src/main.rs\<close>), which the adapter starts inside a terminal: it
  connects back, reports its environment and the name of the terminal, and waits until it is let go.  Arguments,
  environment, files, sockets and the JSON text of the two messages are parameters.
\<close>

section \<open>The agent\<close>

record agent_args =
  aa_connect :: "string option"
  aa_config :: "string option"
  aa_clear_screen :: bool
  aa_cmd :: "string list"

text \<open>
  The environment of the process.  A file cannot be opened (\<open>None\<close>), or opens and is read with an error or its
  text; \<open>tty_name\<close> is \<^verbatim>\<open>ttyname\<close> of the standard output; \<open>read_response\<close> is what arrives on a connection until
  its end; \<open>write_error\<close> is the first error, if any, of setting up the connection, writing the message, flushing and
  shutting down the writing half.  The variables are valid text.
\<close>

record agent_world =
  env_vars :: "(string \<times> string) list"
  file_text :: "string \<Rightarrow> (string + string) option"
  working_dir :: "string option"
  tty_name :: "string option"
  parse_address :: "string \<Rightarrow> string option"
  connect_to :: "string \<Rightarrow> string option"
  write_error :: "string option"
  read_response :: "string + string"

record agent_serde =
  env_to_json :: "launch_environment \<Rightarrow> string"
  env_from_json :: "string \<Rightarrow> string + launch_environment"
  resp_to_json :: "launch_response \<Rightarrow> string"
  resp_from_json :: "string \<Rightarrow> string + launch_response"

definition agent_address :: "agent_world \<Rightarrow> agent_args \<Rightarrow> (string + string) exec" where
  "agent_address W args =
     (case aa_connect args of
        Some address \<Rightarrow> Done (Inr address)
      | None \<Rightarrow>
          (case map_of (env_vars W) ''CODELLDB_LAUNCH_CONNECT'' of
             Some address \<Rightarrow> Done (Inr address)
           | None \<Rightarrow>
               (case map_of (env_vars W) ''CODELLDB_LAUNCH_CONNECT_FILE'' of
                  Some path \<Rightarrow> (case file_text W path of None \<Rightarrow> Panic | Some r \<Rightarrow> Done r)
                | None \<Rightarrow> Done (Inl ''Need an address to connect to.''))))"

definition agent_config :: "agent_world \<Rightarrow> agent_args \<Rightarrow> string option" where
  "agent_config W args =
     (case aa_config args of Some config \<Rightarrow> Some config | None \<Rightarrow> map_of (env_vars W) ''CODELLDB_LAUNCH_CONFIG'')"

definition agent_request :: "agent_world \<Rightarrow> agent_args \<Rightarrow> launch_environment" where
  "agent_request W args =
     \<lparr>le_cmd = aa_cmd args, le_cwd = (case working_dir W of Some d \<Rightarrow> d | None \<Rightarrow> []), le_env = JsonMap (env_vars W),
      le_terminal_id = map_option TTY (tty_name W), le_config = agent_config W args\<rparr>"

text \<open>What the agent does that others can see.\<close>

datatype agent_action =
    ConnectTo string
  | WriteAll string
  | ShutdownWrite
  | ClearScreen
  | PurgeStdin

definition agent_verdict :: "agent_serde \<Rightarrow> string \<Rightarrow> string + unit" where
  "agent_verdict J response =
     (case resp_from_json J response of
        Inr r \<Rightarrow> if lr_success r then Inr () else Inl (case lr_message r of Some m \<Rightarrow> m | None \<Rightarrow> ''Failed'')
      | Inl e \<Rightarrow> Inl e)"

definition agent_main :: "agent_serde \<Rightarrow> agent_world \<Rightarrow> agent_args \<Rightarrow> ((string + unit) \<times> agent_action list) exec" where
  "agent_main J W args =
     exec_bind (agent_address W args) (\<lambda>r. case r of
       Inl err \<Rightarrow> Done (Inl err, [])
     | Inr address \<Rightarrow>
         let request = agent_request W args
         in case parse_address W address of
              Some err \<Rightarrow> Done (Inl err, [])
            | None \<Rightarrow>
                (case connect_to W address of
                   Some err \<Rightarrow> Done (Inl err, [])
                 | None \<Rightarrow>
                     (case write_error W of
                        Some err \<Rightarrow> Done (Inl err, [ConnectTo address])
                      | None \<Rightarrow>
                          let sent = [ConnectTo address, WriteAll (env_to_json J request), ShutdownWrite] @
                                (if aa_clear_screen args then [ClearScreen] else [])
                          in (case read_response W of
                                Inl err \<Rightarrow> Done (Inl err, sent)
                              | Inr response \<Rightarrow> Done (agent_verdict J response, sent @ [PurgeStdin])))))"

section \<open>The adapter's end of the connection\<close>

text \<open>What the adapter makes of the bytes of the agent, in \<^verbatim>\<open>Terminal::create\<close>.\<close>

definition terminal_from_bytes :: "agent_serde \<Rightarrow> string \<Rightarrow> string + terminal" where
  "terminal_from_bytes J buf =
     map_sum id (\<lambda>launch_env. \<lparr>terminal_connection = True, terminal_name = le_terminal_id launch_env\<rparr>) (env_from_json J buf)"

text \<open>What it writes to the connection when the terminal is dropped.\<close>

definition dropped_bytes :: "agent_serde \<Rightarrow> terminal \<Rightarrow> string" where
  "dropped_bytes J t =
     concat (map (resp_to_json J) (drop_terminal (Some t)))"

definition json_documented :: "agent_serde \<Rightarrow> bool" where
  "json_documented J \<longleftrightarrow> (\<forall>e. env_from_json J (env_to_json J e) = Inr e) \<and> (\<forall>r. resp_from_json J (resp_to_json J r) = Inr r)"

section \<open>Adapter and agent understand each other\<close>

text \<open>
  The agent that the adapter starts connects to the address the adapter listens on and sends one message; the
  adapter's terminal has the name of the terminal the agent runs in, for input and output; and when the adapter
  drops the terminal, the agent ends successfully.
\<close>

theorem terminal_handshake:
  assumes "json_documented J" "parse_address W addr = None" "connect_to W addr = None" "write_error W = None"
    and "terminal_from_bytes J (env_to_json J (agent_request W args)) = Inr t"
    and "read_response W = Inr (dropped_bytes J t)"
    and "args = \<lparr>aa_connect = Some addr, aa_config = None, aa_clear_screen = True, aa_cmd = []\<rparr>"
  shows "agent_main J W args =
      Done (Inr (), [ConnectTo addr, WriteAll (env_to_json J (agent_request W args)), ShutdownWrite, ClearScreen, PurgeStdin]) \<and>
    input_devname t = tty_name W \<and> output_devname t = tty_name W"
proof -
  have t: "t = \<lparr>terminal_connection = True, terminal_name = map_option TTY (tty_name W)\<rparr>"
    using assms(1,5) by (simp add: json_documented_def terminal_from_bytes_def agent_request_def)
  have "agent_verdict J (dropped_bytes J t) = Inr ()"
    using assms(1) by (simp add: t dropped_bytes_def drop_terminal_def map_filter_simps agent_verdict_def json_documented_def)
  then show ?thesis
    using assms(2-4,6,7)
    by (auto simp: agent_main_def agent_address_def t input_devname_def output_devname_def Let_def split: option.split)
qed

text \<open>The address: the command line goes before the environment, and the environment before the file.\<close>

lemma agent_address_order:
  "aa_connect args = Some a \<Longrightarrow> agent_address W args = Done (Inr a)"
  "aa_connect args = None \<Longrightarrow> map_of (env_vars W) ''CODELLDB_LAUNCH_CONNECT'' = Some b \<Longrightarrow> agent_address W args = Done (Inr b)"
  "aa_connect args = None \<Longrightarrow> map_of (env_vars W) ''CODELLDB_LAUNCH_CONNECT'' = None \<Longrightarrow>
   map_of (env_vars W) ''CODELLDB_LAUNCH_CONNECT_FILE'' = Some path \<Longrightarrow> file_text W path = Some (Inr c) \<Longrightarrow>
   agent_address W args = Done (Inr c)"
  by (simp_all add: agent_address_def)

text \<open>An agent ends successfully only if its peer said so.\<close>

lemma agent_success:
  assumes "agent_main J W args = Done (Inr (), actions)"
  obtains response r where "read_response W = Inr response" "resp_from_json J response = Inr r" "lr_success r"
proof -
  obtain a where a: "agent_address W args = Done a" using assms by (cases "agent_address W args") (simp_all add: agent_main_def)
  obtain address where addr: "a = Inr address" using assms by (cases a) (simp_all add: agent_main_def a)
  obtain response where resp: "read_response W = Inr response" "agent_verdict J response = Inr ()"
    using assms by (auto simp: agent_main_def a addr Let_def split: option.splits sum.splits)
  then obtain r where "resp_from_json J response = Inr r" "lr_success r"
    by (auto simp: agent_verdict_def split: sum.splits if_splits)
  then show thesis using that resp(1) by blast
qed

end
