(* ===== verification/Spec2Isabelle.thy ===== *)
theory Spec2Isabelle
  imports Rust_Prelude Handles Dap_Codec Dap_Session Cancellation Errors Event_Listener Fsutil Disassembly Expressions Preprocess_Laws
    Session_Settings Session_Run Session_Inspect Session_Events Variables Breakpoints Breakpoint_Laws Session_Memory
    Disassemble Step_In Launch Launch_Laws Dispatch Plain_Handlers Answers Event_Loop
    Lldb_Strings Console Python_Interface Shared_Session Server Terminal_Agent
begin

text \<open>
  \<^bold>\<open>A verification development for the CodeLLDB debug adapter.\<close>

  The adapter (\<^verbatim>\<open>src/codelldb\<close>) stands between a client that speaks the Debug Adapter Protocol and LLDB.
  Bytes from the client are cut into messages (\<^verbatim>\<open>dap_codec.rs\<close>); a dispatcher numbers outgoing messages
  and pairs responses with the adapter's own requests (\<^verbatim>\<open>dap_session.rs\<close>); a filter attaches a
  cancellation token to every request (\<^verbatim>\<open>cancellation.rs\<close>, \<^verbatim>\<open>DebugSession::cancellation_filter\<close>); the main
  event loop (\<^verbatim>\<open>debug_session.rs\<close>) handles requests, events of LLDB that a polling thread hands over
  (\<^verbatim>\<open>debug_event_listener.rs\<close>) and events of Python scripts, one at a time, and spawns tasks for the
  responses that have to wait.  Handlers work on one record, the session, and talk to LLDB.

  \<^bold>\<open>How it is modelled.\<close>  Types and functions keep the names of the source.  A panic is the value
  \<open>Panic\<close> of type \<open>exec\<close> (\<open>Rust_Prelude\<close>), machine integers are words or integers with the wrap-around
  written out, strings are lists of bytes (\<open>Rust_Str\<close>, \<open>Rust_Text\<close>), hash maps are association lists or
  partial functions.  A handler is an action on the session which panics, fails with an error or
  succeeds (\<open>Errors\<close>, type \<open>act\<close>; \<open>andThen\<close> is the question mark operator).  LLDB, Python, the
  operating system and third-party crates are parameters: the record \<open>env\<close> of \<open>Debugger_Api\<close>, whose
  fields are functions on an unknown state, the record \<open>nom\<close> of \<open>Preprocess\<close>, the record \<open>serde\<close> of
  \<open>Dap_Codec\<close>, the record \<open>py_abi\<close> of \<open>Python_Interface\<close>.  What is assumed of them is a hypothesis of the theorem that needs it; \<open>Stub_Env\<close> has an
  instance for examples.

  \<^bold>\<open>Theories.\<close>
  \<^item> \<open>Handles\<close> (\<^verbatim>\<open>handles.rs\<close>): handles of variables.  A new handle never disturbs a live one, and paths keep
    their handles across a reset (C1, C2).
  \<^item> \<open>Dap_Codec\<close>: decoding does not depend on how bytes arrive, encoding is decoded back, a request from a
    browser is rejected if its header is valid UTF-8, a certain header panics (C3--C6).
  \<^item> \<open>Protocol\<close>, \<open>Messages\<close> (\<^verbatim>\<open>codelldb-types\<close>, \<^verbatim>\<open>adapter-protocol\<close>): the data of the protocol.
  \<^item> \<open>Dap_Session\<close>: numbering is consecutive, replies reach the right requestor once, and every response is
    delivered (C7--C9).
  \<^item> \<open>Cancellation\<close>: the filter interleaved with the main loop refines a specification of which requests are
    cancelled (C10).
  \<^item> \<open>Event_Listener\<close>: no event that arrived while the listener was corked is delivered (C12).
  \<^item> \<open>Fsutil\<close>: path normalization, which removes dots and keeps the rest, and quoting (C13).
  \<^item> \<open>Disassembly\<close> (\<^verbatim>\<open>disassembly.rs\<close>): the table of disassembled ranges, line numbers and adapter data
    (C15, C16).
  \<^item> \<open>Preprocess\<close>, \<open>Preprocess_Laws\<close> (\<^verbatim>\<open>expressions/\<close>): the grammars of identifiers, literals, strings, native and
    simple expressions and the translation to Python (C18); \<open>Expressions\<close>: hit conditions and format suffixes
    (C20, C21).
  \<^item> \<open>Session_State\<close>: the session record and what all handlers share; \<open>Session_Settings\<close>: capabilities, settings,
    completions, local paths (C22); \<open>Session_Run\<close>: run control; \<open>Session_Inspect\<close>: threads, modules, stack
    traces, sources, symbols (C25, C26); \<open>Session_Events\<close>: events, forwarding of output (C27);
    \<open>Variables\<close>: scopes, variables, summaries, evaluation (C28--C30); \<open>Breakpoints\<close> and \<open>Breakpoint_Laws\<close>:
    all kinds of breakpoints, conditions, logpoints (C31--C34); \<open>Session_Memory\<close>: data breakpoints and memory
    (C35, C36); \<open>Disassemble\<close>: the disassemble request (C37, C38); \<open>Step_In\<close>: stepping into a chosen call (C39).
  \<^item> \<open>Launch\<close>, \<open>Launch_Laws\<close> (\<^verbatim>\<open>launch.rs\<close>, \<^verbatim>\<open>terminal.rs\<close>, \<^verbatim>\<open>debugger_terminal.rs\<close>): launching, attaching, restarting
    and ending, with the stages of the asynchronous part; the environment of the debuggee (C14).
  \<^item> \<open>Dispatch\<close>: the dispatch of requests and events and the event loop as a step function.
  \<^item> \<open>Plain_Handlers\<close>: nearly all handlers neither answer by themselves nor touch the configuration-done
    channel.  \<open>Answers\<close>: the event loop refines an abstract loop that only knows responses, tasks and that
    channel.  \<open>Event_Loop\<close>: every request gets exactly one response, which is lost only when it finds the outgoing
    queue full or closed (C11), with a body of its own kind (C19), and \<^verbatim>\<open>configurationDone\<close> is answered after launching and attaching (C40).
  \<^item> \<open>Lldb_Strings\<close> (\<^verbatim>\<open>lldb/src/strings.rs\<close>, parts of \<^verbatim>\<open>lldb/src/sb\<close>): strings to and from LLDB; a string is read
    completely whatever convention the LLDB function has for its return value (C23).  \<open>Console\<close>: what is printed to
    the console pipe is sent in order and by lines (C24).
  \<^item> \<open>Python_Interface\<close> (\<^verbatim>\<open>python.rs\<close>): the interface to the interpreter inside LLDB; events of scripts reach
    the session they are addressed to, in order (C17).
  \<^item> \<open>Shared_Session\<close> (\<^verbatim>\<open>shared.rs\<close>): sections under the lock of the session are atomic in every interleaving, which is
    why the other theories take a handler as one step.
  \<^item> \<open>Server\<close> (\<^verbatim>\<open>lib.rs\<close>, \<^verbatim>\<open>bin/main.rs\<close>): the command line, the transport and the sessions a server runs.
    \<open>Terminal_Agent\<close> (\<^verbatim>\<open>codelldb-launch\<close>): the program that runs in a terminal and reports it to the adapter, which
    understands what it sends.

  \<^bold>\<open>Interfaces.\<close>  Where one part relies on a contract of another, the contract is a locale that is interpreted on
  the model's own definitions: \<open>ordered_index\<close> (the table of disassembled ranges), \<open>reference_forest\<close> (the tree
  of variable references, for the walk to the root), \<open>placement\<close> (the four kinds of breakpoint requests share
  one loop), \<open>answering_system\<close> (whatever refines the abstract loop answers all requests).

  \<^bold>\<open>Termination and bounds.\<close>  Loops are recursive functions with a termination proof, with three exceptions:
  the loop that forwards output is a \<open>while_option\<close>, the walk to the root of a handle tree and the loop that
  steps into a target are partial functions into \<open>option\<close>; C27, C28 and C39 say when they return.  The
  grammars of qualified identifiers and of simple expressions are recursive through parser combinators; their
  functions have a bound on the nesting, which is one more than the length of the input.  By
  \<open>qualified_ident_bound\<close> and \<open>simple_expression_bound\<close> any larger bound gives the same result, since
  every level of nesting consumes a bracket.  The asynchronous runtime is the choice of the next input of \<open>loop_step\<close>; a task waits by not
  being chosen or by staying as it is.  What a cancellation token or the clock answers while a request is
  handled comes with the request.  The queue to the dispatcher has room for 1000 messages: the field \<open>outgoing\<close> of the
  session lists the messages handed to it, each with the number of messages it finds waiting there, or \<open>None\<close> when the
  dispatcher has ended; these numbers are an input of the run (\<open>queue_answers\<close>).  \<open>hand_over\<close> is \<^verbatim>\<open>try_send\<close>, which drops
  a message that finds no room, \<open>hand_over_waiting\<close> is \<^verbatim>\<open>send\<close>, which waits; \<open>queued_messages\<close> is what got in.

  \<^bold>\<open>Not modelled.\<close>  The methods of the wrapper classes in \<^verbatim>\<open>lldb/src/sb\<close>, each of which calls one C++ function, and the
  loader of the LLDB library (\<^verbatim>\<open>lldb-stub\<close>); the bytes on sockets, pipes and standard streams below the codec,
  logging and crash hooks; the shutdown of the event loop and of the debugger's terminal; code compiled for Windows
  only; the generators of bindings and schemas; the TypeScript extension, the Python modules and the tests.
  A panic ends a run of the event loop in the model; in the program a panic of a
  spawned task only ends that task.
\<close>

end
